(* ===== verification/Prelude.thy ===== *)
theory Prelude
  imports Main "HOL-Library.Word"
begin

text \<open>
  The vocabulary every other theory shares: machine integers and byte strings, the
  three outcomes of an effectful call, contiguous windows of a byte list and their
  algebra, decimal and hexadecimal text, and the fact collections that carry the
  component proofs.

  \<^item> \<open>u8\<close> to \<open>u128\<close> are fixed-width words, so \<open>+\<close> wraps and the saturating operations
    of the source are written out. Lengths (\<open>usize\<close>) are \<open>nat\<close>.
  \<^item> \<open>slice off n bs\<close> is \<open>&bs[off..off + n]\<close>.
  \<^item> \<open>outcome\<close> is what an awaited call can do: return, fail, or never return.
\<close>

unbundle bit_operations_syntax

section \<open>Fact collections\<close>

named_theorems slice_simps \<open>windows of byte lists\<close>
named_theorems pod_simps \<open>lengths and inverses of the byte codecs\<close>
named_theorems const_defs \<open>definitions of the named constants of the program\<close>

section \<open>Machine integers and byte strings\<close>

type_synonym u8 = "8 word"
type_synonym u16 = "16 word"
type_synonym u32 = "32 word"
type_synonym u64 = "64 word"
type_synonym u128 = "128 word"
type_synonym i64 = "64 word" \<comment> \<open>read with \<open>sint\<close>\<close>
type_synonym bytes = "u8 list"
type_synonym pubkey = "u8 list"

definition saturating_sub :: "'a::len word \<Rightarrow> 'a word \<Rightarrow> 'a word" where
  "saturating_sub a b = (if a < b then 0 else a - b)"

definition saturating_mul :: "'a::len word \<Rightarrow> 'a word \<Rightarrow> 'a word" where
  "saturating_mul a b = (if unat a * unat b < 2 ^ LENGTH('a) then a * b else - 1)"

definition saturating_add :: "'a::len word \<Rightarrow> 'a word \<Rightarrow> 'a word" where
  "saturating_add a b = (if unat a + unat b < 2 ^ LENGTH('a) then a + b else - 1)"

lemma unat_saturating_sub: "unat (saturating_sub a b) = unat a - unat b"
  by (auto simp: saturating_sub_def word_less_nat_alt unat_sub_if_size)

lemma unat_saturating_mul:
  "unat (saturating_mul a b) = min (unat a * unat b) (2 ^ LENGTH('a) - 1)"
  for a b :: "'a::len word"
proof (cases "unat a * unat b < 2 ^ LENGTH('a)")
  case True
  then have "unat a * unat b \<le> 2 ^ LENGTH('a) - 1" by linarith
  with True show ?thesis by (simp add: saturating_mul_def unat_word_ariths min_absorb1 del: mult_le_cancel2)
next
  case False
  then have "2 ^ LENGTH('a) - 1 \<le> unat a * unat b" by linarith
  with False show ?thesis
    by (simp add: saturating_mul_def unsigned_minus_1_eq_mask mask_eq_exp_minus_1 min_absorb2
        del: mult_less_cancel2)
qed

lemma unat_saturating_add:
  "unat (saturating_add a b) = min (unat a + unat b) (2 ^ LENGTH('a) - 1)"
  for a b :: "'a::len word"
  by (auto simp: saturating_add_def unat_word_ariths unsigned_minus_1_eq_mask mask_eq_exp_minus_1 min_def)

section \<open>Outcomes of effectful calls\<close>

text \<open>An awaited call returns a value, returns an error, or is never resumed.\<close>

datatype 'a outcome = Done 'a | Fail string | Hang

section \<open>Windows of a list\<close>

definition slice :: "nat \<Rightarrow> nat \<Rightarrow> 'a list \<Rightarrow> 'a list" where
  "slice off n xs = take n (drop off xs)"

lemma length_slice: "length (slice off n xs) = min n (length xs - off)"
  by (simp add: slice_def)

lemma length_slice_le [slice_simps]: "off + n \<le> length xs \<Longrightarrow> length (slice off n xs) = n"
  by (simp add: slice_def)

lemma slice_replicate [slice_simps]:
  "off + n \<le> m \<Longrightarrow> slice off n (replicate m x) = replicate n x"
  by (simp add: slice_def min_def)

lemma slice_slice [slice_simps]:
  "a + k \<le> n \<Longrightarrow> slice a k (slice off n xs) = slice (off + a) k xs"
  by (simp add: slice_def drop_take take_take min_def ac_simps)

lemma slice_here [slice_simps]: "length a = n \<Longrightarrow> slice 0 n (a @ b) = a"
  by (simp add: slice_def)

lemma slice_all [slice_simps]: "length a = n \<Longrightarrow> slice 0 n a = a"
  by (simp add: slice_def)

lemma slice_skip [slice_simps]:
  "length a \<le> off \<Longrightarrow> slice off n (a @ b) = slice (off - length a) n b"
  by (simp add: slice_def)

lemma slice_append_left:
  "off + n \<le> length a \<Longrightarrow> slice off n (a @ b) = slice off n a"
  by (simp add: slice_def)

lemma slice_to_drop: "length xs \<le> off + n \<Longrightarrow> slice off n xs = drop off xs"
  by (simp add: slice_def)

lemma slice_join [slice_simps]:
  "b = a + n \<Longrightarrow> slice a n xs @ slice b m xs = slice a (n + m) xs"
  by (simp add: slice_def take_add add.commute [of n a])

lemma slice_drop_join: "b = off + n \<Longrightarrow> slice off n xs @ drop b xs = drop off xs"
  by (metis add.commute append_take_drop_id drop_drop slice_def)

lemma slice_take: "off + n \<le> m \<Longrightarrow> slice off n (take m xs) = slice off n xs"
  by (simp add: slice_def drop_take take_take min_def)

lemma nth_slice: "i < n \<Longrightarrow> off + n \<le> length xs \<Longrightarrow> slice off n xs ! i = xs ! (off + i)"
  by (simp add: slice_def)

lemma slice_eq_takeI: "slice 0 n xs = take n xs"
  by (simp add: slice_def)

section \<open>Integer text\<close>

definition digit_char :: "nat \<Rightarrow> char" where
  "digit_char d = char_of (48 + d)"

fun decimal :: "nat \<Rightarrow> string" where
  "decimal n = (if n < 10 then [digit_char n] else decimal (n div 10) @ [digit_char (n mod 10)])"

declare decimal.simps [simp del]

definition digit_value :: "char \<Rightarrow> nat" where
  "digit_value c = of_char c - 48"

definition decimal_value :: "string \<Rightarrow> nat" where
  "decimal_value s = foldl (\<lambda>a c. 10 * a + digit_value c) 0 s"

definition is_digit :: "char \<Rightarrow> bool" where
  "is_digit c \<longleftrightarrow> (48 :: nat) \<le> of_char c \<and> of_char c \<le> (57 :: nat)"

lemma of_char_digit_char: "d < 10 \<Longrightarrow> (of_char (digit_char d) :: nat) = 48 + d"
  by (simp add: digit_char_def)

lemma digit_value_char [simp]: "d < 10 \<Longrightarrow> digit_value (digit_char d) = d"
  by (simp add: digit_value_def of_char_digit_char)

lemma is_digit_char [simp]: "d < 10 \<Longrightarrow> is_digit (digit_char d)"
  by (simp add: is_digit_def of_char_digit_char)

lemma decimal_value_Nil [simp]: "decimal_value [] = 0"
  by (simp add: decimal_value_def)

lemma decimal_value_snoc [simp]: "decimal_value (s @ [c]) = 10 * decimal_value s + digit_value c"
  by (simp add: decimal_value_def)

lemma decimal_small: "n < 10 \<Longrightarrow> decimal n = [digit_char n]"
  by (subst decimal.simps) simp

lemma decimal_large: "10 \<le> n \<Longrightarrow> decimal n = decimal (n div 10) @ [digit_char (n mod 10)]"
  by (subst decimal.simps) simp

lemma decimal_value_decimal [simp]: "decimal_value (decimal n) = n"
proof (induction n rule: decimal.induct)
  case (1 n)
  show ?case
  proof (cases "n < 10")
    case True
    then show ?thesis
      using decimal_value_snoc [of "[]" "digit_char n"] by (simp add: decimal_small)
  next
    case False
    then show ?thesis using "1.IH" by (simp add: decimal_large)
  qed
qed

lemma decimal_inj: "decimal a = decimal b \<Longrightarrow> a = b"
  by (metis decimal_value_decimal)

lemma decimal_digits: "list_all is_digit (decimal n)"
proof (induction n rule: decimal.induct)
  case (1 n)
  then show ?case
    by (cases "n < 10") (simp_all add: decimal_small decimal_large)
qed

lemma decimal_not_Nil [simp]: "decimal n \<noteq> []"
  by (cases "n < 10") (simp_all add: decimal_small decimal_large)

lemma length_decimal_le: "n < 10 ^ w \<Longrightarrow> 0 < w \<Longrightarrow> length (decimal n) \<le> w"
proof (induction w arbitrary: n)
  case 0
  then show ?case by simp
next
  case (Suc w)
  show ?case
  proof (cases "n < 10")
    case True
    then show ?thesis by (simp add: decimal_small)
  next
    case False
    with Suc.prems have "n div 10 < 10 ^ w" and "0 < w"
      by (auto simp: less_mult_imp_div_less mult.commute intro: Nat.gr0I)
    with Suc.IH [of "n div 10"] False show ?thesis by (simp add: decimal_large)
  qed
qed

text \<open>\<open>{:0w}\<close> of Rust's format strings: left padding with zeroes to width \<open>w\<close>.\<close>

definition zero_pad :: "nat \<Rightarrow> string \<Rightarrow> string" where
  "zero_pad w s = replicate (w - length s) (CHR ''0'') @ s"

lemma length_zero_pad: "length s \<le> w \<Longrightarrow> length (zero_pad w s) = w"
  by (simp add: zero_pad_def)

lemma decimal_value_zeros: "decimal_value (replicate k (CHR ''0'') @ s) = decimal_value s"
  by (induction k) (simp_all add: decimal_value_def digit_value_def)

lemma decimal_value_zero_pad [simp]: "decimal_value (zero_pad w (decimal n)) = n"
  by (simp add: zero_pad_def decimal_value_zeros)

lemma zero_pad_digits: "list_all is_digit (zero_pad w (decimal n))"
  using decimal_digits [of n]
  by (auto simp: zero_pad_def is_digit_def list_all_iff split: if_splits)

definition hex_char :: "nat \<Rightarrow> char" where
  "hex_char d = (if d < 10 then char_of (48 + d) else char_of (87 + d))"

text \<open>\<open>{:02x}\<close> of one byte.\<close>

definition hex_byte :: "u8 \<Rightarrow> string" where
  "hex_byte b = [hex_char (unat b div 16), hex_char (unat b mod 16)]"

lemma length_hex_byte [simp]: "length (hex_byte b) = 2"
  by (simp add: hex_byte_def)

lemma of_char_hex_char:
  "d < 16 \<Longrightarrow> (of_char (hex_char d) :: nat) = (if d < 10 then 48 + d else 87 + d)"
  by (simp add: hex_char_def)

lemma hex_char_inj: "a < 16 \<Longrightarrow> b < 16 \<Longrightarrow> hex_char a = hex_char b \<Longrightarrow> a = b"
  by (drule arg_cong [where f = "of_char :: char \<Rightarrow> nat"])
    (auto simp: of_char_hex_char split: if_splits)

lemma hex_byte_inj: "hex_byte a = hex_byte b \<Longrightarrow> a = b"
proof -
  have bound: "unat c < 256" for c :: u8
    using unsigned_less [of c] by simp
  assume "hex_byte a = hex_byte b"
  then have "unat a div 16 = unat b div 16" and "unat a mod 16 = unat b mod 16"
    using bound [of a] bound [of b] by (auto simp: hex_byte_def less_mult_imp_div_less intro: hex_char_inj)
  then have "unat a = unat b" by (metis div_mult_mod_eq)
  then show "a = b" by (simp only: unsigned_word_eqI)
qed

text \<open>A fixed-width encoding of the elements makes the concatenation injective.\<close>

lemma concat_map_inj:
  assumes len: "\<And>x. length (f x) = w" and nonempty: "\<And>x. f x \<noteq> []"
    and inj: "\<And>x y. f x = f y \<Longrightarrow> x = y"
  shows "concat (map f xs) = concat (map f ys) \<Longrightarrow> xs = ys"
proof (induction xs arbitrary: ys)
  case Nil
  then show ?case
    using nonempty by (cases ys) auto
next
  case (Cons x xs)
  then obtain y ys' where ys: "ys = y # ys'"
    using nonempty by (cases ys) auto
  with Cons.prems have "f x = f y \<and> concat (map f xs) = concat (map f ys')"
    using len by simp
  with Cons.IH ys inj show ?case by blast
qed

lemma length_concat_map_const: "(\<And>x. length (f x) = w) \<Longrightarrow> length (concat (map f xs)) = w * length xs"
  by (induction xs) (auto simp: algebra_simps)

end
