(* ===== verification/Pod.thy ===== *)
theory Pod
  imports Prelude
begin

text \<open>
  Plain-old-data views of account bytes (\<open>bytemuck::Pod\<close> over \<open>#[repr(C)]\<close> structs), as
  the decoders of \<open>src/decode.rs\<close> and \<open>vendor/klend-interface/src/state\<close> use them.

  The locale \<open>pod\<close> is the interface: a size, the values that fit, the memory image of a
  value and the value of a memory image, with the laws that make the cast a bijection
  between the well-formed values and the byte strings of that size. It is interpreted for
  the primitive integers, for \<open>Pubkey\<close>, for \<open>PodU128\<close> and for byte arrays here, and for
  every struct in the theory that models it; \<open>array_pod\<close> gives fixed-size arrays.
  Fields are little-endian, as on the targets the program and the chain run on.
\<close>

section \<open>The interface\<close>

locale pod =
  fixes sz :: nat and ok :: "'a \<Rightarrow> bool" and enc :: "'a \<Rightarrow> bytes" and dec :: "bytes \<Rightarrow> 'a"
  assumes enc_length: "ok x \<Longrightarrow> length (enc x) = sz"
    and dec_enc: "ok x \<Longrightarrow> dec (enc x) = x"
    and enc_dec: "length bs = sz \<Longrightarrow> enc (dec bs) = bs"
    and dec_wf: "length bs = sz \<Longrightarrow> ok (dec bs)"
begin

lemma dec_inj: "length a = sz \<Longrightarrow> length b = sz \<Longrightarrow> dec a = dec b \<Longrightarrow> a = b"
  using enc_dec by metis

lemma enc_inj: "ok x \<Longrightarrow> ok y \<Longrightarrow> enc x = enc y \<Longrightarrow> x = y"
  using dec_enc by metis

lemma dec_surj: "ok x \<Longrightarrow> \<exists>bs. length bs = sz \<and> dec bs = x"
  using dec_enc enc_length by metis

lemma enc_slice_dec:
  "off + sz \<le> length bs \<Longrightarrow> enc (dec (slice off sz bs)) = slice off sz bs"
  by (rule enc_dec) (rule length_slice_le)

lemma wf_slice_dec: "off + sz \<le> length bs \<Longrightarrow> ok (dec (slice off sz bs))"
  by (rule dec_wf) (rule length_slice_le)

lemmas pod_field = enc_length dec_enc enc_dec dec_wf enc_slice_dec wf_slice_dec

end

section \<open>Fixed-size arrays\<close>

definition enc_arr :: "('a \<Rightarrow> bytes) \<Rightarrow> 'a list \<Rightarrow> bytes" where
  "enc_arr enc xs = concat (map enc xs)"

definition dec_arr :: "nat \<Rightarrow> (bytes \<Rightarrow> 'a) \<Rightarrow> nat \<Rightarrow> bytes \<Rightarrow> 'a list" where
  "dec_arr sz dec n bs = map (\<lambda>i. dec (slice (i * sz) sz bs)) [0..<n]"

definition wf_arr :: "('a \<Rightarrow> bool) \<Rightarrow> nat \<Rightarrow> 'a list \<Rightarrow> bool" where
  "wf_arr ok n xs \<longleftrightarrow> length xs = n \<and> list_all ok xs"

lemma length_dec_arr [simp]: "length (dec_arr sz dec n bs) = n"
  by (simp add: dec_arr_def)

lemma nth_dec_arr: "i < n \<Longrightarrow> dec_arr sz dec n bs ! i = dec (slice (i * sz) sz bs)"
  by (simp add: dec_arr_def)

lemma dec_arr_Suc:
  "dec_arr sz dec (Suc n) bs = dec (slice 0 sz bs) # dec_arr sz dec n (drop sz bs)"
proof -
  have "[0..<Suc n] = 0 # map Suc [0..<n]"
    by (simp add: map_Suc_upt upt_conv_Cons)
  then show ?thesis
    by (simp add: dec_arr_def slice_def ac_simps)
qed

context pod
begin

lemma length_enc_arr: "list_all ok xs \<Longrightarrow> length (enc_arr enc xs) = length xs * sz"
  by (induction xs) (auto simp: enc_arr_def enc_length)

lemma dec_arr_enc_arr: "list_all ok xs \<Longrightarrow> dec_arr sz dec (length xs) (enc_arr enc xs) = xs"
proof (induction xs)
  case Nil
  then show ?case by (simp add: dec_arr_def)
next
  case (Cons x xs)
  then have "length (enc x) = sz" and "dec (enc x) = x"
    by (auto simp: enc_length dec_enc)
  with Cons show ?case
    by (simp add: dec_arr_Suc enc_arr_def slice_here)
qed

lemma enc_arr_dec_arr: "length bs = n * sz \<Longrightarrow> enc_arr enc (dec_arr sz dec n bs) = bs"
proof (induction n arbitrary: bs)
  case 0
  then show ?case by (simp add: dec_arr_def enc_arr_def)
next
  case (Suc n)
  then have "enc_arr enc (dec_arr sz dec n (drop sz bs)) = drop sz bs"
    by simp
  moreover have "enc (dec (slice 0 sz bs)) = take sz bs"
    using Suc.prems by (simp add: enc_slice_dec flip: slice_eq_takeI)
  ultimately show ?case
    by (simp add: dec_arr_Suc enc_arr_def)
qed

lemma wf_dec_arr: "length bs = n * sz \<Longrightarrow> list_all ok (dec_arr sz dec n bs)"
proof (induction n arbitrary: bs)
  case 0
  then show ?case by (simp add: dec_arr_def)
next
  case (Suc n)
  then show ?case
    by (simp add: dec_arr_Suc wf_slice_dec)
qed

lemma array_pod: "m = n * sz \<Longrightarrow> pod m (wf_arr ok n) (enc_arr enc) (dec_arr sz dec n)"
  by unfold_locales
    (auto simp: wf_arr_def length_enc_arr dec_arr_enc_arr enc_arr_dec_arr wf_dec_arr)

end

section \<open>Little-endian integers\<close>

fun le_bytes :: "nat \<Rightarrow> nat \<Rightarrow> bytes" where
  "le_bytes 0 n = []"
| "le_bytes (Suc k) n = of_nat (n mod 256) # le_bytes k (n div 256)"

fun le_nat :: "bytes \<Rightarrow> nat" where
  "le_nat [] = 0"
| "le_nat (b # bs) = unat b + 256 * le_nat bs"

lemma length_le_bytes [simp]: "length (le_bytes k n) = k"
  by (induction k arbitrary: n) auto

lemma u8_bound: "unat (b :: u8) < 256"
  using unsigned_less [of b] by simp

lemma le_nat_bound: "le_nat bs < 256 ^ length bs"
proof (induction bs)
  case Nil
  then show ?case by simp
next
  case (Cons b bs)
  have "unat b + 256 * le_nat bs < 256 * Suc (le_nat bs)"
    using u8_bound [of b] by simp
  also have "\<dots> \<le> 256 * 256 ^ length bs"
    using Cons.IH by (intro mult_le_mono) auto
  finally show ?case by simp
qed

lemma le_nat_le_bytes: "n < 256 ^ k \<Longrightarrow> le_nat (le_bytes k n) = n"
proof (induction k arbitrary: n)
  case 0
  then show ?case by simp
next
  case (Suc k)
  then have "n div 256 < 256 ^ k"
    by (simp add: less_mult_imp_div_less mult.commute)
  with Suc.IH show ?case
    by (simp add: unat_of_nat)
qed

lemma le_bytes_le_nat: "le_bytes (length bs) (le_nat bs) = bs"
proof (induction bs)
  case Nil
  then show ?case by simp
next
  case (Cons b bs)
  then show ?case
    using u8_bound [of b] by simp
qed

lemma le_nat_replicate_0 [simp]: "le_nat (replicate n 0) = 0"
  by (induction n) auto

text \<open>\<open>to_le_bytes\<close> and \<open>from_le_bytes\<close> of the standard library's unsigned integers.\<close>

definition to_le :: "nat \<Rightarrow> 'a::len word \<Rightarrow> bytes" where
  "to_le k w = le_bytes k (unat w)"

definition of_le :: "bytes \<Rightarrow> 'a::len word" where
  "of_le bs = of_nat (le_nat bs)"

lemma of_le_to_le: "LENGTH('a) = 8 * k \<Longrightarrow> of_le (to_le k (w :: 'a::len word)) = w"
  using unsigned_less [of w, where ?'a = nat]
  by (simp add: of_le_def to_le_def le_nat_le_bytes power_mult)

lemma unat_of_le: "LENGTH('a) = 8 * length bs \<Longrightarrow> unat (of_le bs :: 'a::len word) = le_nat bs"
  using le_nat_bound [of bs] by (simp add: of_le_def unat_of_nat power_mult)

lemma to_le_of_le: "LENGTH('a) = 8 * k \<Longrightarrow> length bs = k \<Longrightarrow> to_le k (of_le bs :: 'a::len word) = bs"
  using le_bytes_le_nat [of bs] by (simp add: to_le_def unat_of_le)

abbreviation anything :: "'a \<Rightarrow> bool" where
  "anything \<equiv> \<lambda>_. True"

lemma le_pod: "LENGTH('a) = 8 * k \<Longrightarrow> pod k anything (to_le k :: 'a::len word \<Rightarrow> bytes) of_le"
  by unfold_locales (auto simp: of_le_to_le to_le_of_le, simp add: to_le_def)

lemma of_le_replicate_0 [simp]: "of_le (replicate n 0) = 0"
  by (simp add: of_le_def)

interpretation p8: pod 1 anything "to_le 1 :: u8 \<Rightarrow> bytes" of_le by (rule le_pod) simp
interpretation p16: pod 2 anything "to_le 2 :: u16 \<Rightarrow> bytes" of_le by (rule le_pod) simp
interpretation p32: pod 4 anything "to_le 4 :: u32 \<Rightarrow> bytes" of_le by (rule le_pod) simp
interpretation p64: pod 8 anything "to_le 8 :: u64 \<Rightarrow> bytes" of_le by (rule le_pod) simp

section \<open>Byte arrays, public keys and \<open>PodU128\<close>\<close>

definition wf_bytes :: "nat \<Rightarrow> bytes \<Rightarrow> bool" where
  "wf_bytes n bs \<longleftrightarrow> length bs = n"

lemma bytes_pod: "pod n (wf_bytes n) (\<lambda>bs. bs) (\<lambda>bs. bs)"
  by unfold_locales (auto simp: wf_bytes_def)

interpretation pkey: pod 32 "wf_bytes 32" "\<lambda>bs. bs" "\<lambda>bs. bs" by (rule bytes_pod)

text \<open>\<open>Pubkey::default()\<close> of \<open>solana-pubkey\<close>: 32 zero bytes.\<close>

definition default_pubkey :: pubkey where
  "default_pubkey = replicate 32 0"

text \<open>
  \<open>PodU128\<close> wraps the 16 bytes so that the struct has byte alignment; the two \<open>From\<close>
  implementations convert to and from \<open>u128\<close>.
\<close>

datatype pod_u128 = PodU128 (pod_bytes: bytes)

definition pod_of_u128 :: "u128 \<Rightarrow> pod_u128" where
  "pod_of_u128 n = PodU128 (to_le 16 n)"

definition u128_of_pod :: "pod_u128 \<Rightarrow> u128" where
  "u128_of_pod p = of_le (pod_bytes p)"

definition wf_pod_u128 :: "pod_u128 \<Rightarrow> bool" where
  "wf_pod_u128 p \<longleftrightarrow> length (pod_bytes p) = 16"

interpretation pu128: pod 16 wf_pod_u128 pod_bytes PodU128
  by unfold_locales (auto simp: wf_pod_u128_def)

lemma u128_of_pod_of_u128: "u128_of_pod (pod_of_u128 n) = n"
  by (simp add: u128_of_pod_def pod_of_u128_def of_le_to_le)

lemma pod_of_u128_of_pod: "wf_pod_u128 p \<Longrightarrow> pod_of_u128 (u128_of_pod p) = p"
  by (cases p) (simp add: u128_of_pod_def pod_of_u128_def to_le_of_le wf_pod_u128_def)

section \<open>Structs\<close>

text \<open>
  The rules with which a struct is taken apart into its field windows and put together
  again: an interpretation's proof is one call of the simplifier over them.
\<close>

declare p8.pod_field [pod_simps] p16.pod_field [pod_simps] p32.pod_field [pod_simps]
  p64.pod_field [pod_simps] pu128.pod_field [pod_simps]

lemma length_to_le [simp]: "length (to_le k w) = k"
  by (simp add: to_le_def)

end
