(* ===== verification/Schema.thy ===== *)
theory Schema
  imports Pod
begin

text \<open>
  The table shapes and the account classification of \<open>src/schema.rs\<close>: the candidate
  account names and their discriminators, \<open>AccountKind\<close> with its total classification and
  its label, and the row structs of every table. SHA-256 comes from the \<open>sha2\<close> crate, so it
  is the parameter \<open>digest\<close> here.
\<close>

section \<open>Discriminators\<close>

definition ascii :: "string \<Rightarrow> bytes" where
  "ascii s = map of_char s"

definition CANDIDATE_ACCOUNTS :: "string list" where [const_defs]:
  "CANDIDATE_ACCOUNTS =
     [''Reserve'', ''Obligation'', ''LendingMarket'', ''ReferrerTokenState'', ''UserMetadata'',
      ''ReferrerState'', ''ShortUrl'', ''GlobalConfig'']"

text \<open>
  \<open>DISCRIMINATORS\<close> collects \<open>(discriminator, name)\<close> pairs into a \<open>HashMap\<close>: on equal keys the
  later pair wins, which the reversed association list says.
\<close>

definition DISCRIMINATORS :: "(bytes \<Rightarrow> bytes) \<Rightarrow> bytes \<rightharpoonup> string" where
  "DISCRIMINATORS digest =
     map_of (rev (map (\<lambda>name. (take 8 (digest (ascii (''account:'' @ name))), name))
                   CANDIDATE_ACCOUNTS))"

definition OBLIGATION_DISC :: bytes where [const_defs]:
  "OBLIGATION_DISC = [0xa8, 0xce, 0x8d, 0x6a, 0x58, 0x4c, 0xac, 0xa7]"

definition RESERVE_DISC :: bytes where [const_defs]:
  "RESERVE_DISC = [0x2b, 0xf2, 0xcc, 0xca, 0x1a, 0xf7, 0x3b, 0x7f]"

definition LENDING_MARKET_DISC :: bytes where [const_defs]:
  "LENDING_MARKET_DISC = [0xf6, 0x72, 0x32, 0x62, 0x48, 0x9d, 0x1c, 0x78]"

definition STREAM :: string where
  "STREAM = ''klend''"

definition KLEND_PROGRAM :: string where
  "KLEND_PROGRAM = ''KLend2g3cP87fffoy8q1mQqGKjrxjC8boSyAYavgmjD''"

section \<open>\<open>AccountKind\<close>\<close>

datatype account_kind = Known string | Unknown bytes | Untagged nat

definition account_kind_from :: "(bytes \<Rightarrow> bytes) \<Rightarrow> bytes \<Rightarrow> account_kind" where
  "account_kind_from digest data =
     (if length data < 8 then Untagged (length data)
      else case DISCRIMINATORS digest (take 8 data) of
             Some name \<Rightarrow> Known name
           | None \<Rightarrow> Unknown (take 8 data))"

definition hex8 :: "bytes \<Rightarrow> string" where
  "hex8 bs = fold (\<lambda>b s. s @ hex_byte b) bs []"

text \<open>The text \<open>Display\<close> pads; it is also what is stored in the \<open>kind\<close> column.\<close>

fun kind_text :: "account_kind \<Rightarrow> string" where
  "kind_text (Known name) = name"
| "kind_text (Unknown disc) = ''unknown:'' @ hex8 disc"
| "kind_text (Untagged len) = ''untagged:'' @ decimal len @ ''b''"

text \<open>The kinds classification can produce.\<close>

definition wf_kind :: "account_kind \<Rightarrow> bool" where
  "wf_kind k = (case k of Known name \<Rightarrow> name \<in> set CANDIDATE_ACCOUNTS
                        | Unknown disc \<Rightarrow> length disc = 8
                        | Untagged len \<Rightarrow> len < 8)"

lemma DISCRIMINATORS_name: "DISCRIMINATORS digest d = Some name \<Longrightarrow> name \<in> set CANDIDATE_ACCOUNTS"
  by (auto simp: DISCRIMINATORS_def dest: map_of_SomeD)

lemma account_kind_from_wf: "wf_kind (account_kind_from digest data)"
  by (auto simp: account_kind_from_def wf_kind_def split: option.splits dest: DISCRIMINATORS_name)

lemma account_kind_from_prefix:
  assumes "8 \<le> length data" and "take 8 data' = take 8 data"
  shows "account_kind_from digest data' = account_kind_from digest data"
proof -
  have "min (length data') 8 = min (length data) 8"
    using arg_cong [OF assms(2), of length] by simp
  then have "8 \<le> length data'"
    using assms(1) by linarith
  then show ?thesis
    using assms unfolding account_kind_from_def assms(2) by simp
qed

lemma hex8_concat: "hex8 bs = concat (map hex_byte bs)"
proof -
  have "fold (\<lambda>b s. s @ hex_byte b) bs acc = acc @ concat (map hex_byte bs)" for acc
    by (induction bs arbitrary: acc) auto
  from this [of "[]"] show ?thesis by (simp add: hex8_def)
qed

lemma length_hex8 [simp]: "length (hex8 bs) = 2 * length bs"
  by (simp add: hex8_concat length_concat_map_const)

lemma hex8_inj: "hex8 a = hex8 b \<Longrightarrow> a = b"
  unfolding hex8_concat
  by (rule concat_map_inj [where f = hex_byte and w = 2])
    (auto simp: hex_byte_def intro: hex_byte_inj [unfolded hex_byte_def])

lemma known_text_starts:
  "name \<in> set CANDIDATE_ACCOUNTS \<Longrightarrow> name \<noteq> CHR ''u'' # s"
  by (auto simp: const_defs)

section \<open>Rows\<close>

record account_update_row =
  au_slot :: u64
  au_write_version :: u64
  au_pubkey :: bytes
  au_kind :: string
  au_owner :: bytes
  au_lamports :: u64
  au_data :: bytes

record checkpoint_row =
  ck_stream :: string
  ck_last_slot :: u64
  ck_last_write_version :: u64

record gap_row =
  gp_stream :: string
  gp_start_slot :: u64
  gp_end_slot :: u64
  gp_reason :: string

record obligation_snapshot_row =
  os_slot :: u64
  os_write_version :: u64
  os_pubkey :: bytes
  os_owner :: bytes
  os_lending_market :: bytes
  os_num_deposits :: u8
  os_num_borrows :: u8
  os_health_factor_bps :: u64
  os_flags :: u8
  os_elevation_group :: u8
  os_referrer :: bytes
  os_deposited_value_sf :: u128
  os_borrowed_value_sf :: u128
  os_borrow_factor_adjusted_debt_sf :: u128
  os_allowed_borrow_value_sf :: u128
  os_unhealthy_borrow_value_sf :: u128
  os_lowest_deposit_liquidation_ltv :: u64

record reserve_snapshot_row =
  sr_slot :: u64
  sr_write_version :: u64
  sr_pubkey :: bytes
  sr_lending_market :: bytes
  sr_liquidity_mint :: bytes
  sr_supply_vault :: bytes
  sr_fee_vault :: bytes
  sr_available_amount :: u64
  sr_borrowed_amount_sf :: u128
  sr_market_price_sf :: u128
  sr_mint_decimals :: u64
  sr_acc_protocol_fees_sf :: u128
  sr_acc_referrer_fees_sf :: u128

record lending_market_snapshot_row =
  ml_slot :: u64
  ml_write_version :: u64
  ml_pubkey :: bytes
  ml_owner :: bytes
  ml_quote_currency :: bytes
  ml_flags :: u8
  ml_referral_fee_bps :: u16
  ml_liquidation_max_debt_close_factor_pct :: u8
  ml_name :: bytes

end
