(* ===== verification/Store.thy ===== *)
theory Store
  imports Schema "HOL-Library.Sublist"
begin

text \<open>
  The ClickHouse side as the program uses it: append-only tables and one operation,
  \<open>Client::insert_native_block\<close>. ClickHouse and its client are not part of the repository,
  so what the \<open>n\<close>th insert of a run does is the parameter \<open>ins n\<close>: acknowledged with every
  row stored, rejected with an arbitrary part of the block stored, or never acknowledged
  with an arbitrary part stored (the half-open connection of the comments in
  \<open>src/main.rs\<close>). Nothing else is assumed of the service, so every statement below holds
  against partial writes and lost acknowledgements.

  The locale \<open>table\<close> is the interface of one table; the writer's flush and the snapshot's
  chunked insert are proved against it and it is interpreted for all seven tables.
\<close>

section \<open>The store\<close>

record snapshot_run_row =
  sn_slot :: u64
  sn_scope :: string
  sn_accounts :: u64
  sn_rows_written :: u64
  sn_decode_failures :: u64
  sn_duration_ms :: u64

record db =
  t_updates :: "account_update_row list"
  t_obligations :: "obligation_snapshot_row list"
  t_reserves :: "reserve_snapshot_row list"
  t_markets :: "lending_market_snapshot_row list"
  t_checkpoint :: "checkpoint_row list"
  t_gaps :: "gap_row list"
  t_runs :: "snapshot_run_row list"
  op_count :: nat

datatype ins_outcome = Acked | Rejected "nat \<Rightarrow> bool" | Unacked "nat \<Rightarrow> bool"

type_synonym inserter = "nat \<Rightarrow> ins_outcome"

text \<open>The rows of a block that were stored, by position.\<close>

definition landed :: "(nat \<Rightarrow> bool) \<Rightarrow> 'r list \<Rightarrow> 'r list" where
  "landed keep rows = map snd (filter (\<lambda>(i, r). keep i) (enumerate 0 rows))"

definition insert_block ::
  "(('r list \<Rightarrow> 'r list) \<Rightarrow> db \<Rightarrow> db) \<Rightarrow> inserter \<Rightarrow> 'r list \<Rightarrow> db \<Rightarrow> db \<times> unit outcome" where
  "insert_block upd ins rows db =
     (let db' = db\<lparr>op_count := Suc (op_count db)\<rparr> in
      case ins (op_count db) of
        Acked \<Rightarrow> (upd (\<lambda>t. t @ rows) db', Done ())
      | Rejected keep \<Rightarrow> (upd (\<lambda>t. t @ landed keep rows) db', Fail ''insert'')
      | Unacked keep \<Rightarrow> (upd (\<lambda>t. t @ landed keep rows) db', Hang))"

text \<open>
  \<open>tokio::time::timeout\<close> around an insert: an insert that is never acknowledged becomes an
  error when the timeout elapses.
\<close>

definition with_timeout :: "string \<Rightarrow> db \<times> unit outcome \<Rightarrow> db \<times> unit outcome" where
  "with_timeout msg r = (case r of (db, Hang) \<Rightarrow> (db, Fail msg) | (db, res) \<Rightarrow> (db, res))"

lemma set_landed: "set (landed keep rows) \<subseteq> set rows"
  by (auto simp: landed_def in_set_enumerate_eq)

lemma landed_all [simp]: "landed (\<lambda>_. True) rows = rows"
  by (simp add: landed_def)

lemma landed_none [simp]: "landed (\<lambda>_. False) rows = []"
  by (simp add: landed_def)

lemma with_timeout_not_hang [simp]: "snd (with_timeout msg r) \<noteq> Hang"
  by (cases r) (auto simp: with_timeout_def split: outcome.splits)

lemma with_timeout_fst [simp]: "fst (with_timeout msg r) = fst r"
  by (cases r) (auto simp: with_timeout_def split: outcome.splits)

lemma with_timeout_Done [simp]: "snd (with_timeout msg r) = Done u \<longleftrightarrow> snd r = Done u"
  by (cases r) (auto simp: with_timeout_def split: outcome.splits)

section \<open>The interface of a table\<close>

locale table =
  fixes get :: "db \<Rightarrow> 'r list" and upd :: "('r list \<Rightarrow> 'r list) \<Rightarrow> db \<Rightarrow> db"
  assumes get_upd: "get (upd f db) = f (get db)"
    and get_op: "get (op_count_update g db) = get db"
    and op_upd: "op_count (upd f db) = op_count db"
begin

lemma insert_Done:
  "insert_block upd ins rows db = (db', Done u) \<Longrightarrow> get db' = get db @ rows"
  by (auto simp: insert_block_def Let_def get_upd get_op split: ins_outcome.splits)

lemma insert_Done_db:
  "insert_block upd ins rows db = (db', Done u) \<Longrightarrow>
     db' = upd (\<lambda>t. t @ rows) (db\<lparr>op_count := Suc (op_count db)\<rparr>)"
  by (auto simp: insert_block_def Let_def split: ins_outcome.splits)

lemma insert_any:
  "insert_block upd ins rows db = (db', res) \<Longrightarrow>
     \<exists>part. get db' = get db @ part \<and> set part \<subseteq> set rows"
  by (auto simp: insert_block_def Let_def get_upd get_op set_landed dest: subsetD [OF set_landed]
      split: ins_outcome.splits)

lemma insert_op: "op_count (fst (insert_block upd ins rows db)) = Suc (op_count db)"
  by (auto simp: insert_block_def Let_def op_upd split: ins_outcome.splits)

lemma insert_timeout_Done:
  "with_timeout msg (insert_block upd ins rows db) = (db', Done u) \<Longrightarrow> get db' = get db @ rows"
  by (rule insert_Done [of ins rows db db' u])
    (auto simp: with_timeout_def split: prod.splits outcome.splits)

lemma insert_timeout_any:
  "with_timeout msg (insert_block upd ins rows db) = (db', res) \<Longrightarrow>
     \<exists>part. get db' = get db @ part \<and> set part \<subseteq> set rows"
  by (cases "insert_block upd ins rows db")
    (auto simp: with_timeout_def split: outcome.splits dest: insert_any)

end

text \<open>Any table another insert does not touch stays as it is.\<close>

lemma insert_block_frame:
  assumes "\<And>f db. other (upd f db) = other db" and "\<And>g db. other (op_count_update g db) = other db"
  shows "other (fst (insert_block upd ins rows db)) = other db"
  using assms by (auto simp: insert_block_def Let_def split: ins_outcome.splits)

interpretation updates: table t_updates t_updates_update by unfold_locales simp_all
interpretation obligations: table t_obligations t_obligations_update by unfold_locales simp_all
interpretation reserves: table t_reserves t_reserves_update by unfold_locales simp_all
interpretation markets: table t_markets t_markets_update by unfold_locales simp_all
interpretation checkpoints: table t_checkpoint t_checkpoint_update by unfold_locales simp_all
interpretation gaps: table t_gaps t_gaps_update by unfold_locales simp_all
interpretation runs: table t_runs t_runs_update by unfold_locales simp_all

text \<open>Frames: an insert into one table leaves the six others alone.\<close>

named_theorems frame_simps \<open>tables an insert does not touch\<close>

lemma insert_updates_frame [frame_simps]:
  "t_obligations (fst (insert_block t_updates_update ins rows db)) = t_obligations db"
  "t_reserves (fst (insert_block t_updates_update ins rows db)) = t_reserves db"
  "t_markets (fst (insert_block t_updates_update ins rows db)) = t_markets db"
  "t_checkpoint (fst (insert_block t_updates_update ins rows db)) = t_checkpoint db"
  "t_gaps (fst (insert_block t_updates_update ins rows db)) = t_gaps db"
  "t_runs (fst (insert_block t_updates_update ins rows db)) = t_runs db"
  by (rule insert_block_frame; simp)+

lemma insert_obligations_frame [frame_simps]:
  "t_updates (fst (insert_block t_obligations_update ins rows db)) = t_updates db"
  "t_reserves (fst (insert_block t_obligations_update ins rows db)) = t_reserves db"
  "t_markets (fst (insert_block t_obligations_update ins rows db)) = t_markets db"
  "t_checkpoint (fst (insert_block t_obligations_update ins rows db)) = t_checkpoint db"
  "t_gaps (fst (insert_block t_obligations_update ins rows db)) = t_gaps db"
  "t_runs (fst (insert_block t_obligations_update ins rows db)) = t_runs db"
  by (rule insert_block_frame; simp)+

lemma insert_reserves_frame [frame_simps]:
  "t_updates (fst (insert_block t_reserves_update ins rows db)) = t_updates db"
  "t_obligations (fst (insert_block t_reserves_update ins rows db)) = t_obligations db"
  "t_markets (fst (insert_block t_reserves_update ins rows db)) = t_markets db"
  "t_checkpoint (fst (insert_block t_reserves_update ins rows db)) = t_checkpoint db"
  "t_gaps (fst (insert_block t_reserves_update ins rows db)) = t_gaps db"
  "t_runs (fst (insert_block t_reserves_update ins rows db)) = t_runs db"
  by (rule insert_block_frame; simp)+

lemma insert_markets_frame [frame_simps]:
  "t_updates (fst (insert_block t_markets_update ins rows db)) = t_updates db"
  "t_obligations (fst (insert_block t_markets_update ins rows db)) = t_obligations db"
  "t_reserves (fst (insert_block t_markets_update ins rows db)) = t_reserves db"
  "t_checkpoint (fst (insert_block t_markets_update ins rows db)) = t_checkpoint db"
  "t_gaps (fst (insert_block t_markets_update ins rows db)) = t_gaps db"
  "t_runs (fst (insert_block t_markets_update ins rows db)) = t_runs db"
  by (rule insert_block_frame; simp)+

lemma insert_checkpoint_frame [frame_simps]:
  "t_updates (fst (insert_block t_checkpoint_update ins rows db)) = t_updates db"
  "t_obligations (fst (insert_block t_checkpoint_update ins rows db)) = t_obligations db"
  "t_reserves (fst (insert_block t_checkpoint_update ins rows db)) = t_reserves db"
  "t_markets (fst (insert_block t_checkpoint_update ins rows db)) = t_markets db"
  "t_gaps (fst (insert_block t_checkpoint_update ins rows db)) = t_gaps db"
  "t_runs (fst (insert_block t_checkpoint_update ins rows db)) = t_runs db"
  by (rule insert_block_frame; simp)+

lemma insert_gaps_frame [frame_simps]:
  "t_updates (fst (insert_block t_gaps_update ins rows db)) = t_updates db"
  "t_obligations (fst (insert_block t_gaps_update ins rows db)) = t_obligations db"
  "t_reserves (fst (insert_block t_gaps_update ins rows db)) = t_reserves db"
  "t_markets (fst (insert_block t_gaps_update ins rows db)) = t_markets db"
  "t_checkpoint (fst (insert_block t_gaps_update ins rows db)) = t_checkpoint db"
  "t_runs (fst (insert_block t_gaps_update ins rows db)) = t_runs db"
  by (rule insert_block_frame; simp)+

lemma insert_runs_frame [frame_simps]:
  "t_updates (fst (insert_block t_runs_update ins rows db)) = t_updates db"
  "t_obligations (fst (insert_block t_runs_update ins rows db)) = t_obligations db"
  "t_reserves (fst (insert_block t_runs_update ins rows db)) = t_reserves db"
  "t_markets (fst (insert_block t_runs_update ins rows db)) = t_markets db"
  "t_checkpoint (fst (insert_block t_runs_update ins rows db)) = t_checkpoint db"
  "t_gaps (fst (insert_block t_runs_update ins rows db)) = t_gaps db"
  by (rule insert_block_frame; simp)+

definition empty_db :: db where
  "empty_db = \<lparr>t_updates = [], t_obligations = [], t_reserves = [], t_markets = [],
     t_checkpoint = [], t_gaps = [], t_runs = [], op_count = 0\<rparr>"


section \<open>Sequencing\<close>

text \<open>\<open>?\<close> after an awaited call: go on with the store it left, or return its error.\<close>

definition and_then :: "'s \<times> unit outcome \<Rightarrow> ('s \<Rightarrow> 's \<times> unit outcome) \<Rightarrow> 's \<times> unit outcome" where
  "and_then r k = (case r of (s, Done _) \<Rightarrow> k s | (s, Fail e) \<Rightarrow> (s, Fail e) | (s, Hang) \<Rightarrow> (s, Hang))"

lemma fst_and_then: "fst (and_then r k) = (if snd r = Done () then fst (k (fst r)) else fst r)"
  by (cases r) (auto simp: and_then_def split: outcome.splits)

lemma snd_and_then: "snd (and_then r k) = (if snd r = Done () then snd (k (fst r)) else snd r)"
  by (cases r) (auto simp: and_then_def split: outcome.splits)

lemma and_then_Done: "snd (and_then r k) = Done () \<longleftrightarrow> snd r = Done () \<and> snd (k (fst r)) = Done ()"
  by (simp add: snd_and_then)

lemma outcome_unit_cases:
  "(P (Done ()) :: bool) \<Longrightarrow> (\<And>e. P (Fail e)) \<Longrightarrow> P Hang \<Longrightarrow> P r"
  by (cases r) auto

end
