(* ===== verification/Writer.thy ===== *)
theory Writer
  imports Store
begin

text \<open>
  The buffered writer of \<open>src/main.rs\<close>: its four buffers, the pushes, \<open>record_gap\<close>, and
  \<open>flush\<close>, which writes the data tables first and the checkpoint last. The ClickHouse
  client of the struct is the store \<open>db\<close> that every operation takes and returns.
\<close>

definition BATCH_MAX_ROWS :: nat where [const_defs]:
  "BATCH_MAX_ROWS = 4096"

record writer =
  w_buf :: "account_update_row list"
  w_snap_buf :: "obligation_snapshot_row list"
  w_reserve_buf :: "reserve_snapshot_row list"
  w_lm_buf :: "lending_market_snapshot_row list"

definition writer_new :: writer where
  "writer_new = \<lparr>w_buf = [], w_snap_buf = [], w_reserve_buf = [], w_lm_buf = []\<rparr>"

definition push_snapshot :: "obligation_snapshot_row \<Rightarrow> writer \<Rightarrow> writer" where
  "push_snapshot row w = w\<lparr>w_snap_buf := w_snap_buf w @ [row]\<rparr>"

definition push_reserve_snapshot :: "reserve_snapshot_row \<Rightarrow> writer \<Rightarrow> writer" where
  "push_reserve_snapshot row w = w\<lparr>w_reserve_buf := w_reserve_buf w @ [row]\<rparr>"

definition push_lm_snapshot :: "lending_market_snapshot_row \<Rightarrow> writer \<Rightarrow> writer" where
  "push_lm_snapshot row w = w\<lparr>w_lm_buf := w_lm_buf w @ [row]\<rparr>"

definition push_update :: "account_update_row \<Rightarrow> writer \<Rightarrow> writer" where
  "push_update row w = w\<lparr>w_buf := w_buf w @ [row]\<rparr>"

text \<open>\<open>record_gap\<close> awaits its insert directly, with no timeout around it.\<close>

definition record_gap :: "inserter \<Rightarrow> string \<Rightarrow> u64 \<Rightarrow> u64 \<Rightarrow> string \<Rightarrow> db \<Rightarrow> db \<times> unit outcome" where
  "record_gap ins stream start_slot end_slot reason db =
     insert_block t_gaps_update ins
       [\<lparr>gp_stream = stream, gp_start_slot = start_slot, gp_end_slot = end_slot, gp_reason = reason\<rparr>] db"

definition writer_is_empty :: "writer \<Rightarrow> bool" where
  "writer_is_empty w \<longleftrightarrow> w_buf w = [] \<and> w_snap_buf w = [] \<and> w_reserve_buf w = [] \<and> w_lm_buf w = []"

text \<open>
  The high-water mark, read from the first non-empty buffer. \<open>last\<close> is only reached on a
  non-empty list when the writer is not empty, as the \<open>unwrap\<close>s of the source are.
\<close>

definition high_water :: "writer \<Rightarrow> u64 \<times> u64" where
  "high_water w =
     (let slot = (if w_buf w \<noteq> [] then au_slot (last (w_buf w))
                  else if w_snap_buf w \<noteq> [] then os_slot (last (w_snap_buf w))
                  else if w_reserve_buf w \<noteq> [] then sr_slot (last (w_reserve_buf w))
                  else ml_slot (last (w_lm_buf w)));
          wv = (if w_buf w \<noteq> [] then au_write_version (last (w_buf w))
                else if w_snap_buf w \<noteq> [] then os_write_version (last (w_snap_buf w))
                else if w_reserve_buf w \<noteq> [] then sr_write_version (last (w_reserve_buf w))
                else ml_write_version (last (w_lm_buf w)))
      in (slot, wv))"

definition checkpoint_of :: "writer \<Rightarrow> checkpoint_row" where
  "checkpoint_of w =
     \<lparr>ck_stream = STREAM, ck_last_slot = fst (high_water w), ck_last_write_version = snd (high_water w)\<rparr>"

text \<open>A snapshot insert of \<open>flush\<close>, skipped when its batch is empty.\<close>

definition insert_nonempty ::
  "string \<Rightarrow> (('r list \<Rightarrow> 'r list) \<Rightarrow> db \<Rightarrow> db) \<Rightarrow> inserter \<Rightarrow> 'r list \<Rightarrow> db \<Rightarrow> db \<times> unit outcome" where
  "insert_nonempty msg upd ins rows db =
     (if rows = [] then (db, Done ()) else with_timeout msg (insert_block upd ins rows db))"

definition flush :: "inserter \<Rightarrow> writer \<Rightarrow> db \<Rightarrow> writer \<times> db \<times> unit outcome" where
  "flush ins w db =
     (if writer_is_empty w then (w, db, Done ())
      else let ckpt = checkpoint_of w;
          rows = w_buf w; snap_rows = w_snap_buf w;
          reserve_rows = w_reserve_buf w; lm_rows = w_lm_buf w
        in (writer_new,
            and_then (with_timeout ''insert account_updates batch timed out (connection likely half-open)''
                       (insert_block t_updates_update ins rows db)) (\<lambda>db.
            and_then (insert_nonempty ''insert obligation_snapshots batch timed out''
                       t_obligations_update ins snap_rows db) (\<lambda>db.
            and_then (insert_nonempty ''insert lending_market_snapshots batch timed out''
                       t_markets_update ins lm_rows db) (\<lambda>db.
            and_then (insert_nonempty ''insert reserve_snapshots batch timed out''
                       t_reserves_update ins reserve_rows db) (\<lambda>db.
            with_timeout ''advance ingest_checkpoint timed out (connection likely half-open)''
              (insert_block t_checkpoint_update ins [ckpt] db)))))))"

section \<open>Facts about the stages\<close>

lemma insert_nonempty_not_hang [simp]: "snd (insert_nonempty msg upd ins rows db) \<noteq> Hang"
  by (simp add: insert_nonempty_def)

lemma insert_nonempty_frame:
  assumes "other (fst (insert_block upd ins rows db)) = other db"
  shows "other (fst (insert_nonempty msg upd ins rows db)) = other db"
  using assms by (simp add: insert_nonempty_def)

lemma obligations_stage_frame [frame_simps]:
  "t_updates (fst (insert_nonempty msg t_obligations_update ins rows db)) = t_updates db"
  "t_markets (fst (insert_nonempty msg t_obligations_update ins rows db)) = t_markets db"
  "t_reserves (fst (insert_nonempty msg t_obligations_update ins rows db)) = t_reserves db"
  "t_checkpoint (fst (insert_nonempty msg t_obligations_update ins rows db)) = t_checkpoint db"
  "t_gaps (fst (insert_nonempty msg t_obligations_update ins rows db)) = t_gaps db"
  "t_runs (fst (insert_nonempty msg t_obligations_update ins rows db)) = t_runs db"
  by (simp_all add: insert_nonempty_def frame_simps)

lemma markets_stage_frame [frame_simps]:
  "t_updates (fst (insert_nonempty msg t_markets_update ins rows db)) = t_updates db"
  "t_obligations (fst (insert_nonempty msg t_markets_update ins rows db)) = t_obligations db"
  "t_reserves (fst (insert_nonempty msg t_markets_update ins rows db)) = t_reserves db"
  "t_checkpoint (fst (insert_nonempty msg t_markets_update ins rows db)) = t_checkpoint db"
  "t_gaps (fst (insert_nonempty msg t_markets_update ins rows db)) = t_gaps db"
  "t_runs (fst (insert_nonempty msg t_markets_update ins rows db)) = t_runs db"
  by (simp_all add: insert_nonempty_def frame_simps)

lemma reserves_stage_frame [frame_simps]:
  "t_updates (fst (insert_nonempty msg t_reserves_update ins rows db)) = t_updates db"
  "t_obligations (fst (insert_nonempty msg t_reserves_update ins rows db)) = t_obligations db"
  "t_markets (fst (insert_nonempty msg t_reserves_update ins rows db)) = t_markets db"
  "t_checkpoint (fst (insert_nonempty msg t_reserves_update ins rows db)) = t_checkpoint db"
  "t_gaps (fst (insert_nonempty msg t_reserves_update ins rows db)) = t_gaps db"
  "t_runs (fst (insert_nonempty msg t_reserves_update ins rows db)) = t_runs db"
  by (simp_all add: insert_nonempty_def frame_simps)

context table
begin

lemma stage_Done:
  "snd (insert_nonempty msg upd ins rows db) = Done () \<Longrightarrow>
     get (fst (insert_nonempty msg upd ins rows db)) = get db @ rows"
  by (cases "insert_block upd ins rows db") (auto simp: insert_nonempty_def dest: insert_Done)

lemma insert_Done_get:
  "snd (insert_block upd ins rows db) = Done () \<Longrightarrow> get (fst (insert_block upd ins rows db)) = get db @ rows"
  by (cases "insert_block upd ins rows db") (auto dest: insert_Done)

lemma insert_part:
  "\<exists>part. get (fst (insert_block upd ins rows db)) = get db @ part \<and> set part \<subseteq> set rows"
  by (cases "insert_block upd ins rows db") (auto dest: insert_any)

lemma stage_part:
  "get db = rs \<Longrightarrow> \<exists>part. get (fst (insert_nonempty msg upd ins rows db)) = rs @ part \<and> set part \<subseteq> set rows"
  using insert_part by (auto simp: insert_nonempty_def)

lemma insert_extends: "prefix (get db) (get (fst (insert_block upd ins rows db)))"
  using insert_part [of ins rows db] by (auto simp: prefix_def)

end

section \<open>What a flush does\<close>

lemma flush_empty: "writer_is_empty w \<Longrightarrow> flush ins w db = (w, db, Done ())"
  by (simp add: flush_def)

lemma flush_not_hang: "snd (snd (flush ins w db)) \<noteq> Hang"
  by (simp add: flush_def Let_def snd_and_then)

lemma flush_writer: "fst (flush ins w db) = writer_new"
  by (cases w) (auto simp: flush_def Let_def writer_is_empty_def writer_new_def)

lemma writer_new_empty [simp]: "writer_is_empty writer_new"
  by (simp add: writer_is_empty_def writer_new_def)

text \<open>A successful flush appends every buffer to its table and one checkpoint row.\<close>

lemma flush_Done:
  assumes "snd (snd (flush ins w db)) = Done ()" and "\<not> writer_is_empty w"
  defines "db' \<equiv> fst (snd (flush ins w db))"
  shows "t_updates db' = t_updates db @ w_buf w"
    and "t_obligations db' = t_obligations db @ w_snap_buf w"
    and "t_markets db' = t_markets db @ w_lm_buf w"
    and "t_reserves db' = t_reserves db @ w_reserve_buf w"
    and "t_checkpoint db' = t_checkpoint db @ [checkpoint_of w]"
  using assms
  by (auto simp: flush_def Let_def and_then_Done fst_and_then frame_simps
      updates.insert_Done_get checkpoints.insert_Done_get
      obligations.stage_Done markets.stage_Done reserves.stage_Done)

text \<open>
  Whatever happens, the raw table only gains rows of the buffer, and the checkpoint table
  either stays as it is or gains this flush's row, the latter only when all data is stored.
\<close>

lemma flush_updates_part:
  "\<exists>part. t_updates (fst (snd (flush ins w db))) = t_updates db @ part \<and> set part \<subseteq> set (w_buf w)"
  using updates.insert_part [of ins "w_buf w" db]
  by (auto simp: flush_def Let_def fst_and_then frame_simps)

text \<open>The rows of the four data tables, and those the writer holds for them, as one set each.\<close>

datatype data_row =
    Raw account_update_row
  | Obligation_Snapshot obligation_snapshot_row
  | Reserve_Snapshot reserve_snapshot_row
  | Market_Snapshot lending_market_snapshot_row

definition data_rows ::
  "account_update_row list \<Rightarrow> obligation_snapshot_row list \<Rightarrow> reserve_snapshot_row list
     \<Rightarrow> lending_market_snapshot_row list \<Rightarrow> data_row set" where
  "data_rows us os rs ms =
     Raw ` set us \<union> Obligation_Snapshot ` set os \<union> Reserve_Snapshot ` set rs \<union> Market_Snapshot ` set ms"

definition rows_in :: "db \<Rightarrow> data_row set" where
  "rows_in db = data_rows (t_updates db) (t_obligations db) (t_reserves db) (t_markets db)"

definition rows_held :: "writer \<Rightarrow> data_row set" where
  "rows_held w = data_rows (w_buf w) (w_snap_buf w) (w_reserve_buf w) (w_lm_buf w)"

lemma rows_held_empty: "writer_is_empty w \<Longrightarrow> rows_held w = {}"
  by (simp add: rows_held_def data_rows_def writer_is_empty_def)

lemma rows_held_new [simp]: "rows_held writer_new = {}"
  by (simp add: rows_held_empty)

lemma flush_snapshots_part:
  "\<exists>part. t_obligations (fst (snd (flush ins w db))) = t_obligations db @ part \<and> set part \<subseteq> set (w_snap_buf w)"
  "\<exists>part. t_reserves (fst (snd (flush ins w db))) = t_reserves db @ part \<and> set part \<subseteq> set (w_reserve_buf w)"
  "\<exists>part. t_markets (fst (snd (flush ins w db))) = t_markets db @ part \<and> set part \<subseteq> set (w_lm_buf w)"
  by (auto simp: flush_def Let_def fst_and_then frame_simps
      intro!: obligations.stage_part markets.stage_part reserves.stage_part)

text \<open>However a flush ends, the tables keep what they had and gain only rows of the buffers.\<close>

lemma flush_rows_part:
  "rows_in db \<subseteq> rows_in (fst (snd (flush ins w db)))"
  "rows_in (fst (snd (flush ins w db))) \<subseteq> rows_in db \<union> rows_held w"
proof -
  obtain us os rs ms where
    "t_updates (fst (snd (flush ins w db))) = t_updates db @ us" "set us \<subseteq> set (w_buf w)"
    "t_obligations (fst (snd (flush ins w db))) = t_obligations db @ os" "set os \<subseteq> set (w_snap_buf w)"
    "t_reserves (fst (snd (flush ins w db))) = t_reserves db @ rs" "set rs \<subseteq> set (w_reserve_buf w)"
    "t_markets (fst (snd (flush ins w db))) = t_markets db @ ms" "set ms \<subseteq> set (w_lm_buf w)"
    using flush_updates_part flush_snapshots_part by meson
  then show "rows_in db \<subseteq> rows_in (fst (snd (flush ins w db)))"
    and "rows_in (fst (snd (flush ins w db))) \<subseteq> rows_in db \<union> rows_held w"
    by (auto simp: rows_in_def rows_held_def data_rows_def)
qed

lemma flush_rows_Done:
  "snd (snd (flush ins w db)) = Done () \<Longrightarrow> rows_in (fst (snd (flush ins w db))) = rows_in db \<union> rows_held w"
  using flush_Done [of ins w db] rows_held_empty [of w]
  by (cases "writer_is_empty w") (auto simp: flush_empty rows_in_def rows_held_def data_rows_def)

definition lands :: "ins_outcome \<Rightarrow> bool" where
  "lands out = (case out of Acked \<Rightarrow> True | Rejected keep \<Rightarrow> keep 0 | Unacked keep \<Rightarrow> keep 0)"

lemma checkpoint_insert:
  "t_checkpoint (fst (insert_block t_checkpoint_update ins [row] db)) =
     t_checkpoint db @ (if lands (ins (op_count db)) then [row] else [])"
  by (auto simp: insert_block_def Let_def landed_def lands_def split: ins_outcome.splits)

lemma flush_checkpoint_cases:
  defines "flushed \<equiv> \<lambda>ins w db. fst (snd (flush ins w db))"
  shows "t_checkpoint (flushed ins w db) = t_checkpoint db
    \<or> \<not> writer_is_empty w
      \<and> t_checkpoint (flushed ins w db) = t_checkpoint db @ [checkpoint_of w]
      \<and> t_updates (flushed ins w db) = t_updates db @ w_buf w
      \<and> t_obligations (flushed ins w db) = t_obligations db @ w_snap_buf w
      \<and> t_markets (flushed ins w db) = t_markets db @ w_lm_buf w
      \<and> t_reserves (flushed ins w db) = t_reserves db @ w_reserve_buf w"
  unfolding flushed_def
  by (auto simp: flush_def Let_def and_then_Done fst_and_then frame_simps checkpoint_insert
      updates.insert_Done_get obligations.stage_Done markets.stage_Done reserves.stage_Done)

lemma flush_rows_checkpoint:
  "t_checkpoint (fst (snd (flush ins w db))) = t_checkpoint db
   \<or> \<not> writer_is_empty w
     \<and> t_checkpoint (fst (snd (flush ins w db))) = t_checkpoint db @ [checkpoint_of w]
     \<and> rows_in (fst (snd (flush ins w db))) = rows_in db \<union> rows_held w"
  using flush_checkpoint_cases [of ins w db] by (auto simp: rows_in_def rows_held_def data_rows_def)

lemma flush_other_tables:
  "t_gaps (fst (snd (flush ins w db))) = t_gaps db"
  "t_runs (fst (snd (flush ins w db))) = t_runs db"
  by (auto simp: flush_def Let_def fst_and_then frame_simps)

lemma record_gap_frame:
  "t_updates (fst (record_gap ins s a b r db)) = t_updates db"
  "t_checkpoint (fst (record_gap ins s a b r db)) = t_checkpoint db"
  "rows_in (fst (record_gap ins s a b r db)) = rows_in db"
  by (simp_all add: record_gap_def frame_simps rows_in_def)

lemma record_gap_cases:
  "t_gaps (fst (record_gap ins s a b r db)) = t_gaps db
   \<or> t_gaps (fst (record_gap ins s a b r db)) = t_gaps db @
        [\<lparr>gp_stream = s, gp_start_slot = a, gp_end_slot = b, gp_reason = r\<rparr>]"
  by (auto simp: record_gap_def insert_block_def Let_def landed_def split: ins_outcome.splits)

lemma high_water_updates:
  "w_buf w \<noteq> [] \<Longrightarrow> high_water w = (au_slot (last (w_buf w)), au_write_version (last (w_buf w)))"
  by (simp add: high_water_def)

lemma checkpoint_written:
  "checkpoint_of w =
     (let (slot, wv) =
        if w_buf w \<noteq> [] then (au_slot (last (w_buf w)), au_write_version (last (w_buf w)))
        else if w_snap_buf w \<noteq> [] then (os_slot (last (w_snap_buf w)), os_write_version (last (w_snap_buf w)))
        else if w_reserve_buf w \<noteq> [] then (sr_slot (last (w_reserve_buf w)), sr_write_version (last (w_reserve_buf w)))
        else (ml_slot (last (w_lm_buf w)), ml_write_version (last (w_lm_buf w)))
      in \<lparr>ck_stream = STREAM, ck_last_slot = slot, ck_last_write_version = wv\<rparr>)"
  by (simp add: checkpoint_of_def high_water_def)

section \<open>Properties\<close>

text \<open>
  C12 A flush of a non-empty writer whose inserts are acknowledged appends each buffer to
  its own table, appends exactly one checkpoint row, and leaves the writer empty. The checkpoint row is
  the stream's and carries the slot and write version of the last raw row; without a raw row, of the
  last obligation, reserve or market snapshot, the first of these that there is.
\<close>

theorem flush_commits:
  assumes "\<not> writer_is_empty w" and "\<forall>n. ins n = Acked"
  shows "flush ins w db =
    (writer_new,
     db\<lparr>t_updates := t_updates db @ w_buf w,
        t_obligations := t_obligations db @ w_snap_buf w,
        t_markets := t_markets db @ w_lm_buf w,
        t_reserves := t_reserves db @ w_reserve_buf w,
        t_checkpoint := t_checkpoint db @
          [let (slot, wv) =
             if w_buf w \<noteq> [] then (au_slot (last (w_buf w)), au_write_version (last (w_buf w)))
             else if w_snap_buf w \<noteq> [] then (os_slot (last (w_snap_buf w)), os_write_version (last (w_snap_buf w)))
             else if w_reserve_buf w \<noteq> [] then (sr_slot (last (w_reserve_buf w)), sr_write_version (last (w_reserve_buf w)))
             else (ml_slot (last (w_lm_buf w)), ml_write_version (last (w_lm_buf w)))
           in \<lparr>ck_stream = STREAM, ck_last_slot = slot, ck_last_write_version = wv\<rparr>],
        op_count := op_count db + 2 + (if w_snap_buf w = [] then 0 else 1)
          + (if w_lm_buf w = [] then 0 else 1) + (if w_reserve_buf w = [] then 0 else 1)\<rparr>,
     Done ())"
  using assms unfolding checkpoint_written [symmetric]
  by (cases db) (simp add: flush_def Let_def insert_nonempty_def insert_block_def with_timeout_def and_then_def)

definition sample_update :: "nat \<Rightarrow> nat \<Rightarrow> account_update_row" where
  "sample_update slot wv =
     \<lparr>au_slot = of_nat slot, au_write_version = of_nat wv, au_pubkey = [1], au_kind = ''untagged:0b'',
      au_owner = [2], au_lamports = 5, au_data = []\<rparr>"

definition sample_writer :: writer where
  "sample_writer = writer_new\<lparr>w_buf := [sample_update 7 1, sample_update 9 2]\<rparr>"

lemma sample_writer_nonempty: "\<not> writer_is_empty sample_writer"
  by (simp add: sample_writer_def writer_is_empty_def)

theorem flush_commits_witness:
  "t_checkpoint (fst (snd (flush (\<lambda>_. Acked) sample_writer empty_db))) =
     [\<lparr>ck_stream = ''klend'', ck_last_slot = 9, ck_last_write_version = 2\<rparr>]"
  by (subst flush_commits [OF sample_writer_nonempty])
    (simp_all add: sample_writer_def empty_db_def sample_update_def STREAM_def)

text \<open>
  C5 The checkpoint never gets ahead of its data: whatever each insert does (acknowledged,
  rejected or lost, with any part of its block stored), if a flush changes the checkpoint
  table at all then it added this flush's row and all four buffers are completely stored.
\<close>

theorem flush_checkpoint_never_ahead:
  assumes "t_checkpoint (fst (snd (flush ins w db))) \<noteq> t_checkpoint db"
  shows "t_checkpoint (fst (snd (flush ins w db))) = t_checkpoint db @ [checkpoint_of w]
    \<and> t_updates (fst (snd (flush ins w db))) = t_updates db @ w_buf w
    \<and> t_obligations (fst (snd (flush ins w db))) = t_obligations db @ w_snap_buf w
    \<and> t_markets (fst (snd (flush ins w db))) = t_markets db @ w_lm_buf w
    \<and> t_reserves (fst (snd (flush ins w db))) = t_reserves db @ w_reserve_buf w"
  using assms flush_checkpoint_cases [of ins w db] by auto

text \<open>The checkpoint insert itself is never acknowledged here, and its row is stored.\<close>

theorem flush_checkpoint_never_ahead_witness:
  "t_updates (fst (snd (flush (\<lambda>n. if n = 1 then Unacked (\<lambda>_. True) else Acked) sample_writer empty_db))) =
     w_buf sample_writer"
proof -
  let ?ins = "\<lambda>n. if n = (1 :: nat) then Unacked (\<lambda>_. True) else Acked"
  have "t_checkpoint (fst (snd (flush ?ins sample_writer empty_db))) \<noteq> t_checkpoint empty_db"
    by (simp add: flush_def Let_def insert_nonempty_def insert_block_def with_timeout_def and_then_def
        sample_writer_def writer_new_def empty_db_def writer_is_empty_def)
  from flush_checkpoint_never_ahead [OF this] show ?thesis
    by (simp add: empty_db_def)
qed

text \<open>
  A flush always returns: an insert that is never acknowledged becomes an error after the
  timeout, the writer is left empty, and a flush of an empty writer does not touch the store.
\<close>

lemma flush_returns:
  "snd (snd (flush ins w db)) \<noteq> Hang
   \<and> fst (flush ins w db) = writer_new
   \<and> (writer_is_empty w \<longrightarrow> snd (flush ins w db) = (db, Done ()))"
  by (simp add: flush_not_hang flush_writer flush_empty)

text \<open>
  Recording a gap has no such bound: the insert is awaited without a timeout, so an insert
  that is never acknowledged is a call that never returns.
\<close>

lemma record_gap_hangs:
  "snd (record_gap ins stream lo hi why db) = Hang \<longleftrightarrow> (\<exists>keep. ins (op_count db) = Unacked keep)"
  by (auto simp: record_gap_def insert_block_def Let_def split: ins_outcome.splits)

end
