(* ===== verification/State_Obligation.thy ===== *)
theory State_Obligation
  imports Pod
begin

text \<open>
  The obligation account and the structs it embeds
  (\<open>vendor/klend-interface/src/state/common.rs\<close> and \<open>obligation.rs\<close>): one record per
  \<open>#[repr(C)]\<close> struct with the source's fields in the source's order, its memory image
  \<open>enc_*\<close>, the cast back \<open>dec_*\<close> at explicit offsets, the field-width condition \<open>wf_*\<close>,
  and an interpretation of \<^const>\<open>pod\<close> at the struct's size. Field names carry a prefix
  per struct (\<open>ob_\<close> for \<open>Obligation\<close>), since HOL record fields share one name space.
\<close>

section \<open>\<open>LastUpdate\<close>\<close>

record last_update =
  lu_slot :: u64
  lu_stale :: u8
  lu_price_status :: u8
  lu_placeholder :: bytes

definition enc_last_update :: "last_update \<Rightarrow> bytes" where
  "enc_last_update x =
     to_le 8 (lu_slot x) @
     to_le 1 (lu_stale x) @
     to_le 1 (lu_price_status x) @
     lu_placeholder x"

definition dec_last_update :: "bytes \<Rightarrow> last_update" where
  "dec_last_update bs =
     \<lparr>lu_slot = of_le (slice 0 8 bs),
      lu_stale = of_le (slice 8 1 bs),
      lu_price_status = of_le (slice 9 1 bs),
      lu_placeholder = slice 10 6 bs\<rparr>"

definition wf_last_update :: "last_update \<Rightarrow> bool" where
  "wf_last_update x \<longleftrightarrow>
     wf_bytes 6 (lu_placeholder x)"

interpretation lu: pod 16 wf_last_update enc_last_update dec_last_update
  by unfold_locales
    (auto simp: wf_last_update_def enc_last_update_def dec_last_update_def wf_bytes_def
      slice_simps pod_simps simp del: One_nat_def)

declare lu.pod_field [pod_simps]

section \<open>\<open>BigFractionBytes\<close>\<close>

interpretation p64_x4: pod 32 "wf_arr anything 4" "enc_arr (to_le 8 :: u64 \<Rightarrow> bytes)" "dec_arr 8 of_le 4"
  by (rule p64.array_pod) simp
declare p64_x4.pod_field [pod_simps]

interpretation p64_x2: pod 16 "wf_arr anything 2" "enc_arr (to_le 8 :: u64 \<Rightarrow> bytes)" "dec_arr 8 of_le 2"
  by (rule p64.array_pod) simp
declare p64_x2.pod_field [pod_simps]

record big_fraction_bytes =
  bf_value :: "u64 list"
  bf_padding :: "u64 list"

definition enc_big_fraction_bytes :: "big_fraction_bytes \<Rightarrow> bytes" where
  "enc_big_fraction_bytes x =
     enc_arr (to_le 8) (bf_value x) @
     enc_arr (to_le 8) (bf_padding x)"

definition dec_big_fraction_bytes :: "bytes \<Rightarrow> big_fraction_bytes" where
  "dec_big_fraction_bytes bs =
     \<lparr>bf_value = dec_arr 8 of_le 4 (slice 0 32 bs),
      bf_padding = dec_arr 8 of_le 2 (slice 32 16 bs)\<rparr>"

definition wf_big_fraction_bytes :: "big_fraction_bytes \<Rightarrow> bool" where
  "wf_big_fraction_bytes x \<longleftrightarrow>
     wf_arr anything 4 (bf_value x) \<and>
     wf_arr anything 2 (bf_padding x)"

interpretation bf: pod 48 wf_big_fraction_bytes enc_big_fraction_bytes dec_big_fraction_bytes
  by unfold_locales
    (auto simp: wf_big_fraction_bytes_def enc_big_fraction_bytes_def dec_big_fraction_bytes_def wf_bytes_def
      slice_simps pod_simps simp del: One_nat_def)

declare bf.pod_field [pod_simps]

section \<open>\<open>ObligationCollateral\<close>\<close>

interpretation p64_x9: pod 72 "wf_arr anything 9" "enc_arr (to_le 8 :: u64 \<Rightarrow> bytes)" "dec_arr 8 of_le 9"
  by (rule p64.array_pod) simp
declare p64_x9.pod_field [pod_simps]

record obligation_collateral =
  oc_deposit_reserve :: pubkey
  oc_deposited_amount :: u64
  oc_market_value_sf :: pod_u128
  oc_borrowed_amount_against_this_collateral_in_elevation_group :: u64
  oc_padding :: "u64 list"

definition enc_obligation_collateral :: "obligation_collateral \<Rightarrow> bytes" where
  "enc_obligation_collateral x =
     oc_deposit_reserve x @
     to_le 8 (oc_deposited_amount x) @
     pod_bytes (oc_market_value_sf x) @
     to_le 8 (oc_borrowed_amount_against_this_collateral_in_elevation_group x) @
     enc_arr (to_le 8) (oc_padding x)"

definition dec_obligation_collateral :: "bytes \<Rightarrow> obligation_collateral" where
  "dec_obligation_collateral bs =
     \<lparr>oc_deposit_reserve = slice 0 32 bs,
      oc_deposited_amount = of_le (slice 32 8 bs),
      oc_market_value_sf = PodU128 (slice 40 16 bs),
      oc_borrowed_amount_against_this_collateral_in_elevation_group = of_le (slice 56 8 bs),
      oc_padding = dec_arr 8 of_le 9 (slice 64 72 bs)\<rparr>"

definition wf_obligation_collateral :: "obligation_collateral \<Rightarrow> bool" where
  "wf_obligation_collateral x \<longleftrightarrow>
     wf_bytes 32 (oc_deposit_reserve x) \<and>
     wf_pod_u128 (oc_market_value_sf x) \<and>
     wf_arr anything 9 (oc_padding x)"

interpretation oc: pod 136 wf_obligation_collateral enc_obligation_collateral dec_obligation_collateral
  by unfold_locales
    (auto simp: wf_obligation_collateral_def enc_obligation_collateral_def dec_obligation_collateral_def wf_bytes_def
      slice_simps pod_simps simp del: One_nat_def)

declare oc.pod_field [pod_simps]

section \<open>\<open>FixedTermBorrowRolloverConfig\<close>\<close>

record fixed_term_borrow_rollover_config =
  rc_auto_rollover_enabled :: u8
  rc_open_term_allowed :: u8
  rc_migration_to_fixed_enabled :: u8
  rc_fixed_term_rollover_window_duration_days :: u8
  rc_max_borrow_rate_bps :: u32
  rc_min_debt_term_seconds :: u64

definition enc_fixed_term_borrow_rollover_config :: "fixed_term_borrow_rollover_config \<Rightarrow> bytes" where
  "enc_fixed_term_borrow_rollover_config x =
     to_le 1 (rc_auto_rollover_enabled x) @
     to_le 1 (rc_open_term_allowed x) @
     to_le 1 (rc_migration_to_fixed_enabled x) @
     to_le 1 (rc_fixed_term_rollover_window_duration_days x) @
     to_le 4 (rc_max_borrow_rate_bps x) @
     to_le 8 (rc_min_debt_term_seconds x)"

definition dec_fixed_term_borrow_rollover_config :: "bytes \<Rightarrow> fixed_term_borrow_rollover_config" where
  "dec_fixed_term_borrow_rollover_config bs =
     \<lparr>rc_auto_rollover_enabled = of_le (slice 0 1 bs),
      rc_open_term_allowed = of_le (slice 1 1 bs),
      rc_migration_to_fixed_enabled = of_le (slice 2 1 bs),
      rc_fixed_term_rollover_window_duration_days = of_le (slice 3 1 bs),
      rc_max_borrow_rate_bps = of_le (slice 4 4 bs),
      rc_min_debt_term_seconds = of_le (slice 8 8 bs)\<rparr>"

definition wf_fixed_term_borrow_rollover_config :: "fixed_term_borrow_rollover_config \<Rightarrow> bool" where
  "wf_fixed_term_borrow_rollover_config x \<longleftrightarrow> True"

interpretation rc: pod 16 wf_fixed_term_borrow_rollover_config enc_fixed_term_borrow_rollover_config dec_fixed_term_borrow_rollover_config
  by unfold_locales
    (auto simp: wf_fixed_term_borrow_rollover_config_def enc_fixed_term_borrow_rollover_config_def dec_fixed_term_borrow_rollover_config_def wf_bytes_def
      slice_simps pod_simps simp del: One_nat_def)

declare rc.pod_field [pod_simps]

section \<open>\<open>ObligationLiquidity\<close>\<close>

record obligation_liquidity =
  ol_borrow_reserve :: pubkey
  ol_cumulative_borrow_rate_bsf :: big_fraction_bytes
  ol_last_borrowed_at_timestamp :: u64
  ol_borrowed_amount_sf :: pod_u128
  ol_market_value_sf :: pod_u128
  ol_borrow_factor_adjusted_market_value_sf :: pod_u128
  ol_borrowed_amount_outside_elevation_groups :: u64
  ol_fixed_term_borrow_rollover_config :: fixed_term_borrow_rollover_config
  ol_borrowed_amount_at_expiration :: u64
  ol_padding2 :: "u64 list"

definition enc_obligation_liquidity :: "obligation_liquidity \<Rightarrow> bytes" where
  "enc_obligation_liquidity x =
     ol_borrow_reserve x @
     enc_big_fraction_bytes (ol_cumulative_borrow_rate_bsf x) @
     to_le 8 (ol_last_borrowed_at_timestamp x) @
     pod_bytes (ol_borrowed_amount_sf x) @
     pod_bytes (ol_market_value_sf x) @
     pod_bytes (ol_borrow_factor_adjusted_market_value_sf x) @
     to_le 8 (ol_borrowed_amount_outside_elevation_groups x) @
     enc_fixed_term_borrow_rollover_config (ol_fixed_term_borrow_rollover_config x) @
     to_le 8 (ol_borrowed_amount_at_expiration x) @
     enc_arr (to_le 8) (ol_padding2 x)"

definition dec_obligation_liquidity :: "bytes \<Rightarrow> obligation_liquidity" where
  "dec_obligation_liquidity bs =
     \<lparr>ol_borrow_reserve = slice 0 32 bs,
      ol_cumulative_borrow_rate_bsf = dec_big_fraction_bytes (slice 32 48 bs),
      ol_last_borrowed_at_timestamp = of_le (slice 80 8 bs),
      ol_borrowed_amount_sf = PodU128 (slice 88 16 bs),
      ol_market_value_sf = PodU128 (slice 104 16 bs),
      ol_borrow_factor_adjusted_market_value_sf = PodU128 (slice 120 16 bs),
      ol_borrowed_amount_outside_elevation_groups = of_le (slice 136 8 bs),
      ol_fixed_term_borrow_rollover_config = dec_fixed_term_borrow_rollover_config (slice 144 16 bs),
      ol_borrowed_amount_at_expiration = of_le (slice 160 8 bs),
      ol_padding2 = dec_arr 8 of_le 4 (slice 168 32 bs)\<rparr>"

definition wf_obligation_liquidity :: "obligation_liquidity \<Rightarrow> bool" where
  "wf_obligation_liquidity x \<longleftrightarrow>
     wf_bytes 32 (ol_borrow_reserve x) \<and>
     wf_big_fraction_bytes (ol_cumulative_borrow_rate_bsf x) \<and>
     wf_pod_u128 (ol_borrowed_amount_sf x) \<and>
     wf_pod_u128 (ol_market_value_sf x) \<and>
     wf_pod_u128 (ol_borrow_factor_adjusted_market_value_sf x) \<and>
     wf_fixed_term_borrow_rollover_config (ol_fixed_term_borrow_rollover_config x) \<and>
     wf_arr anything 4 (ol_padding2 x)"

interpretation ol: pod 200 wf_obligation_liquidity enc_obligation_liquidity dec_obligation_liquidity
  by unfold_locales
    (auto simp: wf_obligation_liquidity_def enc_obligation_liquidity_def dec_obligation_liquidity_def wf_bytes_def
      slice_simps pod_simps simp del: One_nat_def)

declare ol.pod_field [pod_simps]

section \<open>\<open>ObligationOrder\<close>\<close>

interpretation pu128_x5: pod 80 "wf_arr wf_pod_u128 5" "enc_arr pod_bytes" "dec_arr 16 PodU128 5"
  by (rule pu128.array_pod) simp
declare pu128_x5.pod_field [pod_simps]

record obligation_order =
  oo_condition_threshold_sf :: pod_u128
  oo_opportunity_parameter_sf :: pod_u128
  oo_min_execution_bonus_bps :: u16
  oo_max_execution_bonus_bps :: u16
  oo_condition_type :: u8
  oo_opportunity_type :: u8
  oo_padding1 :: bytes
  oo_padding2 :: "pod_u128 list"

definition enc_obligation_order :: "obligation_order \<Rightarrow> bytes" where
  "enc_obligation_order x =
     pod_bytes (oo_condition_threshold_sf x) @
     pod_bytes (oo_opportunity_parameter_sf x) @
     to_le 2 (oo_min_execution_bonus_bps x) @
     to_le 2 (oo_max_execution_bonus_bps x) @
     to_le 1 (oo_condition_type x) @
     to_le 1 (oo_opportunity_type x) @
     oo_padding1 x @
     enc_arr pod_bytes (oo_padding2 x)"

definition dec_obligation_order :: "bytes \<Rightarrow> obligation_order" where
  "dec_obligation_order bs =
     \<lparr>oo_condition_threshold_sf = PodU128 (slice 0 16 bs),
      oo_opportunity_parameter_sf = PodU128 (slice 16 16 bs),
      oo_min_execution_bonus_bps = of_le (slice 32 2 bs),
      oo_max_execution_bonus_bps = of_le (slice 34 2 bs),
      oo_condition_type = of_le (slice 36 1 bs),
      oo_opportunity_type = of_le (slice 37 1 bs),
      oo_padding1 = slice 38 10 bs,
      oo_padding2 = dec_arr 16 PodU128 5 (slice 48 80 bs)\<rparr>"

definition wf_obligation_order :: "obligation_order \<Rightarrow> bool" where
  "wf_obligation_order x \<longleftrightarrow>
     wf_pod_u128 (oo_condition_threshold_sf x) \<and>
     wf_pod_u128 (oo_opportunity_parameter_sf x) \<and>
     wf_bytes 10 (oo_padding1 x) \<and>
     wf_arr wf_pod_u128 5 (oo_padding2 x)"

interpretation oo: pod 128 wf_obligation_order enc_obligation_order dec_obligation_order
  by unfold_locales
    (auto simp: wf_obligation_order_def enc_obligation_order_def dec_obligation_order_def wf_bytes_def
      slice_simps pod_simps simp del: One_nat_def)

declare oo.pod_field [pod_simps]

section \<open>\<open>BorrowOrder\<close>\<close>

interpretation p64_x5: pod 40 "wf_arr anything 5" "enc_arr (to_le 8 :: u64 \<Rightarrow> bytes)" "dec_arr 8 of_le 5"
  by (rule p64.array_pod) simp
declare p64_x5.pod_field [pod_simps]

record borrow_order =
  bo_debt_liquidity_mint :: pubkey
  bo_remaining_debt_amount :: u64
  bo_filled_debt_destination :: pubkey
  bo_min_debt_term_seconds :: u64
  bo_fillable_until_timestamp :: u64
  bo_placed_at_timestamp :: u64
  bo_last_updated_at_timestamp :: u64
  bo_requested_debt_amount :: u64
  bo_max_borrow_rate_bps :: u32
  bo_active :: u8
  bo_enable_auto_rollover_on_filled_borrows :: u8
  bo_padding1 :: bytes
  bo_end_padding :: "u64 list"

definition enc_borrow_order :: "borrow_order \<Rightarrow> bytes" where
  "enc_borrow_order x =
     bo_debt_liquidity_mint x @
     to_le 8 (bo_remaining_debt_amount x) @
     bo_filled_debt_destination x @
     to_le 8 (bo_min_debt_term_seconds x) @
     to_le 8 (bo_fillable_until_timestamp x) @
     to_le 8 (bo_placed_at_timestamp x) @
     to_le 8 (bo_last_updated_at_timestamp x) @
     to_le 8 (bo_requested_debt_amount x) @
     to_le 4 (bo_max_borrow_rate_bps x) @
     to_le 1 (bo_active x) @
     to_le 1 (bo_enable_auto_rollover_on_filled_borrows x) @
     bo_padding1 x @
     enc_arr (to_le 8) (bo_end_padding x)"

definition dec_borrow_order :: "bytes \<Rightarrow> borrow_order" where
  "dec_borrow_order bs =
     \<lparr>bo_debt_liquidity_mint = slice 0 32 bs,
      bo_remaining_debt_amount = of_le (slice 32 8 bs),
      bo_filled_debt_destination = slice 40 32 bs,
      bo_min_debt_term_seconds = of_le (slice 72 8 bs),
      bo_fillable_until_timestamp = of_le (slice 80 8 bs),
      bo_placed_at_timestamp = of_le (slice 88 8 bs),
      bo_last_updated_at_timestamp = of_le (slice 96 8 bs),
      bo_requested_debt_amount = of_le (slice 104 8 bs),
      bo_max_borrow_rate_bps = of_le (slice 112 4 bs),
      bo_active = of_le (slice 116 1 bs),
      bo_enable_auto_rollover_on_filled_borrows = of_le (slice 117 1 bs),
      bo_padding1 = slice 118 2 bs,
      bo_end_padding = dec_arr 8 of_le 5 (slice 120 40 bs)\<rparr>"

definition wf_borrow_order :: "borrow_order \<Rightarrow> bool" where
  "wf_borrow_order x \<longleftrightarrow>
     wf_bytes 32 (bo_debt_liquidity_mint x) \<and>
     wf_bytes 32 (bo_filled_debt_destination x) \<and>
     wf_bytes 2 (bo_padding1 x) \<and>
     wf_arr anything 5 (bo_end_padding x)"

interpretation bo: pod 160 wf_borrow_order enc_borrow_order dec_borrow_order
  by unfold_locales
    (auto simp: wf_borrow_order_def enc_borrow_order_def dec_borrow_order_def wf_bytes_def
      slice_simps pod_simps simp del: One_nat_def)

declare bo.pod_field [pod_simps]

section \<open>\<open>Obligation\<close>\<close>

interpretation oc_x8: pod 1088 "wf_arr wf_obligation_collateral 8" "enc_arr enc_obligation_collateral" "dec_arr 136 dec_obligation_collateral 8"
  by (rule oc.array_pod) simp
declare oc_x8.pod_field [pod_simps]

interpretation ol_x5: pod 1000 "wf_arr wf_obligation_liquidity 5" "enc_arr enc_obligation_liquidity" "dec_arr 200 dec_obligation_liquidity 5"
  by (rule ol.array_pod) simp
declare ol_x5.pod_field [pod_simps]

interpretation oo_x2: pod 256 "wf_arr wf_obligation_order 2" "enc_arr enc_obligation_order" "dec_arr 128 dec_obligation_order 2"
  by (rule oo.array_pod) simp
declare oo_x2.pod_field [pod_simps]

interpretation bo_x2: pod 320 "wf_arr wf_borrow_order 2" "enc_arr enc_borrow_order" "dec_arr 160 dec_borrow_order 2"
  by (rule bo.array_pod) simp
declare bo_x2.pod_field [pod_simps]

interpretation p64_x29: pod 232 "wf_arr anything 29" "enc_arr (to_le 8 :: u64 \<Rightarrow> bytes)" "dec_arr 8 of_le 29"
  by (rule p64.array_pod) simp
declare p64_x29.pod_field [pod_simps]

record obligation =
  ob_tag :: u64
  ob_last_update :: last_update
  ob_lending_market :: pubkey
  ob_owner :: pubkey
  ob_deposits :: "obligation_collateral list"
  ob_lowest_reserve_deposit_liquidation_ltv :: u64
  ob_deposited_value_sf :: pod_u128
  ob_borrows :: "obligation_liquidity list"
  ob_borrow_factor_adjusted_debt_value_sf :: pod_u128
  ob_borrowed_assets_market_value_sf :: pod_u128
  ob_allowed_borrow_value_sf :: pod_u128
  ob_unhealthy_borrow_value_sf :: pod_u128
  ob_padding_deprecated_asset_tiers :: bytes
  ob_elevation_group :: u8
  ob_num_of_obsolete_deposit_reserves :: u8
  ob_has_debt :: u8
  ob_referrer :: pubkey
  ob_borrowing_disabled :: u8
  ob_autodeleverage_target_ltv_pct :: u8
  ob_lowest_reserve_deposit_max_ltv_pct :: u8
  ob_num_of_obsolete_borrow_reserves :: u8
  ob_ownership_transfer_state :: u8
  ob_reserved :: bytes
  ob_highest_borrow_factor_pct :: u64
  ob_autodeleverage_margin_call_started_timestamp :: u64
  ob_obligation_orders :: "obligation_order list"
  ob_head_borrow_order :: borrow_order
  ob_pending_owner :: pubkey
  ob_tail_borrow_orders :: "borrow_order list"
  ob_padding_3 :: "u64 list"

definition enc_obligation :: "obligation \<Rightarrow> bytes" where
  "enc_obligation x =
     to_le 8 (ob_tag x) @
     enc_last_update (ob_last_update x) @
     ob_lending_market x @
     ob_owner x @
     enc_arr enc_obligation_collateral (ob_deposits x) @
     to_le 8 (ob_lowest_reserve_deposit_liquidation_ltv x) @
     pod_bytes (ob_deposited_value_sf x) @
     enc_arr enc_obligation_liquidity (ob_borrows x) @
     pod_bytes (ob_borrow_factor_adjusted_debt_value_sf x) @
     pod_bytes (ob_borrowed_assets_market_value_sf x) @
     pod_bytes (ob_allowed_borrow_value_sf x) @
     pod_bytes (ob_unhealthy_borrow_value_sf x) @
     ob_padding_deprecated_asset_tiers x @
     to_le 1 (ob_elevation_group x) @
     to_le 1 (ob_num_of_obsolete_deposit_reserves x) @
     to_le 1 (ob_has_debt x) @
     ob_referrer x @
     to_le 1 (ob_borrowing_disabled x) @
     to_le 1 (ob_autodeleverage_target_ltv_pct x) @
     to_le 1 (ob_lowest_reserve_deposit_max_ltv_pct x) @
     to_le 1 (ob_num_of_obsolete_borrow_reserves x) @
     to_le 1 (ob_ownership_transfer_state x) @
     ob_reserved x @
     to_le 8 (ob_highest_borrow_factor_pct x) @
     to_le 8 (ob_autodeleverage_margin_call_started_timestamp x) @
     enc_arr enc_obligation_order (ob_obligation_orders x) @
     enc_borrow_order (ob_head_borrow_order x) @
     ob_pending_owner x @
     enc_arr enc_borrow_order (ob_tail_borrow_orders x) @
     enc_arr (to_le 8) (ob_padding_3 x)"

definition dec_obligation :: "bytes \<Rightarrow> obligation" where
  "dec_obligation bs =
     \<lparr>ob_tag = of_le (slice 0 8 bs),
      ob_last_update = dec_last_update (slice 8 16 bs),
      ob_lending_market = slice 24 32 bs,
      ob_owner = slice 56 32 bs,
      ob_deposits = dec_arr 136 dec_obligation_collateral 8 (slice 88 1088 bs),
      ob_lowest_reserve_deposit_liquidation_ltv = of_le (slice 1176 8 bs),
      ob_deposited_value_sf = PodU128 (slice 1184 16 bs),
      ob_borrows = dec_arr 200 dec_obligation_liquidity 5 (slice 1200 1000 bs),
      ob_borrow_factor_adjusted_debt_value_sf = PodU128 (slice 2200 16 bs),
      ob_borrowed_assets_market_value_sf = PodU128 (slice 2216 16 bs),
      ob_allowed_borrow_value_sf = PodU128 (slice 2232 16 bs),
      ob_unhealthy_borrow_value_sf = PodU128 (slice 2248 16 bs),
      ob_padding_deprecated_asset_tiers = slice 2264 13 bs,
      ob_elevation_group = of_le (slice 2277 1 bs),
      ob_num_of_obsolete_deposit_reserves = of_le (slice 2278 1 bs),
      ob_has_debt = of_le (slice 2279 1 bs),
      ob_referrer = slice 2280 32 bs,
      ob_borrowing_disabled = of_le (slice 2312 1 bs),
      ob_autodeleverage_target_ltv_pct = of_le (slice 2313 1 bs),
      ob_lowest_reserve_deposit_max_ltv_pct = of_le (slice 2314 1 bs),
      ob_num_of_obsolete_borrow_reserves = of_le (slice 2315 1 bs),
      ob_ownership_transfer_state = of_le (slice 2316 1 bs),
      ob_reserved = slice 2317 3 bs,
      ob_highest_borrow_factor_pct = of_le (slice 2320 8 bs),
      ob_autodeleverage_margin_call_started_timestamp = of_le (slice 2328 8 bs),
      ob_obligation_orders = dec_arr 128 dec_obligation_order 2 (slice 2336 256 bs),
      ob_head_borrow_order = dec_borrow_order (slice 2592 160 bs),
      ob_pending_owner = slice 2752 32 bs,
      ob_tail_borrow_orders = dec_arr 160 dec_borrow_order 2 (slice 2784 320 bs),
      ob_padding_3 = dec_arr 8 of_le 29 (slice 3104 232 bs)\<rparr>"

definition wf_obligation :: "obligation \<Rightarrow> bool" where
  "wf_obligation x \<longleftrightarrow>
     wf_last_update (ob_last_update x) \<and>
     wf_bytes 32 (ob_lending_market x) \<and>
     wf_bytes 32 (ob_owner x) \<and>
     wf_arr wf_obligation_collateral 8 (ob_deposits x) \<and>
     wf_pod_u128 (ob_deposited_value_sf x) \<and>
     wf_arr wf_obligation_liquidity 5 (ob_borrows x) \<and>
     wf_pod_u128 (ob_borrow_factor_adjusted_debt_value_sf x) \<and>
     wf_pod_u128 (ob_borrowed_assets_market_value_sf x) \<and>
     wf_pod_u128 (ob_allowed_borrow_value_sf x) \<and>
     wf_pod_u128 (ob_unhealthy_borrow_value_sf x) \<and>
     wf_bytes 13 (ob_padding_deprecated_asset_tiers x) \<and>
     wf_bytes 32 (ob_referrer x) \<and>
     wf_bytes 3 (ob_reserved x) \<and>
     wf_arr wf_obligation_order 2 (ob_obligation_orders x) \<and>
     wf_borrow_order (ob_head_borrow_order x) \<and>
     wf_bytes 32 (ob_pending_owner x) \<and>
     wf_arr wf_borrow_order 2 (ob_tail_borrow_orders x) \<and>
     wf_arr anything 29 (ob_padding_3 x)"

interpretation ob: pod 3336 wf_obligation enc_obligation dec_obligation
  by unfold_locales
    (auto simp: wf_obligation_def enc_obligation_def dec_obligation_def wf_bytes_def
      slice_simps pod_simps simp del: One_nat_def)

declare ob.pod_field [pod_simps]

end
