(* ===== verification/State_Market.thy ===== *)
theory State_Market
  imports State_Obligation
begin

text \<open>
  The lending-market account and its elevation groups
  (\<open>vendor/klend-interface/src/state/lending_market.rs\<close>), in the form of \<open>State_Obligation\<close>.
\<close>

section \<open>\<open>ElevationGroup\<close>\<close>

record elevation_group =
  eg_max_liquidation_bonus_bps :: u16
  eg_id :: u8
  eg_ltv_pct :: u8
  eg_liquidation_threshold_pct :: u8
  eg_allow_new_loans :: u8
  eg_max_reserves_as_collateral :: u8
  eg_padding_0 :: u8
  eg_debt_reserve :: pubkey
  eg_padding_1 :: "u64 list"

definition enc_elevation_group :: "elevation_group \<Rightarrow> bytes" where
  "enc_elevation_group x =
     to_le 2 (eg_max_liquidation_bonus_bps x) @
     to_le 1 (eg_id x) @
     to_le 1 (eg_ltv_pct x) @
     to_le 1 (eg_liquidation_threshold_pct x) @
     to_le 1 (eg_allow_new_loans x) @
     to_le 1 (eg_max_reserves_as_collateral x) @
     to_le 1 (eg_padding_0 x) @
     eg_debt_reserve x @
     enc_arr (to_le 8) (eg_padding_1 x)"

definition dec_elevation_group :: "bytes \<Rightarrow> elevation_group" where
  "dec_elevation_group bs =
     \<lparr>eg_max_liquidation_bonus_bps = of_le (slice 0 2 bs),
      eg_id = of_le (slice 2 1 bs),
      eg_ltv_pct = of_le (slice 3 1 bs),
      eg_liquidation_threshold_pct = of_le (slice 4 1 bs),
      eg_allow_new_loans = of_le (slice 5 1 bs),
      eg_max_reserves_as_collateral = of_le (slice 6 1 bs),
      eg_padding_0 = of_le (slice 7 1 bs),
      eg_debt_reserve = slice 8 32 bs,
      eg_padding_1 = dec_arr 8 of_le 4 (slice 40 32 bs)\<rparr>"

definition wf_elevation_group :: "elevation_group \<Rightarrow> bool" where
  "wf_elevation_group x \<longleftrightarrow>
     wf_bytes 32 (eg_debt_reserve x) \<and>
     wf_arr anything 4 (eg_padding_1 x)"

interpretation eg: pod 72 wf_elevation_group enc_elevation_group dec_elevation_group
  by unfold_locales
    (auto simp: wf_elevation_group_def enc_elevation_group_def dec_elevation_group_def wf_bytes_def
      slice_simps pod_simps simp del: One_nat_def)

declare eg.pod_field [pod_simps]

section \<open>\<open>LendingMarket\<close>\<close>

interpretation eg_x32: pod 2304 "wf_arr wf_elevation_group 32" "enc_arr enc_elevation_group" "dec_arr 72 dec_elevation_group 32"
  by (rule eg.array_pod) simp
declare eg_x32.pod_field [pod_simps]

interpretation p64_x90: pod 720 "wf_arr anything 90" "enc_arr (to_le 8 :: u64 \<Rightarrow> bytes)" "dec_arr 8 of_le 90"
  by (rule p64.array_pod) simp
declare p64_x90.pod_field [pod_simps]

interpretation p64_x153: pod 1224 "wf_arr anything 153" "enc_arr (to_le 8 :: u64 \<Rightarrow> bytes)" "dec_arr 8 of_le 153"
  by (rule p64.array_pod) simp
declare p64_x153.pod_field [pod_simps]

record lending_market =
  lm_version :: u64
  lm_bump_seed :: u64
  lm_lending_market_owner :: pubkey
  lm_lending_market_owner_cached :: pubkey
  lm_quote_currency :: bytes
  lm_referral_fee_bps :: u16
  lm_emergency_mode :: u8
  lm_autodeleverage_enabled :: u8
  lm_borrow_disabled :: u8
  lm_price_refresh_trigger_to_max_age_pct :: u8
  lm_liquidation_max_debt_close_factor_pct :: u8
  lm_insolvency_risk_unhealthy_ltv_pct :: u8
  lm_min_full_liquidation_value_threshold :: u64
  lm_max_liquidatable_debt_market_value_at_once :: u64
  lm_reserved0 :: bytes
  lm_global_allowed_borrow_value :: u64
  lm_emergency_council :: pubkey
  lm_reserved1 :: bytes
  lm_elevation_groups :: "elevation_group list"
  lm_elevation_group_padding :: "u64 list"
  lm_min_net_value_in_obligation_sf :: pod_u128
  lm_min_value_skip_liquidation_ltv_checks :: u64
  lm_name :: bytes
  lm_min_value_skip_liquidation_bf_checks :: u64
  lm_individual_autodeleverage_margin_call_period_secs :: u64
  lm_min_initial_deposit_amount :: u64
  lm_obligation_order_execution_enabled :: u8
  lm_immutable :: u8
  lm_obligation_order_creation_enabled :: u8
  lm_price_triggered_liquidation_disabled :: u8
  lm_mature_reserve_debt_liquidation_enabled :: u8
  lm_obligation_borrow_debt_term_liquidation_enabled :: u8
  lm_borrow_order_creation_enabled :: u8
  lm_borrow_order_execution_enabled :: u8
  lm_proposer_authority :: pubkey
  lm_min_borrow_order_fill_value :: u64
  lm_withdraw_ticket_issuance_enabled :: u8
  lm_withdraw_ticket_redemption_enabled :: u8
  lm_obligation_borrow_rollover_configuration_enabled :: u8
  lm_obligation_borrow_migration_to_fixed_execution_enabled :: u8
  lm_withdraw_ticket_cancellation_enabled :: u8
  lm_disable_nonce_block :: u8
  lm_reserve_rewards_max_apr_bps :: u16
  lm_min_withdraw_queued_liquidity_value :: u64
  lm_fixed_term_rollover_window_duration_seconds :: u64
  lm_open_term_rollover_window_duration_seconds :: u64
  lm_min_partial_rollover_value :: u64
  lm_term_based_full_liquidation_duration_secs :: u64
  lm_permissioning_authority :: pubkey
  lm_permissioned_ops :: u64
  lm_padding1 :: "u64 list"

definition enc_lending_market :: "lending_market \<Rightarrow> bytes" where
  "enc_lending_market x =
     to_le 8 (lm_version x) @
     to_le 8 (lm_bump_seed x) @
     lm_lending_market_owner x @
     lm_lending_market_owner_cached x @
     lm_quote_currency x @
     to_le 2 (lm_referral_fee_bps x) @
     to_le 1 (lm_emergency_mode x) @
     to_le 1 (lm_autodeleverage_enabled x) @
     to_le 1 (lm_borrow_disabled x) @
     to_le 1 (lm_price_refresh_trigger_to_max_age_pct x) @
     to_le 1 (lm_liquidation_max_debt_close_factor_pct x) @
     to_le 1 (lm_insolvency_risk_unhealthy_ltv_pct x) @
     to_le 8 (lm_min_full_liquidation_value_threshold x) @
     to_le 8 (lm_max_liquidatable_debt_market_value_at_once x) @
     lm_reserved0 x @
     to_le 8 (lm_global_allowed_borrow_value x) @
     lm_emergency_council x @
     lm_reserved1 x @
     enc_arr enc_elevation_group (lm_elevation_groups x) @
     enc_arr (to_le 8) (lm_elevation_group_padding x) @
     pod_bytes (lm_min_net_value_in_obligation_sf x) @
     to_le 8 (lm_min_value_skip_liquidation_ltv_checks x) @
     lm_name x @
     to_le 8 (lm_min_value_skip_liquidation_bf_checks x) @
     to_le 8 (lm_individual_autodeleverage_margin_call_period_secs x) @
     to_le 8 (lm_min_initial_deposit_amount x) @
     to_le 1 (lm_obligation_order_execution_enabled x) @
     to_le 1 (lm_immutable x) @
     to_le 1 (lm_obligation_order_creation_enabled x) @
     to_le 1 (lm_price_triggered_liquidation_disabled x) @
     to_le 1 (lm_mature_reserve_debt_liquidation_enabled x) @
     to_le 1 (lm_obligation_borrow_debt_term_liquidation_enabled x) @
     to_le 1 (lm_borrow_order_creation_enabled x) @
     to_le 1 (lm_borrow_order_execution_enabled x) @
     lm_proposer_authority x @
     to_le 8 (lm_min_borrow_order_fill_value x) @
     to_le 1 (lm_withdraw_ticket_issuance_enabled x) @
     to_le 1 (lm_withdraw_ticket_redemption_enabled x) @
     to_le 1 (lm_obligation_borrow_rollover_configuration_enabled x) @
     to_le 1 (lm_obligation_borrow_migration_to_fixed_execution_enabled x) @
     to_le 1 (lm_withdraw_ticket_cancellation_enabled x) @
     to_le 1 (lm_disable_nonce_block x) @
     to_le 2 (lm_reserve_rewards_max_apr_bps x) @
     to_le 8 (lm_min_withdraw_queued_liquidity_value x) @
     to_le 8 (lm_fixed_term_rollover_window_duration_seconds x) @
     to_le 8 (lm_open_term_rollover_window_duration_seconds x) @
     to_le 8 (lm_min_partial_rollover_value x) @
     to_le 8 (lm_term_based_full_liquidation_duration_secs x) @
     lm_permissioning_authority x @
     to_le 8 (lm_permissioned_ops x) @
     enc_arr (to_le 8) (lm_padding1 x)"

definition dec_lending_market :: "bytes \<Rightarrow> lending_market" where
  "dec_lending_market bs =
     \<lparr>lm_version = of_le (slice 0 8 bs),
      lm_bump_seed = of_le (slice 8 8 bs),
      lm_lending_market_owner = slice 16 32 bs,
      lm_lending_market_owner_cached = slice 48 32 bs,
      lm_quote_currency = slice 80 32 bs,
      lm_referral_fee_bps = of_le (slice 112 2 bs),
      lm_emergency_mode = of_le (slice 114 1 bs),
      lm_autodeleverage_enabled = of_le (slice 115 1 bs),
      lm_borrow_disabled = of_le (slice 116 1 bs),
      lm_price_refresh_trigger_to_max_age_pct = of_le (slice 117 1 bs),
      lm_liquidation_max_debt_close_factor_pct = of_le (slice 118 1 bs),
      lm_insolvency_risk_unhealthy_ltv_pct = of_le (slice 119 1 bs),
      lm_min_full_liquidation_value_threshold = of_le (slice 120 8 bs),
      lm_max_liquidatable_debt_market_value_at_once = of_le (slice 128 8 bs),
      lm_reserved0 = slice 136 8 bs,
      lm_global_allowed_borrow_value = of_le (slice 144 8 bs),
      lm_emergency_council = slice 152 32 bs,
      lm_reserved1 = slice 184 8 bs,
      lm_elevation_groups = dec_arr 72 dec_elevation_group 32 (slice 192 2304 bs),
      lm_elevation_group_padding = dec_arr 8 of_le 90 (slice 2496 720 bs),
      lm_min_net_value_in_obligation_sf = PodU128 (slice 3216 16 bs),
      lm_min_value_skip_liquidation_ltv_checks = of_le (slice 3232 8 bs),
      lm_name = slice 3240 32 bs,
      lm_min_value_skip_liquidation_bf_checks = of_le (slice 3272 8 bs),
      lm_individual_autodeleverage_margin_call_period_secs = of_le (slice 3280 8 bs),
      lm_min_initial_deposit_amount = of_le (slice 3288 8 bs),
      lm_obligation_order_execution_enabled = of_le (slice 3296 1 bs),
      lm_immutable = of_le (slice 3297 1 bs),
      lm_obligation_order_creation_enabled = of_le (slice 3298 1 bs),
      lm_price_triggered_liquidation_disabled = of_le (slice 3299 1 bs),
      lm_mature_reserve_debt_liquidation_enabled = of_le (slice 3300 1 bs),
      lm_obligation_borrow_debt_term_liquidation_enabled = of_le (slice 3301 1 bs),
      lm_borrow_order_creation_enabled = of_le (slice 3302 1 bs),
      lm_borrow_order_execution_enabled = of_le (slice 3303 1 bs),
      lm_proposer_authority = slice 3304 32 bs,
      lm_min_borrow_order_fill_value = of_le (slice 3336 8 bs),
      lm_withdraw_ticket_issuance_enabled = of_le (slice 3344 1 bs),
      lm_withdraw_ticket_redemption_enabled = of_le (slice 3345 1 bs),
      lm_obligation_borrow_rollover_configuration_enabled = of_le (slice 3346 1 bs),
      lm_obligation_borrow_migration_to_fixed_execution_enabled = of_le (slice 3347 1 bs),
      lm_withdraw_ticket_cancellation_enabled = of_le (slice 3348 1 bs),
      lm_disable_nonce_block = of_le (slice 3349 1 bs),
      lm_reserve_rewards_max_apr_bps = of_le (slice 3350 2 bs),
      lm_min_withdraw_queued_liquidity_value = of_le (slice 3352 8 bs),
      lm_fixed_term_rollover_window_duration_seconds = of_le (slice 3360 8 bs),
      lm_open_term_rollover_window_duration_seconds = of_le (slice 3368 8 bs),
      lm_min_partial_rollover_value = of_le (slice 3376 8 bs),
      lm_term_based_full_liquidation_duration_secs = of_le (slice 3384 8 bs),
      lm_permissioning_authority = slice 3392 32 bs,
      lm_permissioned_ops = of_le (slice 3424 8 bs),
      lm_padding1 = dec_arr 8 of_le 153 (slice 3432 1224 bs)\<rparr>"

definition wf_lending_market :: "lending_market \<Rightarrow> bool" where
  "wf_lending_market x \<longleftrightarrow>
     wf_bytes 32 (lm_lending_market_owner x) \<and>
     wf_bytes 32 (lm_lending_market_owner_cached x) \<and>
     wf_bytes 32 (lm_quote_currency x) \<and>
     wf_bytes 8 (lm_reserved0 x) \<and>
     wf_bytes 32 (lm_emergency_council x) \<and>
     wf_bytes 8 (lm_reserved1 x) \<and>
     wf_arr wf_elevation_group 32 (lm_elevation_groups x) \<and>
     wf_arr anything 90 (lm_elevation_group_padding x) \<and>
     wf_pod_u128 (lm_min_net_value_in_obligation_sf x) \<and>
     wf_bytes 32 (lm_name x) \<and>
     wf_bytes 32 (lm_proposer_authority x) \<and>
     wf_bytes 32 (lm_permissioning_authority x) \<and>
     wf_arr anything 153 (lm_padding1 x)"

interpretation lm: pod 4656 wf_lending_market enc_lending_market dec_lending_market
  by unfold_locales
    (auto simp: wf_lending_market_def enc_lending_market_def dec_lending_market_def wf_bytes_def
      slice_simps pod_simps simp del: One_nat_def)

declare lm.pod_field [pod_simps]

end
