(* ===== verification/State_Reserve.thy ===== *)
theory State_Reserve
  imports State_Obligation
begin

text \<open>
  The reserve account and the structs it embeds
  (\<open>vendor/klend-interface/src/state/reserve.rs\<close>), in the form of \<open>State_Obligation\<close>.
\<close>

section \<open>\<open>ReserveLiquidity\<close>\<close>

interpretation p64_x50: pod 400 "wf_arr anything 50" "enc_arr (to_le 8 :: u64 \<Rightarrow> bytes)" "dec_arr 8 of_le 50"
  by (rule p64.array_pod) simp
declare p64_x50.pod_field [pod_simps]

interpretation pu128_x32: pod 512 "wf_arr wf_pod_u128 32" "enc_arr pod_bytes" "dec_arr 16 PodU128 32"
  by (rule pu128.array_pod) simp
declare pu128_x32.pod_field [pod_simps]

record reserve_liquidity =
  rl_mint_pubkey :: pubkey
  rl_supply_vault :: pubkey
  rl_fee_vault :: pubkey
  rl_total_available_amount :: u64
  rl_borrowed_amount_sf :: pod_u128
  rl_market_price_sf :: pod_u128
  rl_market_price_last_updated_ts :: u64
  rl_mint_decimals :: u64
  rl_deposit_limit_crossed_timestamp :: u64
  rl_borrow_limit_crossed_timestamp :: u64
  rl_cumulative_borrow_rate_bsf :: big_fraction_bytes
  rl_accumulated_protocol_fees_sf :: pod_u128
  rl_accumulated_referrer_fees_sf :: pod_u128
  rl_pending_referrer_fees_sf :: pod_u128
  rl_absolute_referral_rate_sf :: pod_u128
  rl_token_program :: pubkey
  rl_rewards_amount_available :: u64
  rl_padding2 :: "u64 list"
  rl_padding3 :: "pod_u128 list"

definition enc_reserve_liquidity :: "reserve_liquidity \<Rightarrow> bytes" where
  "enc_reserve_liquidity x =
     rl_mint_pubkey x @
     rl_supply_vault x @
     rl_fee_vault x @
     to_le 8 (rl_total_available_amount x) @
     pod_bytes (rl_borrowed_amount_sf x) @
     pod_bytes (rl_market_price_sf x) @
     to_le 8 (rl_market_price_last_updated_ts x) @
     to_le 8 (rl_mint_decimals x) @
     to_le 8 (rl_deposit_limit_crossed_timestamp x) @
     to_le 8 (rl_borrow_limit_crossed_timestamp x) @
     enc_big_fraction_bytes (rl_cumulative_borrow_rate_bsf x) @
     pod_bytes (rl_accumulated_protocol_fees_sf x) @
     pod_bytes (rl_accumulated_referrer_fees_sf x) @
     pod_bytes (rl_pending_referrer_fees_sf x) @
     pod_bytes (rl_absolute_referral_rate_sf x) @
     rl_token_program x @
     to_le 8 (rl_rewards_amount_available x) @
     enc_arr (to_le 8) (rl_padding2 x) @
     enc_arr pod_bytes (rl_padding3 x)"

definition dec_reserve_liquidity :: "bytes \<Rightarrow> reserve_liquidity" where
  "dec_reserve_liquidity bs =
     \<lparr>rl_mint_pubkey = slice 0 32 bs,
      rl_supply_vault = slice 32 32 bs,
      rl_fee_vault = slice 64 32 bs,
      rl_total_available_amount = of_le (slice 96 8 bs),
      rl_borrowed_amount_sf = PodU128 (slice 104 16 bs),
      rl_market_price_sf = PodU128 (slice 120 16 bs),
      rl_market_price_last_updated_ts = of_le (slice 136 8 bs),
      rl_mint_decimals = of_le (slice 144 8 bs),
      rl_deposit_limit_crossed_timestamp = of_le (slice 152 8 bs),
      rl_borrow_limit_crossed_timestamp = of_le (slice 160 8 bs),
      rl_cumulative_borrow_rate_bsf = dec_big_fraction_bytes (slice 168 48 bs),
      rl_accumulated_protocol_fees_sf = PodU128 (slice 216 16 bs),
      rl_accumulated_referrer_fees_sf = PodU128 (slice 232 16 bs),
      rl_pending_referrer_fees_sf = PodU128 (slice 248 16 bs),
      rl_absolute_referral_rate_sf = PodU128 (slice 264 16 bs),
      rl_token_program = slice 280 32 bs,
      rl_rewards_amount_available = of_le (slice 312 8 bs),
      rl_padding2 = dec_arr 8 of_le 50 (slice 320 400 bs),
      rl_padding3 = dec_arr 16 PodU128 32 (slice 720 512 bs)\<rparr>"

definition wf_reserve_liquidity :: "reserve_liquidity \<Rightarrow> bool" where
  "wf_reserve_liquidity x \<longleftrightarrow>
     wf_bytes 32 (rl_mint_pubkey x) \<and>
     wf_bytes 32 (rl_supply_vault x) \<and>
     wf_bytes 32 (rl_fee_vault x) \<and>
     wf_pod_u128 (rl_borrowed_amount_sf x) \<and>
     wf_pod_u128 (rl_market_price_sf x) \<and>
     wf_big_fraction_bytes (rl_cumulative_borrow_rate_bsf x) \<and>
     wf_pod_u128 (rl_accumulated_protocol_fees_sf x) \<and>
     wf_pod_u128 (rl_accumulated_referrer_fees_sf x) \<and>
     wf_pod_u128 (rl_pending_referrer_fees_sf x) \<and>
     wf_pod_u128 (rl_absolute_referral_rate_sf x) \<and>
     wf_bytes 32 (rl_token_program x) \<and>
     wf_arr anything 50 (rl_padding2 x) \<and>
     wf_arr wf_pod_u128 32 (rl_padding3 x)"

interpretation rl: pod 1232 wf_reserve_liquidity enc_reserve_liquidity dec_reserve_liquidity
  by unfold_locales
    (auto simp: wf_reserve_liquidity_def enc_reserve_liquidity_def dec_reserve_liquidity_def wf_bytes_def
      slice_simps pod_simps simp del: One_nat_def)

declare rl.pod_field [pod_simps]

section \<open>\<open>ReserveCollateral\<close>\<close>

record reserve_collateral =
  rk_mint_pubkey :: pubkey
  rk_mint_total_supply :: u64
  rk_supply_vault :: pubkey
  rk_padding1 :: "pod_u128 list"
  rk_padding2 :: "pod_u128 list"

definition enc_reserve_collateral :: "reserve_collateral \<Rightarrow> bytes" where
  "enc_reserve_collateral x =
     rk_mint_pubkey x @
     to_le 8 (rk_mint_total_supply x) @
     rk_supply_vault x @
     enc_arr pod_bytes (rk_padding1 x) @
     enc_arr pod_bytes (rk_padding2 x)"

definition dec_reserve_collateral :: "bytes \<Rightarrow> reserve_collateral" where
  "dec_reserve_collateral bs =
     \<lparr>rk_mint_pubkey = slice 0 32 bs,
      rk_mint_total_supply = of_le (slice 32 8 bs),
      rk_supply_vault = slice 40 32 bs,
      rk_padding1 = dec_arr 16 PodU128 32 (slice 72 512 bs),
      rk_padding2 = dec_arr 16 PodU128 32 (slice 584 512 bs)\<rparr>"

definition wf_reserve_collateral :: "reserve_collateral \<Rightarrow> bool" where
  "wf_reserve_collateral x \<longleftrightarrow>
     wf_bytes 32 (rk_mint_pubkey x) \<and>
     wf_bytes 32 (rk_supply_vault x) \<and>
     wf_arr wf_pod_u128 32 (rk_padding1 x) \<and>
     wf_arr wf_pod_u128 32 (rk_padding2 x)"

interpretation rk: pod 1096 wf_reserve_collateral enc_reserve_collateral dec_reserve_collateral
  by unfold_locales
    (auto simp: wf_reserve_collateral_def enc_reserve_collateral_def dec_reserve_collateral_def wf_bytes_def
      slice_simps pod_simps simp del: One_nat_def)

declare rk.pod_field [pod_simps]

section \<open>\<open>ReserveFees\<close>\<close>

record reserve_fees =
  fe_origination_fee_sf :: u64
  fe_flash_loan_fee_sf :: u64
  fe_padding :: bytes

definition enc_reserve_fees :: "reserve_fees \<Rightarrow> bytes" where
  "enc_reserve_fees x =
     to_le 8 (fe_origination_fee_sf x) @
     to_le 8 (fe_flash_loan_fee_sf x) @
     fe_padding x"

definition dec_reserve_fees :: "bytes \<Rightarrow> reserve_fees" where
  "dec_reserve_fees bs =
     \<lparr>fe_origination_fee_sf = of_le (slice 0 8 bs),
      fe_flash_loan_fee_sf = of_le (slice 8 8 bs),
      fe_padding = slice 16 8 bs\<rparr>"

definition wf_reserve_fees :: "reserve_fees \<Rightarrow> bool" where
  "wf_reserve_fees x \<longleftrightarrow>
     wf_bytes 8 (fe_padding x)"

interpretation fe: pod 24 wf_reserve_fees enc_reserve_fees dec_reserve_fees
  by unfold_locales
    (auto simp: wf_reserve_fees_def enc_reserve_fees_def dec_reserve_fees_def wf_bytes_def
      slice_simps pod_simps simp del: One_nat_def)

declare fe.pod_field [pod_simps]

section \<open>\<open>CurvePoint\<close>\<close>

record curve_point =
  cp_utilization_rate_bps :: u32
  cp_borrow_rate_bps :: u32

definition enc_curve_point :: "curve_point \<Rightarrow> bytes" where
  "enc_curve_point x =
     to_le 4 (cp_utilization_rate_bps x) @
     to_le 4 (cp_borrow_rate_bps x)"

definition dec_curve_point :: "bytes \<Rightarrow> curve_point" where
  "dec_curve_point bs =
     \<lparr>cp_utilization_rate_bps = of_le (slice 0 4 bs),
      cp_borrow_rate_bps = of_le (slice 4 4 bs)\<rparr>"

definition wf_curve_point :: "curve_point \<Rightarrow> bool" where
  "wf_curve_point x \<longleftrightarrow> True"

interpretation cp: pod 8 wf_curve_point enc_curve_point dec_curve_point
  by unfold_locales
    (auto simp: wf_curve_point_def enc_curve_point_def dec_curve_point_def wf_bytes_def
      slice_simps pod_simps simp del: One_nat_def)

declare cp.pod_field [pod_simps]

section \<open>\<open>BorrowRateCurve\<close>\<close>

interpretation cp_x11: pod 88 "wf_arr wf_curve_point 11" "enc_arr enc_curve_point" "dec_arr 8 dec_curve_point 11"
  by (rule cp.array_pod) simp
declare cp_x11.pod_field [pod_simps]

record borrow_rate_curve =
  cu_points :: "curve_point list"

definition enc_borrow_rate_curve :: "borrow_rate_curve \<Rightarrow> bytes" where
  "enc_borrow_rate_curve x =
     enc_arr enc_curve_point (cu_points x)"

definition dec_borrow_rate_curve :: "bytes \<Rightarrow> borrow_rate_curve" where
  "dec_borrow_rate_curve bs =
     \<lparr>cu_points = dec_arr 8 dec_curve_point 11 (slice 0 88 bs)\<rparr>"

definition wf_borrow_rate_curve :: "borrow_rate_curve \<Rightarrow> bool" where
  "wf_borrow_rate_curve x \<longleftrightarrow>
     wf_arr wf_curve_point 11 (cu_points x)"

interpretation cu: pod 88 wf_borrow_rate_curve enc_borrow_rate_curve dec_borrow_rate_curve
  by unfold_locales
    (auto simp: wf_borrow_rate_curve_def enc_borrow_rate_curve_def dec_borrow_rate_curve_def wf_bytes_def
      slice_simps pod_simps simp del: One_nat_def)

declare cu.pod_field [pod_simps]

section \<open>\<open>PriceHeuristic\<close>\<close>

record price_heuristic =
  ph_lower :: u64
  ph_upper :: u64
  ph_exp :: u64

definition enc_price_heuristic :: "price_heuristic \<Rightarrow> bytes" where
  "enc_price_heuristic x =
     to_le 8 (ph_lower x) @
     to_le 8 (ph_upper x) @
     to_le 8 (ph_exp x)"

definition dec_price_heuristic :: "bytes \<Rightarrow> price_heuristic" where
  "dec_price_heuristic bs =
     \<lparr>ph_lower = of_le (slice 0 8 bs),
      ph_upper = of_le (slice 8 8 bs),
      ph_exp = of_le (slice 16 8 bs)\<rparr>"

definition wf_price_heuristic :: "price_heuristic \<Rightarrow> bool" where
  "wf_price_heuristic x \<longleftrightarrow> True"

interpretation ph: pod 24 wf_price_heuristic enc_price_heuristic dec_price_heuristic
  by unfold_locales
    (auto simp: wf_price_heuristic_def enc_price_heuristic_def dec_price_heuristic_def wf_bytes_def
      slice_simps pod_simps simp del: One_nat_def)

declare ph.pod_field [pod_simps]

section \<open>\<open>ScopeConfiguration\<close>\<close>

interpretation p16_x4: pod 8 "wf_arr anything 4" "enc_arr (to_le 2 :: u16 \<Rightarrow> bytes)" "dec_arr 2 of_le 4"
  by (rule p16.array_pod) simp
declare p16_x4.pod_field [pod_simps]

record scope_configuration =
  sc_price_feed :: pubkey
  sc_price_chain :: "u16 list"
  sc_twap_chain :: "u16 list"

definition enc_scope_configuration :: "scope_configuration \<Rightarrow> bytes" where
  "enc_scope_configuration x =
     sc_price_feed x @
     enc_arr (to_le 2) (sc_price_chain x) @
     enc_arr (to_le 2) (sc_twap_chain x)"

definition dec_scope_configuration :: "bytes \<Rightarrow> scope_configuration" where
  "dec_scope_configuration bs =
     \<lparr>sc_price_feed = slice 0 32 bs,
      sc_price_chain = dec_arr 2 of_le 4 (slice 32 8 bs),
      sc_twap_chain = dec_arr 2 of_le 4 (slice 40 8 bs)\<rparr>"

definition wf_scope_configuration :: "scope_configuration \<Rightarrow> bool" where
  "wf_scope_configuration x \<longleftrightarrow>
     wf_bytes 32 (sc_price_feed x) \<and>
     wf_arr anything 4 (sc_price_chain x) \<and>
     wf_arr anything 4 (sc_twap_chain x)"

interpretation sc: pod 48 wf_scope_configuration enc_scope_configuration dec_scope_configuration
  by unfold_locales
    (auto simp: wf_scope_configuration_def enc_scope_configuration_def dec_scope_configuration_def wf_bytes_def
      slice_simps pod_simps simp del: One_nat_def)

declare sc.pod_field [pod_simps]

section \<open>\<open>SwitchboardConfiguration\<close>\<close>

record switchboard_configuration =
  sb_price_aggregator :: pubkey
  sb_twap_aggregator :: pubkey

definition enc_switchboard_configuration :: "switchboard_configuration \<Rightarrow> bytes" where
  "enc_switchboard_configuration x =
     sb_price_aggregator x @
     sb_twap_aggregator x"

definition dec_switchboard_configuration :: "bytes \<Rightarrow> switchboard_configuration" where
  "dec_switchboard_configuration bs =
     \<lparr>sb_price_aggregator = slice 0 32 bs,
      sb_twap_aggregator = slice 32 32 bs\<rparr>"

definition wf_switchboard_configuration :: "switchboard_configuration \<Rightarrow> bool" where
  "wf_switchboard_configuration x \<longleftrightarrow>
     wf_bytes 32 (sb_price_aggregator x) \<and>
     wf_bytes 32 (sb_twap_aggregator x)"

interpretation sb: pod 64 wf_switchboard_configuration enc_switchboard_configuration dec_switchboard_configuration
  by unfold_locales
    (auto simp: wf_switchboard_configuration_def enc_switchboard_configuration_def dec_switchboard_configuration_def wf_bytes_def
      slice_simps pod_simps simp del: One_nat_def)

declare sb.pod_field [pod_simps]

section \<open>\<open>PythConfiguration\<close>\<close>

record pyth_configuration =
  py_price :: pubkey

definition enc_pyth_configuration :: "pyth_configuration \<Rightarrow> bytes" where
  "enc_pyth_configuration x =
     py_price x"

definition dec_pyth_configuration :: "bytes \<Rightarrow> pyth_configuration" where
  "dec_pyth_configuration bs =
     \<lparr>py_price = slice 0 32 bs\<rparr>"

definition wf_pyth_configuration :: "pyth_configuration \<Rightarrow> bool" where
  "wf_pyth_configuration x \<longleftrightarrow>
     wf_bytes 32 (py_price x)"

interpretation py: pod 32 wf_pyth_configuration enc_pyth_configuration dec_pyth_configuration
  by unfold_locales
    (auto simp: wf_pyth_configuration_def enc_pyth_configuration_def dec_pyth_configuration_def wf_bytes_def
      slice_simps pod_simps simp del: One_nat_def)

declare py.pod_field [pod_simps]

section \<open>\<open>TokenInfo\<close>\<close>

interpretation p64_x19: pod 152 "wf_arr anything 19" "enc_arr (to_le 8 :: u64 \<Rightarrow> bytes)" "dec_arr 8 of_le 19"
  by (rule p64.array_pod) simp
declare p64_x19.pod_field [pod_simps]

record token_info =
  ti_name :: bytes
  ti_heuristic :: price_heuristic
  ti_max_twap_divergence_bps :: u64
  ti_max_age_price_seconds :: u64
  ti_max_age_twap_seconds :: u64
  ti_scope_configuration :: scope_configuration
  ti_switchboard_configuration :: switchboard_configuration
  ti_pyth_configuration :: pyth_configuration
  ti_block_price_usage :: u8
  ti_reserved :: bytes
  ti__padding :: "u64 list"

definition enc_token_info :: "token_info \<Rightarrow> bytes" where
  "enc_token_info x =
     ti_name x @
     enc_price_heuristic (ti_heuristic x) @
     to_le 8 (ti_max_twap_divergence_bps x) @
     to_le 8 (ti_max_age_price_seconds x) @
     to_le 8 (ti_max_age_twap_seconds x) @
     enc_scope_configuration (ti_scope_configuration x) @
     enc_switchboard_configuration (ti_switchboard_configuration x) @
     enc_pyth_configuration (ti_pyth_configuration x) @
     to_le 1 (ti_block_price_usage x) @
     ti_reserved x @
     enc_arr (to_le 8) (ti__padding x)"

definition dec_token_info :: "bytes \<Rightarrow> token_info" where
  "dec_token_info bs =
     \<lparr>ti_name = slice 0 32 bs,
      ti_heuristic = dec_price_heuristic (slice 32 24 bs),
      ti_max_twap_divergence_bps = of_le (slice 56 8 bs),
      ti_max_age_price_seconds = of_le (slice 64 8 bs),
      ti_max_age_twap_seconds = of_le (slice 72 8 bs),
      ti_scope_configuration = dec_scope_configuration (slice 80 48 bs),
      ti_switchboard_configuration = dec_switchboard_configuration (slice 128 64 bs),
      ti_pyth_configuration = dec_pyth_configuration (slice 192 32 bs),
      ti_block_price_usage = of_le (slice 224 1 bs),
      ti_reserved = slice 225 7 bs,
      ti__padding = dec_arr 8 of_le 19 (slice 232 152 bs)\<rparr>"

definition wf_token_info :: "token_info \<Rightarrow> bool" where
  "wf_token_info x \<longleftrightarrow>
     wf_bytes 32 (ti_name x) \<and>
     wf_price_heuristic (ti_heuristic x) \<and>
     wf_scope_configuration (ti_scope_configuration x) \<and>
     wf_switchboard_configuration (ti_switchboard_configuration x) \<and>
     wf_pyth_configuration (ti_pyth_configuration x) \<and>
     wf_bytes 7 (ti_reserved x) \<and>
     wf_arr anything 19 (ti__padding x)"

interpretation ti: pod 384 wf_token_info enc_token_info dec_token_info
  by unfold_locales
    (auto simp: wf_token_info_def enc_token_info_def dec_token_info_def wf_bytes_def
      slice_simps pod_simps simp del: One_nat_def)

declare ti.pod_field [pod_simps]

section \<open>\<open>WithdrawalCaps\<close>\<close>

record withdrawal_caps =
  wc_config_capacity :: i64
  wc_current_total :: i64
  wc_last_interval_start_timestamp :: u64
  wc_config_interval_length_seconds :: u64

definition enc_withdrawal_caps :: "withdrawal_caps \<Rightarrow> bytes" where
  "enc_withdrawal_caps x =
     to_le 8 (wc_config_capacity x) @
     to_le 8 (wc_current_total x) @
     to_le 8 (wc_last_interval_start_timestamp x) @
     to_le 8 (wc_config_interval_length_seconds x)"

definition dec_withdrawal_caps :: "bytes \<Rightarrow> withdrawal_caps" where
  "dec_withdrawal_caps bs =
     \<lparr>wc_config_capacity = of_le (slice 0 8 bs),
      wc_current_total = of_le (slice 8 8 bs),
      wc_last_interval_start_timestamp = of_le (slice 16 8 bs),
      wc_config_interval_length_seconds = of_le (slice 24 8 bs)\<rparr>"

definition wf_withdrawal_caps :: "withdrawal_caps \<Rightarrow> bool" where
  "wf_withdrawal_caps x \<longleftrightarrow> True"

interpretation wc: pod 32 wf_withdrawal_caps enc_withdrawal_caps dec_withdrawal_caps
  by unfold_locales
    (auto simp: wf_withdrawal_caps_def enc_withdrawal_caps_def dec_withdrawal_caps_def wf_bytes_def
      slice_simps pod_simps simp del: One_nat_def)

declare wc.pod_field [pod_simps]

section \<open>\<open>ReserveConfig\<close>\<close>

interpretation p64_x32: pod 256 "wf_arr anything 32" "enc_arr (to_le 8 :: u64 \<Rightarrow> bytes)" "dec_arr 8 of_le 32"
  by (rule p64.array_pod) simp
declare p64_x32.pod_field [pod_simps]

record reserve_config =
  cf_status :: u8
  cf_padding_deprecated_asset_tier :: u8
  cf_host_fixed_interest_rate_bps :: u16
  cf_min_deleveraging_bonus_bps :: u16
  cf_block_ctoken_usage :: u8
  cf_early_repay_remaining_interest_pct :: u8
  cf_emergency_mode :: u8
  cf_reserved_1 :: bytes
  cf_protocol_order_execution_fee_pct :: u8
  cf_protocol_take_rate_pct :: u8
  cf_protocol_liquidation_fee_pct :: u8
  cf_loan_to_value_pct :: u8
  cf_liquidation_threshold_pct :: u8
  cf_min_liquidation_bonus_bps :: u16
  cf_max_liquidation_bonus_bps :: u16
  cf_bad_debt_liquidation_bonus_bps :: u16
  cf_deleveraging_margin_call_period_secs :: u64
  cf_deleveraging_threshold_decrease_bps_per_day :: u64
  cf_fees :: reserve_fees
  cf_borrow_rate_curve :: borrow_rate_curve
  cf_borrow_factor_pct :: u64
  cf_deposit_limit :: u64
  cf_borrow_limit :: u64
  cf_token_info :: token_info
  cf_deposit_withdrawal_cap :: withdrawal_caps
  cf_debt_withdrawal_cap :: withdrawal_caps
  cf_elevation_groups :: bytes
  cf_disable_usage_as_coll_outside_emode :: u8
  cf_utilization_limit_block_borrowing_above_pct :: u8
  cf_autodeleverage_enabled :: u8
  cf_proposer_authority_locked :: u8
  cf_borrow_limit_outside_elevation_group :: u64
  cf_borrow_limit_against_this_collateral_in_elevation_group :: "u64 list"
  cf_deleveraging_bonus_increase_bps_per_day :: u64
  cf_debt_maturity_timestamp :: u64
  cf_debt_term_seconds :: u64
  cf_rewards_amount_per_slot :: u64
  cf_permissioned_ops :: u64

definition enc_reserve_config :: "reserve_config \<Rightarrow> bytes" where
  "enc_reserve_config x =
     to_le 1 (cf_status x) @
     to_le 1 (cf_padding_deprecated_asset_tier x) @
     to_le 2 (cf_host_fixed_interest_rate_bps x) @
     to_le 2 (cf_min_deleveraging_bonus_bps x) @
     to_le 1 (cf_block_ctoken_usage x) @
     to_le 1 (cf_early_repay_remaining_interest_pct x) @
     to_le 1 (cf_emergency_mode x) @
     cf_reserved_1 x @
     to_le 1 (cf_protocol_order_execution_fee_pct x) @
     to_le 1 (cf_protocol_take_rate_pct x) @
     to_le 1 (cf_protocol_liquidation_fee_pct x) @
     to_le 1 (cf_loan_to_value_pct x) @
     to_le 1 (cf_liquidation_threshold_pct x) @
     to_le 2 (cf_min_liquidation_bonus_bps x) @
     to_le 2 (cf_max_liquidation_bonus_bps x) @
     to_le 2 (cf_bad_debt_liquidation_bonus_bps x) @
     to_le 8 (cf_deleveraging_margin_call_period_secs x) @
     to_le 8 (cf_deleveraging_threshold_decrease_bps_per_day x) @
     enc_reserve_fees (cf_fees x) @
     enc_borrow_rate_curve (cf_borrow_rate_curve x) @
     to_le 8 (cf_borrow_factor_pct x) @
     to_le 8 (cf_deposit_limit x) @
     to_le 8 (cf_borrow_limit x) @
     enc_token_info (cf_token_info x) @
     enc_withdrawal_caps (cf_deposit_withdrawal_cap x) @
     enc_withdrawal_caps (cf_debt_withdrawal_cap x) @
     cf_elevation_groups x @
     to_le 1 (cf_disable_usage_as_coll_outside_emode x) @
     to_le 1 (cf_utilization_limit_block_borrowing_above_pct x) @
     to_le 1 (cf_autodeleverage_enabled x) @
     to_le 1 (cf_proposer_authority_locked x) @
     to_le 8 (cf_borrow_limit_outside_elevation_group x) @
     enc_arr (to_le 8) (cf_borrow_limit_against_this_collateral_in_elevation_group x) @
     to_le 8 (cf_deleveraging_bonus_increase_bps_per_day x) @
     to_le 8 (cf_debt_maturity_timestamp x) @
     to_le 8 (cf_debt_term_seconds x) @
     to_le 8 (cf_rewards_amount_per_slot x) @
     to_le 8 (cf_permissioned_ops x)"

definition dec_reserve_config :: "bytes \<Rightarrow> reserve_config" where
  "dec_reserve_config bs =
     \<lparr>cf_status = of_le (slice 0 1 bs),
      cf_padding_deprecated_asset_tier = of_le (slice 1 1 bs),
      cf_host_fixed_interest_rate_bps = of_le (slice 2 2 bs),
      cf_min_deleveraging_bonus_bps = of_le (slice 4 2 bs),
      cf_block_ctoken_usage = of_le (slice 6 1 bs),
      cf_early_repay_remaining_interest_pct = of_le (slice 7 1 bs),
      cf_emergency_mode = of_le (slice 8 1 bs),
      cf_reserved_1 = slice 9 4 bs,
      cf_protocol_order_execution_fee_pct = of_le (slice 13 1 bs),
      cf_protocol_take_rate_pct = of_le (slice 14 1 bs),
      cf_protocol_liquidation_fee_pct = of_le (slice 15 1 bs),
      cf_loan_to_value_pct = of_le (slice 16 1 bs),
      cf_liquidation_threshold_pct = of_le (slice 17 1 bs),
      cf_min_liquidation_bonus_bps = of_le (slice 18 2 bs),
      cf_max_liquidation_bonus_bps = of_le (slice 20 2 bs),
      cf_bad_debt_liquidation_bonus_bps = of_le (slice 22 2 bs),
      cf_deleveraging_margin_call_period_secs = of_le (slice 24 8 bs),
      cf_deleveraging_threshold_decrease_bps_per_day = of_le (slice 32 8 bs),
      cf_fees = dec_reserve_fees (slice 40 24 bs),
      cf_borrow_rate_curve = dec_borrow_rate_curve (slice 64 88 bs),
      cf_borrow_factor_pct = of_le (slice 152 8 bs),
      cf_deposit_limit = of_le (slice 160 8 bs),
      cf_borrow_limit = of_le (slice 168 8 bs),
      cf_token_info = dec_token_info (slice 176 384 bs),
      cf_deposit_withdrawal_cap = dec_withdrawal_caps (slice 560 32 bs),
      cf_debt_withdrawal_cap = dec_withdrawal_caps (slice 592 32 bs),
      cf_elevation_groups = slice 624 20 bs,
      cf_disable_usage_as_coll_outside_emode = of_le (slice 644 1 bs),
      cf_utilization_limit_block_borrowing_above_pct = of_le (slice 645 1 bs),
      cf_autodeleverage_enabled = of_le (slice 646 1 bs),
      cf_proposer_authority_locked = of_le (slice 647 1 bs),
      cf_borrow_limit_outside_elevation_group = of_le (slice 648 8 bs),
      cf_borrow_limit_against_this_collateral_in_elevation_group = dec_arr 8 of_le 32 (slice 656 256 bs),
      cf_deleveraging_bonus_increase_bps_per_day = of_le (slice 912 8 bs),
      cf_debt_maturity_timestamp = of_le (slice 920 8 bs),
      cf_debt_term_seconds = of_le (slice 928 8 bs),
      cf_rewards_amount_per_slot = of_le (slice 936 8 bs),
      cf_permissioned_ops = of_le (slice 944 8 bs)\<rparr>"

definition wf_reserve_config :: "reserve_config \<Rightarrow> bool" where
  "wf_reserve_config x \<longleftrightarrow>
     wf_bytes 4 (cf_reserved_1 x) \<and>
     wf_reserve_fees (cf_fees x) \<and>
     wf_borrow_rate_curve (cf_borrow_rate_curve x) \<and>
     wf_token_info (cf_token_info x) \<and>
     wf_withdrawal_caps (cf_deposit_withdrawal_cap x) \<and>
     wf_withdrawal_caps (cf_debt_withdrawal_cap x) \<and>
     wf_bytes 20 (cf_elevation_groups x) \<and>
     wf_arr anything 32 (cf_borrow_limit_against_this_collateral_in_elevation_group x)"

interpretation cf: pod 952 wf_reserve_config enc_reserve_config dec_reserve_config
  by unfold_locales
    (auto simp: wf_reserve_config_def enc_reserve_config_def dec_reserve_config_def wf_bytes_def
      slice_simps pod_simps simp del: One_nat_def)

declare cf.pod_field [pod_simps]

section \<open>\<open>WithdrawQueue\<close>\<close>

record withdraw_queue =
  wq_queued_collateral_amount :: u64
  wq_next_issued_ticket_sequence_number :: u64
  wq_next_withdrawable_ticket_sequence_number :: u64

definition enc_withdraw_queue :: "withdraw_queue \<Rightarrow> bytes" where
  "enc_withdraw_queue x =
     to_le 8 (wq_queued_collateral_amount x) @
     to_le 8 (wq_next_issued_ticket_sequence_number x) @
     to_le 8 (wq_next_withdrawable_ticket_sequence_number x)"

definition dec_withdraw_queue :: "bytes \<Rightarrow> withdraw_queue" where
  "dec_withdraw_queue bs =
     \<lparr>wq_queued_collateral_amount = of_le (slice 0 8 bs),
      wq_next_issued_ticket_sequence_number = of_le (slice 8 8 bs),
      wq_next_withdrawable_ticket_sequence_number = of_le (slice 16 8 bs)\<rparr>"

definition wf_withdraw_queue :: "withdraw_queue \<Rightarrow> bool" where
  "wf_withdraw_queue x \<longleftrightarrow> True"

interpretation wq: pod 24 wf_withdraw_queue enc_withdraw_queue dec_withdraw_queue
  by unfold_locales
    (auto simp: wf_withdraw_queue_def enc_withdraw_queue_def dec_withdraw_queue_def wf_bytes_def
      slice_simps pod_simps simp del: One_nat_def)

declare wq.pod_field [pod_simps]

section \<open>\<open>Reserve\<close>\<close>

interpretation p64_x150: pod 1200 "wf_arr anything 150" "enc_arr (to_le 8 :: u64 \<Rightarrow> bytes)" "dec_arr 8 of_le 150"
  by (rule p64.array_pod) simp
declare p64_x150.pod_field [pod_simps]

interpretation p64_x112: pod 896 "wf_arr anything 112" "enc_arr (to_le 8 :: u64 \<Rightarrow> bytes)" "dec_arr 8 of_le 112"
  by (rule p64.array_pod) simp
declare p64_x112.pod_field [pod_simps]

interpretation p64_x204: pod 1632 "wf_arr anything 204" "enc_arr (to_le 8 :: u64 \<Rightarrow> bytes)" "dec_arr 8 of_le 204"
  by (rule p64.array_pod) simp
declare p64_x204.pod_field [pod_simps]

record reserve =
  rs_version :: u64
  rs_last_update :: last_update
  rs_lending_market :: pubkey
  rs_farm_collateral :: pubkey
  rs_farm_debt :: pubkey
  rs_liquidity :: reserve_liquidity
  rs_reserve_liquidity_padding :: "u64 list"
  rs_collateral :: reserve_collateral
  rs_reserve_collateral_padding :: "u64 list"
  rs_config :: reserve_config
  rs_config_padding :: "u64 list"
  rs_borrowed_amount_outside_elevation_group :: u64
  rs_borrowed_amounts_against_this_reserve_in_elevation_groups :: "u64 list"
  rs_withdraw_queue :: withdraw_queue
  rs_padding :: "u64 list"

definition enc_reserve :: "reserve \<Rightarrow> bytes" where
  "enc_reserve x =
     to_le 8 (rs_version x) @
     enc_last_update (rs_last_update x) @
     rs_lending_market x @
     rs_farm_collateral x @
     rs_farm_debt x @
     enc_reserve_liquidity (rs_liquidity x) @
     enc_arr (to_le 8) (rs_reserve_liquidity_padding x) @
     enc_reserve_collateral (rs_collateral x) @
     enc_arr (to_le 8) (rs_reserve_collateral_padding x) @
     enc_reserve_config (rs_config x) @
     enc_arr (to_le 8) (rs_config_padding x) @
     to_le 8 (rs_borrowed_amount_outside_elevation_group x) @
     enc_arr (to_le 8) (rs_borrowed_amounts_against_this_reserve_in_elevation_groups x) @
     enc_withdraw_queue (rs_withdraw_queue x) @
     enc_arr (to_le 8) (rs_padding x)"

definition dec_reserve :: "bytes \<Rightarrow> reserve" where
  "dec_reserve bs =
     \<lparr>rs_version = of_le (slice 0 8 bs),
      rs_last_update = dec_last_update (slice 8 16 bs),
      rs_lending_market = slice 24 32 bs,
      rs_farm_collateral = slice 56 32 bs,
      rs_farm_debt = slice 88 32 bs,
      rs_liquidity = dec_reserve_liquidity (slice 120 1232 bs),
      rs_reserve_liquidity_padding = dec_arr 8 of_le 150 (slice 1352 1200 bs),
      rs_collateral = dec_reserve_collateral (slice 2552 1096 bs),
      rs_reserve_collateral_padding = dec_arr 8 of_le 150 (slice 3648 1200 bs),
      rs_config = dec_reserve_config (slice 4848 952 bs),
      rs_config_padding = dec_arr 8 of_le 112 (slice 5800 896 bs),
      rs_borrowed_amount_outside_elevation_group = of_le (slice 6696 8 bs),
      rs_borrowed_amounts_against_this_reserve_in_elevation_groups = dec_arr 8 of_le 32 (slice 6704 256 bs),
      rs_withdraw_queue = dec_withdraw_queue (slice 6960 24 bs),
      rs_padding = dec_arr 8 of_le 204 (slice 6984 1632 bs)\<rparr>"

definition wf_reserve :: "reserve \<Rightarrow> bool" where
  "wf_reserve x \<longleftrightarrow>
     wf_last_update (rs_last_update x) \<and>
     wf_bytes 32 (rs_lending_market x) \<and>
     wf_bytes 32 (rs_farm_collateral x) \<and>
     wf_bytes 32 (rs_farm_debt x) \<and>
     wf_reserve_liquidity (rs_liquidity x) \<and>
     wf_arr anything 150 (rs_reserve_liquidity_padding x) \<and>
     wf_reserve_collateral (rs_collateral x) \<and>
     wf_arr anything 150 (rs_reserve_collateral_padding x) \<and>
     wf_reserve_config (rs_config x) \<and>
     wf_arr anything 112 (rs_config_padding x) \<and>
     wf_arr anything 32 (rs_borrowed_amounts_against_this_reserve_in_elevation_groups x) \<and>
     wf_withdraw_queue (rs_withdraw_queue x) \<and>
     wf_arr anything 204 (rs_padding x)"

interpretation rs: pod 8616 wf_reserve enc_reserve dec_reserve
  by unfold_locales
    (auto simp: wf_reserve_def enc_reserve_def dec_reserve_def wf_bytes_def
      slice_simps pod_simps simp del: One_nat_def)

declare rs.pod_field [pod_simps]

end
