(* ===== verification/State_Misc.thy ===== *)
theory State_Misc
  imports State_Obligation
begin

text \<open>
  The remaining accounts of the program: global configuration, referral accounts and
  withdraw tickets (\<open>vendor/klend-interface/src/state/global_config.rs\<close>,
  \<open>referral.rs\<close>, \<open>withdraw_ticket.rs\<close>), in the form of \<open>State_Obligation\<close>.
\<close>

section \<open>\<open>GlobalConfig\<close>\<close>

record global_config =
  gc_global_admin :: pubkey
  gc_pending_admin :: pubkey
  gc_fee_collector :: pubkey
  gc_padding :: bytes

definition enc_global_config :: "global_config \<Rightarrow> bytes" where
  "enc_global_config x =
     gc_global_admin x @
     gc_pending_admin x @
     gc_fee_collector x @
     gc_padding x"

definition dec_global_config :: "bytes \<Rightarrow> global_config" where
  "dec_global_config bs =
     \<lparr>gc_global_admin = slice 0 32 bs,
      gc_pending_admin = slice 32 32 bs,
      gc_fee_collector = slice 64 32 bs,
      gc_padding = slice 96 928 bs\<rparr>"

definition wf_global_config :: "global_config \<Rightarrow> bool" where
  "wf_global_config x \<longleftrightarrow>
     wf_bytes 32 (gc_global_admin x) \<and>
     wf_bytes 32 (gc_pending_admin x) \<and>
     wf_bytes 32 (gc_fee_collector x) \<and>
     wf_bytes 928 (gc_padding x)"

interpretation gc: pod 1024 wf_global_config enc_global_config dec_global_config
  by unfold_locales
    (auto simp: wf_global_config_def enc_global_config_def dec_global_config_def wf_bytes_def
      slice_simps pod_simps simp del: One_nat_def)

declare gc.pod_field [pod_simps]

section \<open>\<open>ReferrerTokenState\<close>\<close>

interpretation p64_x31: pod 248 "wf_arr anything 31" "enc_arr (to_le 8 :: u64 \<Rightarrow> bytes)" "dec_arr 8 of_le 31"
  by (rule p64.array_pod) simp
declare p64_x31.pod_field [pod_simps]

record referrer_token_state =
  rts_referrer :: pubkey
  rts_mint :: pubkey
  rts_amount_unclaimed_sf :: pod_u128
  rts_amount_cumulative_sf :: pod_u128
  rts_bump :: u64
  rts_padding :: "u64 list"

definition enc_referrer_token_state :: "referrer_token_state \<Rightarrow> bytes" where
  "enc_referrer_token_state x =
     rts_referrer x @
     rts_mint x @
     pod_bytes (rts_amount_unclaimed_sf x) @
     pod_bytes (rts_amount_cumulative_sf x) @
     to_le 8 (rts_bump x) @
     enc_arr (to_le 8) (rts_padding x)"

definition dec_referrer_token_state :: "bytes \<Rightarrow> referrer_token_state" where
  "dec_referrer_token_state bs =
     \<lparr>rts_referrer = slice 0 32 bs,
      rts_mint = slice 32 32 bs,
      rts_amount_unclaimed_sf = PodU128 (slice 64 16 bs),
      rts_amount_cumulative_sf = PodU128 (slice 80 16 bs),
      rts_bump = of_le (slice 96 8 bs),
      rts_padding = dec_arr 8 of_le 31 (slice 104 248 bs)\<rparr>"

definition wf_referrer_token_state :: "referrer_token_state \<Rightarrow> bool" where
  "wf_referrer_token_state x \<longleftrightarrow>
     wf_bytes 32 (rts_referrer x) \<and>
     wf_bytes 32 (rts_mint x) \<and>
     wf_pod_u128 (rts_amount_unclaimed_sf x) \<and>
     wf_pod_u128 (rts_amount_cumulative_sf x) \<and>
     wf_arr anything 31 (rts_padding x)"

interpretation rts: pod 352 wf_referrer_token_state enc_referrer_token_state dec_referrer_token_state
  by unfold_locales
    (auto simp: wf_referrer_token_state_def enc_referrer_token_state_def dec_referrer_token_state_def wf_bytes_def
      slice_simps pod_simps simp del: One_nat_def)

declare rts.pod_field [pod_simps]

section \<open>\<open>UserMetadata\<close>\<close>

interpretation p64_x51: pod 408 "wf_arr anything 51" "enc_arr (to_le 8 :: u64 \<Rightarrow> bytes)" "dec_arr 8 of_le 51"
  by (rule p64.array_pod) simp
declare p64_x51.pod_field [pod_simps]

interpretation p64_x64: pod 512 "wf_arr anything 64" "enc_arr (to_le 8 :: u64 \<Rightarrow> bytes)" "dec_arr 8 of_le 64"
  by (rule p64.array_pod) simp
declare p64_x64.pod_field [pod_simps]

record user_metadata =
  um_referrer :: pubkey
  um_bump :: u64
  um_user_lookup_table :: pubkey
  um_owner :: pubkey
  um_padding_1 :: "u64 list"
  um_padding_2 :: "u64 list"

definition enc_user_metadata :: "user_metadata \<Rightarrow> bytes" where
  "enc_user_metadata x =
     um_referrer x @
     to_le 8 (um_bump x) @
     um_user_lookup_table x @
     um_owner x @
     enc_arr (to_le 8) (um_padding_1 x) @
     enc_arr (to_le 8) (um_padding_2 x)"

definition dec_user_metadata :: "bytes \<Rightarrow> user_metadata" where
  "dec_user_metadata bs =
     \<lparr>um_referrer = slice 0 32 bs,
      um_bump = of_le (slice 32 8 bs),
      um_user_lookup_table = slice 40 32 bs,
      um_owner = slice 72 32 bs,
      um_padding_1 = dec_arr 8 of_le 51 (slice 104 408 bs),
      um_padding_2 = dec_arr 8 of_le 64 (slice 512 512 bs)\<rparr>"

definition wf_user_metadata :: "user_metadata \<Rightarrow> bool" where
  "wf_user_metadata x \<longleftrightarrow>
     wf_bytes 32 (um_referrer x) \<and>
     wf_bytes 32 (um_user_lookup_table x) \<and>
     wf_bytes 32 (um_owner x) \<and>
     wf_arr anything 51 (um_padding_1 x) \<and>
     wf_arr anything 64 (um_padding_2 x)"

interpretation um: pod 1024 wf_user_metadata enc_user_metadata dec_user_metadata
  by unfold_locales
    (auto simp: wf_user_metadata_def enc_user_metadata_def dec_user_metadata_def wf_bytes_def
      slice_simps pod_simps simp del: One_nat_def)

declare um.pod_field [pod_simps]

section \<open>\<open>ReferrerState\<close>\<close>

record referrer_state =
  rst_short_url :: pubkey
  rst_owner :: pubkey

definition enc_referrer_state :: "referrer_state \<Rightarrow> bytes" where
  "enc_referrer_state x =
     rst_short_url x @
     rst_owner x"

definition dec_referrer_state :: "bytes \<Rightarrow> referrer_state" where
  "dec_referrer_state bs =
     \<lparr>rst_short_url = slice 0 32 bs,
      rst_owner = slice 32 32 bs\<rparr>"

definition wf_referrer_state :: "referrer_state \<Rightarrow> bool" where
  "wf_referrer_state x \<longleftrightarrow>
     wf_bytes 32 (rst_short_url x) \<and>
     wf_bytes 32 (rst_owner x)"

interpretation rst: pod 64 wf_referrer_state enc_referrer_state dec_referrer_state
  by unfold_locales
    (auto simp: wf_referrer_state_def enc_referrer_state_def dec_referrer_state_def wf_bytes_def
      slice_simps pod_simps simp del: One_nat_def)

declare rst.pod_field [pod_simps]

section \<open>\<open>WithdrawTicket\<close>\<close>

interpretation pkey_x2: pod 64 "wf_arr (wf_bytes 32) 2" "enc_arr (\<lambda>k. k)" "dec_arr 32 (\<lambda>k. k) 2"
  by (rule pkey.array_pod) simp
declare pkey_x2.pod_field [pod_simps]

interpretation p64_x40: pod 320 "wf_arr anything 40" "enc_arr (to_le 8 :: u64 \<Rightarrow> bytes)" "dec_arr 8 of_le 40"
  by (rule p64.array_pod) simp
declare p64_x40.pod_field [pod_simps]

record withdraw_ticket =
  wt_sequence_number :: u64
  wt_owner :: pubkey
  wt_reserve :: pubkey
  wt_user_destination_liquidity_ta :: pubkey
  wt_queued_collateral_amount :: u64
  wt_created_at_timestamp :: u64
  wt_invalid :: u8
  wt_progress_callback_type :: u8
  wt_alignment_padding :: bytes
  wt_progress_callback_custom_accounts :: "pubkey list"
  wt_end_padding :: "u64 list"

definition enc_withdraw_ticket :: "withdraw_ticket \<Rightarrow> bytes" where
  "enc_withdraw_ticket x =
     to_le 8 (wt_sequence_number x) @
     wt_owner x @
     wt_reserve x @
     wt_user_destination_liquidity_ta x @
     to_le 8 (wt_queued_collateral_amount x) @
     to_le 8 (wt_created_at_timestamp x) @
     to_le 1 (wt_invalid x) @
     to_le 1 (wt_progress_callback_type x) @
     wt_alignment_padding x @
     enc_arr (\<lambda>k. k) (wt_progress_callback_custom_accounts x) @
     enc_arr (to_le 8) (wt_end_padding x)"

definition dec_withdraw_ticket :: "bytes \<Rightarrow> withdraw_ticket" where
  "dec_withdraw_ticket bs =
     \<lparr>wt_sequence_number = of_le (slice 0 8 bs),
      wt_owner = slice 8 32 bs,
      wt_reserve = slice 40 32 bs,
      wt_user_destination_liquidity_ta = slice 72 32 bs,
      wt_queued_collateral_amount = of_le (slice 104 8 bs),
      wt_created_at_timestamp = of_le (slice 112 8 bs),
      wt_invalid = of_le (slice 120 1 bs),
      wt_progress_callback_type = of_le (slice 121 1 bs),
      wt_alignment_padding = slice 122 6 bs,
      wt_progress_callback_custom_accounts = dec_arr 32 (\<lambda>k. k) 2 (slice 128 64 bs),
      wt_end_padding = dec_arr 8 of_le 40 (slice 192 320 bs)\<rparr>"

definition wf_withdraw_ticket :: "withdraw_ticket \<Rightarrow> bool" where
  "wf_withdraw_ticket x \<longleftrightarrow>
     wf_bytes 32 (wt_owner x) \<and>
     wf_bytes 32 (wt_reserve x) \<and>
     wf_bytes 32 (wt_user_destination_liquidity_ta x) \<and>
     wf_bytes 6 (wt_alignment_padding x) \<and>
     wf_arr (wf_bytes 32) 2 (wt_progress_callback_custom_accounts x) \<and>
     wf_arr anything 40 (wt_end_padding x)"

interpretation wt: pod 512 wf_withdraw_ticket enc_withdraw_ticket dec_withdraw_ticket
  by unfold_locales
    (auto simp: wf_withdraw_ticket_def enc_withdraw_ticket_def dec_withdraw_ticket_def wf_bytes_def
      slice_simps pod_simps simp del: One_nat_def)

declare wt.pod_field [pod_simps]

end
