(* ===== verification/Accounts.thy ===== *)
theory Accounts
  imports Schema State_Obligation State_Market State_Reserve State_Misc
begin

text \<open>
  The checked cast \<open>from_account_data\<close> and the accessor methods of the account structs
  (\<open>vendor/klend-interface/src/state\<close>). A method \<open>m\<close> of a struct \<open>S\<close> is named \<open>S_m\<close>.

  Two parameters stand for third-party code: \<open>cast\<close> is the verdict of
  \<open>bytemuck::try_from_bytes\<close> on a payload of the right size (it can only reject the
  alignment of the memory the bytes sit in), and \<open>disc\<close> is the constant that
  \<open>spl_discriminator\<close> derives for the struct.
\<close>

section \<open>\<open>from_account_data\<close>\<close>

definition DISCRIMINATOR_SIZE :: nat where [const_defs]:
  "DISCRIMINATOR_SIZE = 8"

datatype account_data_error =
    Data_Too_Short nat nat \<comment> \<open>expected, actual\<close>
  | Invalid_Discriminator bytes bytes \<comment> \<open>expected, actual\<close>
  | Alignment_Error

definition from_account_data ::
  "(bytes \<Rightarrow> bool) \<Rightarrow> bytes \<Rightarrow> nat \<Rightarrow> (bytes \<Rightarrow> 'a) \<Rightarrow> bytes \<Rightarrow> account_data_error + 'a" where
  "from_account_data cast disc sz dec data =
     (let expected_len = DISCRIMINATOR_SIZE + sz in
      if length data < expected_len then Inl (Data_Too_Short expected_len (length data))
      else let head = take DISCRIMINATOR_SIZE data in
        if head \<noteq> disc then Inl (Invalid_Discriminator disc head)
        else let payload = slice DISCRIMINATOR_SIZE sz data in
          if cast payload then Inr (dec payload) else Inl Alignment_Error)"

lemma from_account_data_Inr_iff:
  "from_account_data cast disc sz dec data = Inr v \<longleftrightarrow>
     8 + sz \<le> length data \<and> take 8 data = disc \<and> cast (slice 8 sz data)
     \<and> v = dec (slice 8 sz data)"
  by (auto simp: from_account_data_def Let_def const_defs)

lemma from_account_data_short_iff:
  "from_account_data cast disc sz dec data = Inl (Data_Too_Short e a) \<longleftrightarrow>
     length data < 8 + sz \<and> e = 8 + sz \<and> a = length data"
  by (auto simp: from_account_data_def Let_def const_defs)

lemma from_account_data_disc_iff:
  "from_account_data cast disc sz dec data = Inl (Invalid_Discriminator e a) \<longleftrightarrow>
     8 + sz \<le> length data \<and> e = disc \<and> a = take 8 data \<and> a \<noteq> disc"
  by (auto simp: from_account_data_def Let_def const_defs)

lemma from_account_data_align_iff:
  "from_account_data cast disc sz dec data = Inl Alignment_Error \<longleftrightarrow>
     8 + sz \<le> length data \<and> take 8 data = disc \<and> \<not> cast (slice 8 sz data)"
  by (auto simp: from_account_data_def Let_def const_defs)

context pod
begin

lemma from_account_data_image:
  "ok x \<Longrightarrow> length disc = 8 \<Longrightarrow> cast (enc x) \<Longrightarrow>
     from_account_data cast disc sz dec (disc @ enc x @ rest) = Inr x"
  by (auto simp: from_account_data_Inr_iff enc_length dec_enc slice_simps)

lemma from_account_data_inj:
  "from_account_data cast disc sz dec a = Inr x \<Longrightarrow> from_account_data cast disc sz dec b = Inr x
     \<Longrightarrow> take (8 + sz) a = take (8 + sz) b"
  unfolding from_account_data_Inr_iff
  by (metis add.commute dec_inj length_slice_le slice_def take_add)

lemma from_account_data_ok: "from_account_data cast disc sz dec data = Inr x \<Longrightarrow> ok x"
  by (auto simp: from_account_data_Inr_iff length_slice_le intro: dec_wf)

end

section \<open>\<open>Obligation\<close>\<close>

definition MAX_TAIL_BORROW_ORDERS :: nat where [const_defs]:
  "MAX_TAIL_BORROW_ORDERS = 2"

definition MAX_BORROW_ORDERS :: nat where [const_defs]:
  "MAX_BORROW_ORDERS = MAX_TAIL_BORROW_ORDERS + 1"

definition Obligation_num_deposits :: "obligation \<Rightarrow> nat" where
  "Obligation_num_deposits o1 =
     length (filter (\<lambda>d. oc_deposit_reserve d \<noteq> default_pubkey) (ob_deposits o1))"

definition Obligation_num_borrows :: "obligation \<Rightarrow> nat" where
  "Obligation_num_borrows o1 =
     length (filter (\<lambda>b. ol_borrow_reserve b \<noteq> default_pubkey) (ob_borrows o1))"

definition Obligation_deposited_value :: "obligation \<Rightarrow> u128" where
  "Obligation_deposited_value o1 = u128_of_pod (ob_deposited_value_sf o1)"

definition Obligation_allowed_borrow_value :: "obligation \<Rightarrow> u128" where
  "Obligation_allowed_borrow_value o1 = u128_of_pod (ob_allowed_borrow_value_sf o1)"

definition Obligation_unhealthy_borrow_value :: "obligation \<Rightarrow> u128" where
  "Obligation_unhealthy_borrow_value o1 = u128_of_pod (ob_unhealthy_borrow_value_sf o1)"

definition Obligation_borrow_factor_adjusted_debt_value :: "obligation \<Rightarrow> u128" where
  "Obligation_borrow_factor_adjusted_debt_value o1 =
     u128_of_pod (ob_borrow_factor_adjusted_debt_value_sf o1)"

definition Obligation_borrowed_assets_market_value :: "obligation \<Rightarrow> u128" where
  "Obligation_borrowed_assets_market_value o1 =
     u128_of_pod (ob_borrowed_assets_market_value_sf o1)"

definition Obligation_is_liquidatable :: "obligation \<Rightarrow> bool" where
  "Obligation_is_liquidatable o1 =
     (let debt = Obligation_borrow_factor_adjusted_debt_value o1;
          unhealthy = Obligation_unhealthy_borrow_value o1
      in unhealthy < debt \<and> 0 < unhealthy)"

definition Obligation_is_borrowing_disabled :: "obligation \<Rightarrow> bool" where
  "Obligation_is_borrowing_disabled o1 \<longleftrightarrow>
     Obligation_allowed_borrow_value o1 \<le> Obligation_borrow_factor_adjusted_debt_value o1"

text \<open>\<open>slice.get\<close> of the standard library.\<close>

definition list_get :: "'a list \<Rightarrow> nat \<Rightarrow> 'a option" where
  "list_get xs i = (if i < length xs then Some (xs ! i) else None)"

definition Obligation_get_borrow_order :: "obligation \<Rightarrow> nat \<Rightarrow> borrow_order option" where
  "Obligation_get_borrow_order o1 i =
     (if i = 0 then Some (ob_head_borrow_order o1)
      else list_get (ob_tail_borrow_orders o1) (i - 1))"

definition Obligation_borrow_orders :: "obligation \<Rightarrow> borrow_order list" where
  "Obligation_borrow_orders o1 = ob_head_borrow_order o1 # ob_tail_borrow_orders o1"

definition ObligationCollateral_is_active :: "obligation_collateral \<Rightarrow> bool" where
  "ObligationCollateral_is_active d \<longleftrightarrow> oc_deposit_reserve d \<noteq> default_pubkey"

definition ObligationCollateral_market_value :: "obligation_collateral \<Rightarrow> u128" where
  "ObligationCollateral_market_value d = u128_of_pod (oc_market_value_sf d)"

definition ObligationLiquidity_is_active :: "obligation_liquidity \<Rightarrow> bool" where
  "ObligationLiquidity_is_active b \<longleftrightarrow> ol_borrow_reserve b \<noteq> default_pubkey"

definition ObligationLiquidity_borrowed_amount :: "obligation_liquidity \<Rightarrow> u128" where
  "ObligationLiquidity_borrowed_amount b = u128_of_pod (ol_borrowed_amount_sf b)"

definition ObligationLiquidity_market_value :: "obligation_liquidity \<Rightarrow> u128" where
  "ObligationLiquidity_market_value b = u128_of_pod (ol_market_value_sf b)"

definition ObligationLiquidity_borrow_factor_adjusted_market_value :: "obligation_liquidity \<Rightarrow> u128" where
  "ObligationLiquidity_borrow_factor_adjusted_market_value b =
     u128_of_pod (ol_borrow_factor_adjusted_market_value_sf b)"

lemma get_borrow_order_nth: "Obligation_get_borrow_order o1 i = list_get (Obligation_borrow_orders o1) i"
  by (cases i) (auto simp: Obligation_get_borrow_order_def Obligation_borrow_orders_def list_get_def)

lemma num_deposits_le: "wf_obligation o1 \<Longrightarrow> Obligation_num_deposits o1 \<le> 8"
  by (auto simp: wf_obligation_def wf_arr_def Obligation_num_deposits_def intro: order_trans [OF length_filter_le])

lemma num_borrows_le: "wf_obligation o1 \<Longrightarrow> Obligation_num_borrows o1 \<le> 5"
  by (auto simp: wf_obligation_def wf_arr_def Obligation_num_borrows_def intro: order_trans [OF length_filter_le])

section \<open>\<open>LendingMarket\<close>\<close>

definition LendingMarket_is_emergency_mode :: "lending_market \<Rightarrow> bool" where
  "LendingMarket_is_emergency_mode m \<longleftrightarrow> lm_emergency_mode m \<noteq> 0"

definition LendingMarket_is_borrow_disabled :: "lending_market \<Rightarrow> bool" where
  "LendingMarket_is_borrow_disabled m \<longleftrightarrow> lm_borrow_disabled m \<noteq> 0"

definition LendingMarket_is_autodeleverage_enabled :: "lending_market \<Rightarrow> bool" where
  "LendingMarket_is_autodeleverage_enabled m \<longleftrightarrow> lm_autodeleverage_enabled m \<noteq> 0"

definition LendingMarket_liquidation_max_debt_close_factor_pct :: "lending_market \<Rightarrow> u8" where
  "LendingMarket_liquidation_max_debt_close_factor_pct m = lm_liquidation_max_debt_close_factor_pct m"

definition LendingMarket_min_full_liquidation_value_threshold :: "lending_market \<Rightarrow> u64" where
  "LendingMarket_min_full_liquidation_value_threshold m = lm_min_full_liquidation_value_threshold m"

definition LendingMarket_max_liquidatable_debt_market_value_at_once :: "lending_market \<Rightarrow> u64" where
  "LendingMarket_max_liquidatable_debt_market_value_at_once m = lm_max_liquidatable_debt_market_value_at_once m"

definition LendingMarket_referral_fee_bps :: "lending_market \<Rightarrow> u16" where
  "LendingMarket_referral_fee_bps m = lm_referral_fee_bps m"

definition LendingMarket_elevation_group :: "lending_market \<Rightarrow> nat \<Rightarrow> elevation_group option" where
  "LendingMarket_elevation_group m i = list_get (lm_elevation_groups m) i"

definition LendingMarket_is_immutable :: "lending_market \<Rightarrow> bool" where
  "LendingMarket_is_immutable m \<longleftrightarrow> lm_immutable m \<noteq> 0"

definition LendingMarket_is_withdraw_ticket_cancellation_enabled :: "lending_market \<Rightarrow> bool" where
  "LendingMarket_is_withdraw_ticket_cancellation_enabled m \<longleftrightarrow> lm_withdraw_ticket_cancellation_enabled m \<noteq> 0"

definition LendingMarket_is_nonce_block_disabled :: "lending_market \<Rightarrow> bool" where
  "LendingMarket_is_nonce_block_disabled m \<longleftrightarrow> lm_disable_nonce_block m \<noteq> 0"

definition LendingMarket_is_obligation_borrow_migration_to_fixed_execution_enabled :: "lending_market \<Rightarrow> bool" where
  "LendingMarket_is_obligation_borrow_migration_to_fixed_execution_enabled m \<longleftrightarrow> lm_obligation_borrow_migration_to_fixed_execution_enabled m \<noteq> 0"

section \<open>\<open>Reserve\<close>\<close>

definition Reserve_available_liquidity :: "reserve \<Rightarrow> u64" where
  "Reserve_available_liquidity r = rl_total_available_amount (rs_liquidity r)"

definition Reserve_borrowed_amount :: "reserve \<Rightarrow> u128" where
  "Reserve_borrowed_amount r = u128_of_pod (rl_borrowed_amount_sf (rs_liquidity r))"

definition Reserve_market_price :: "reserve \<Rightarrow> u128" where
  "Reserve_market_price r = u128_of_pod (rl_market_price_sf (rs_liquidity r))"

definition Reserve_mint_decimals :: "reserve \<Rightarrow> u64" where
  "Reserve_mint_decimals r = rl_mint_decimals (rs_liquidity r)"

definition Reserve_collateral_total_supply :: "reserve \<Rightarrow> u64" where
  "Reserve_collateral_total_supply r = rk_mint_total_supply (rs_collateral r)"

definition Reserve_accumulated_protocol_fees :: "reserve \<Rightarrow> u128" where
  "Reserve_accumulated_protocol_fees r = u128_of_pod (rl_accumulated_protocol_fees_sf (rs_liquidity r))"

definition Reserve_accumulated_referrer_fees :: "reserve \<Rightarrow> u128" where
  "Reserve_accumulated_referrer_fees r = u128_of_pod (rl_accumulated_referrer_fees_sf (rs_liquidity r))"

definition Reserve_status :: "reserve \<Rightarrow> u8" where
  "Reserve_status r = cf_status (rs_config r)"

definition Reserve_loan_to_value_pct :: "reserve \<Rightarrow> u8" where
  "Reserve_loan_to_value_pct r = cf_loan_to_value_pct (rs_config r)"

definition Reserve_liquidation_threshold_pct :: "reserve \<Rightarrow> u8" where
  "Reserve_liquidation_threshold_pct r = cf_liquidation_threshold_pct (rs_config r)"

definition Reserve_borrow_factor_pct :: "reserve \<Rightarrow> u64" where
  "Reserve_borrow_factor_pct r = cf_borrow_factor_pct (rs_config r)"

definition Reserve_deposit_limit :: "reserve \<Rightarrow> u64" where
  "Reserve_deposit_limit r = cf_deposit_limit (rs_config r)"

definition Reserve_borrow_limit :: "reserve \<Rightarrow> u64" where
  "Reserve_borrow_limit r = cf_borrow_limit (rs_config r)"

definition Reserve_next_withdraw_ticket_sequence_number :: "reserve \<Rightarrow> u64" where
  "Reserve_next_withdraw_ticket_sequence_number r = wq_next_issued_ticket_sequence_number (rs_withdraw_queue r)"

definition Reserve_is_emergency_mode :: "reserve \<Rightarrow> bool" where
  "Reserve_is_emergency_mode r \<longleftrightarrow> cf_emergency_mode (rs_config r) \<noteq> 0"

text \<open>
  \<open>core::str::from_utf8\<close> decides validity; the check is the standard library's, so the
  table of well-formed byte sequences is written out.
\<close>

definition utf8_cont :: "u8 \<Rightarrow> bool" where
  "utf8_cont b \<longleftrightarrow> 0x80 \<le> b \<and> b \<le> 0xbf"

fun utf8_valid :: "bytes \<Rightarrow> bool" where
  "utf8_valid [] = True"
| "utf8_valid (a # bs) =
     (if a < 0x80 then utf8_valid bs
      else case bs of
        [] \<Rightarrow> False
      | b # cs \<Rightarrow>
        if 0xc2 \<le> a \<and> a \<le> 0xdf then utf8_cont b \<and> utf8_valid cs
        else case cs of
          [] \<Rightarrow> False
        | c # ds \<Rightarrow>
          if 0xe0 \<le> a \<and> a \<le> 0xef then
            utf8_cont b \<and> utf8_cont c \<and> (a = 0xe0 \<longrightarrow> 0xa0 \<le> b) \<and> (a = 0xed \<longrightarrow> b \<le> 0x9f)
            \<and> utf8_valid ds
          else case ds of
            [] \<Rightarrow> False
          | d # es \<Rightarrow>
            0xf0 \<le> a \<and> a \<le> 0xf4 \<and> utf8_cont b \<and> utf8_cont c \<and> utf8_cont d
            \<and> (a = 0xf0 \<longrightarrow> 0x90 \<le> b) \<and> (a = 0xf4 \<longrightarrow> b \<le> 0x8f) \<and> utf8_valid es)"

fun position :: "('a \<Rightarrow> bool) \<Rightarrow> 'a list \<Rightarrow> nat option" where
  "position p [] = None"
| "position p (x # xs) = (if p x then Some 0 else map_option Suc (position p xs))"

definition TokenInfo_name_str :: "token_info \<Rightarrow> bytes option" where
  "TokenInfo_name_str t =
     (let end_pos = (case position (\<lambda>b. b = 0) (ti_name t) of Some i \<Rightarrow> i | None \<Rightarrow> length (ti_name t));
          prefix = take end_pos (ti_name t)
      in if utf8_valid prefix then Some prefix else None)"

lemma take_position:
  "take (case position p xs of Some i \<Rightarrow> i | None \<Rightarrow> length xs) xs = takeWhile (\<lambda>x. \<not> p x) xs"
  by (induction xs) (auto split: option.splits)

lemma ascii_utf8: "\<forall>b \<in> set bs. b < 0x80 \<Longrightarrow> utf8_valid bs"
  by (induction bs) auto

lemma name_str_takeWhile:
  "TokenInfo_name_str t =
     (let prefix = takeWhile (\<lambda>b. b \<noteq> 0) (ti_name t) in if utf8_valid prefix then Some prefix else None)"
  by (simp add: TokenInfo_name_str_def take_position)

section \<open>Referral accounts and withdraw tickets\<close>

definition ReferrerTokenState_amount_unclaimed :: "referrer_token_state \<Rightarrow> u128" where
  "ReferrerTokenState_amount_unclaimed r = u128_of_pod (rts_amount_unclaimed_sf r)"

definition ReferrerTokenState_amount_cumulative :: "referrer_token_state \<Rightarrow> u128" where
  "ReferrerTokenState_amount_cumulative r = u128_of_pod (rts_amount_cumulative_sf r)"

definition UserMetadata_referrer :: "user_metadata \<Rightarrow> pubkey option" where
  "UserMetadata_referrer u = (if um_referrer u = default_pubkey then None else Some (um_referrer u))"

definition WithdrawTicket_is_valid :: "withdraw_ticket \<Rightarrow> bool" where
  "WithdrawTicket_is_valid t \<longleftrightarrow> wt_invalid t = 0"

definition WithdrawTicket_is_fully_cancelled :: "withdraw_ticket \<Rightarrow> bool" where
  "WithdrawTicket_is_fully_cancelled t \<longleftrightarrow> wt_queued_collateral_amount t = 0"

section \<open>\<open>PermissionedOp\<close>\<close>

definition PermissionedOp_DEPOSIT :: u64 where [const_defs]: "PermissionedOp_DEPOSIT = push_bit 0 1"
definition PermissionedOp_BORROW :: u64 where [const_defs]: "PermissionedOp_BORROW = push_bit 1 1"
definition PermissionedOp_LIQUIDATE :: u64 where [const_defs]: "PermissionedOp_LIQUIDATE = push_bit 2 1"
definition PermissionedOp_NONE :: u64 where [const_defs]: "PermissionedOp_NONE = 0"

section \<open>Properties\<close>

text \<open>
  C15 The account structs are bit-exact images: for \<open>Obligation\<close>, \<open>LendingMarket\<close> and
  \<open>Reserve\<close>, a well-formed value has the size the source asserts at compile time, reading its
  image back gives the value, and every byte string of that size is the image of exactly the
  well-formed value the cast reads.
\<close>

theorem account_layouts:
  "(\<forall>x. wf_obligation x \<longrightarrow> length (enc_obligation x) = 3336 \<and> dec_obligation (enc_obligation x) = x)
   \<and> (\<forall>bs. length bs = 3336 \<longrightarrow> wf_obligation (dec_obligation bs) \<and> enc_obligation (dec_obligation bs) = bs)
   \<and> (\<forall>x. wf_lending_market x \<longrightarrow>
        length (enc_lending_market x) = 4656 \<and> dec_lending_market (enc_lending_market x) = x)
   \<and> (\<forall>bs. length bs = 4656 \<longrightarrow>
        wf_lending_market (dec_lending_market bs) \<and> enc_lending_market (dec_lending_market bs) = bs)
   \<and> (\<forall>x. wf_reserve x \<longrightarrow> length (enc_reserve x) = 8616 \<and> dec_reserve (enc_reserve x) = x)
   \<and> (\<forall>bs. length bs = 8616 \<longrightarrow> wf_reserve (dec_reserve bs) \<and> enc_reserve (dec_reserve bs) = bs)"
  using ob.enc_length ob.dec_enc ob.enc_dec ob.dec_wf lm.enc_length lm.dec_enc lm.enc_dec lm.dec_wf
    rs.enc_length rs.dec_enc rs.enc_dec rs.dec_wf
  by blast

theorem account_layouts_witness:
  "length (enc_obligation (dec_obligation (replicate 3336 7))) = 3336
   \<and> enc_reserve (dec_reserve (replicate 8616 9)) = replicate 8616 9"
  using account_layouts by (metis length_replicate)

text \<open>
  \<open>from_account_data\<close> on every branch: too short with the expected and actual sizes, a wrong
  discriminator with both byte strings, a misaligned payload, and otherwise the value at
  offset 8; so an account image behind its discriminator reads back as that account and the
  bytes after it do not matter.
\<close>

lemma from_account_data_branches:
  "from_account_data cast disc sz dec data =
     (if length data < 8 + sz then Inl (Data_Too_Short (8 + sz) (length data))
      else if take 8 data \<noteq> disc then Inl (Invalid_Discriminator disc (take 8 data))
      else if \<not> cast (slice 8 sz data) then Inl Alignment_Error
      else Inr (dec (slice 8 sz data)))
   \<and> (length disc = 8 \<longrightarrow> wf_obligation x \<longrightarrow> cast (enc_obligation x) \<longrightarrow>
        from_account_data cast disc 3336 dec_obligation (disc @ enc_obligation x @ rest) = Inr x)"
  using ob.from_account_data_image [of x disc cast rest]
  by (auto simp: from_account_data_def Let_def const_defs)

text \<open>
  The position counts and borrow orders of an obligation: at most eight deposits and five
  borrows are active, the orders are the head order and then the tail in index order, three
  in all, and indexing one past the end gives nothing.
\<close>

lemma obligation_positions:
  assumes "wf_obligation o1"
  shows "Obligation_num_deposits o1 \<le> 8 \<and> Obligation_num_borrows o1 \<le> 5
    \<and> length (Obligation_borrow_orders o1) = MAX_BORROW_ORDERS
    \<and> Obligation_get_borrow_order o1 i =
        (if i < MAX_BORROW_ORDERS then Some (Obligation_borrow_orders o1 ! i) else None)"
proof -
  have "length (Obligation_borrow_orders o1) = MAX_BORROW_ORDERS"
    using assms by (simp add: wf_obligation_def wf_arr_def Obligation_borrow_orders_def const_defs)
  then show ?thesis
    using assms by (simp add: num_deposits_le num_borrows_le get_borrow_order_nth list_get_def)
qed

end
