(* ===== verification/Decode.thy ===== *)
theory Decode
  imports Accounts
begin

text \<open>
  The field-level decoders of \<open>src/decode.rs\<close>. Each returns \<open>None\<close> when the payload is too
  short (or, for the lending market, carries another discriminator), \<open>Some (Inl _)\<close> when
  \<open>bytemuck\<close> rejects the cast, and \<open>Some (Inr _)\<close> otherwise. \<open>cast\<close> is that verdict and
  \<open>spl\<close> the discriminator constant derived from a hash input, as in \<open>Accounts\<close>.

  Arithmetic is on words: \<open>saturating_mul\<close> on 128 bits, then the truncating cast to 64.
\<close>

section \<open>\<open>ReserveLite\<close>\<close>

record reserve_lite =
  rt_version :: u64
  rt_last_update :: last_update
  rt_lending_market :: bytes
  rt_farm_collateral :: bytes
  rt_farm_debt :: bytes
  rt_liquidity :: reserve_liquidity

definition enc_reserve_lite :: "reserve_lite \<Rightarrow> bytes" where
  "enc_reserve_lite x =
     to_le 8 (rt_version x) @
     enc_last_update (rt_last_update x) @
     rt_lending_market x @
     rt_farm_collateral x @
     rt_farm_debt x @
     enc_reserve_liquidity (rt_liquidity x)"

definition dec_reserve_lite :: "bytes \<Rightarrow> reserve_lite" where
  "dec_reserve_lite bs =
     \<lparr>rt_version = of_le (slice 0 8 bs),
      rt_last_update = dec_last_update (slice 8 16 bs),
      rt_lending_market = slice 24 32 bs,
      rt_farm_collateral = slice 56 32 bs,
      rt_farm_debt = slice 88 32 bs,
      rt_liquidity = dec_reserve_liquidity (slice 120 1232 bs)\<rparr>"

definition wf_reserve_lite :: "reserve_lite \<Rightarrow> bool" where
  "wf_reserve_lite x \<longleftrightarrow>
     wf_last_update (rt_last_update x) \<and>
     wf_bytes 32 (rt_lending_market x) \<and>
     wf_bytes 32 (rt_farm_collateral x) \<and>
     wf_bytes 32 (rt_farm_debt x) \<and>
     wf_reserve_liquidity (rt_liquidity x)"

interpretation rt: pod 1352 wf_reserve_lite enc_reserve_lite dec_reserve_lite
  by unfold_locales
    (auto simp: wf_reserve_lite_def enc_reserve_lite_def dec_reserve_lite_def wf_bytes_def
      slice_simps pod_simps simp del: One_nat_def)

declare rt.pod_field [pod_simps]

section \<open>Obligations\<close>

record decoded_obligation =
  do_owner :: bytes
  do_lending_market :: bytes
  do_num_deposits :: u8
  do_deposited_value_sf :: u128
  do_lowest_deposit_liquidation_ltv :: u64
  do_num_borrows :: u8
  do_borrowed_assets_market_value_sf :: u128
  do_borrow_factor_adjusted_debt_value_sf :: u128
  do_allowed_borrow_value_sf :: u128
  do_unhealthy_borrow_value_sf :: u128
  do_health_factor_bps :: u64
  do_flags :: u8
  do_elevation_group :: u8
  do_referrer :: bytes

definition OBLIG_SIZE :: nat where [const_defs]:
  "OBLIG_SIZE = 3336"

text \<open>The quotient is computed in 128 bits and then cut to 64 (\<open>as u64\<close>).\<close>

definition health_factor :: "u128 \<Rightarrow> u128 \<Rightarrow> u8 \<Rightarrow> u64" where
  "health_factor deposited_value debt_adjusted has_debt =
     (if debt_adjusted = 0 \<or> has_debt = 0 then - 1
      else ucast (saturating_mul deposited_value 1000000 div debt_adjusted))"

definition obligation_flags :: "u8 \<Rightarrow> u8 \<Rightarrow> u64 \<Rightarrow> u8" where
  "obligation_flags has_debt elevation_group autodeleverage_ts =
     (let flags = 0;
          flags = (if has_debt \<noteq> 0 then flags OR 1 else flags);
          flags = (if elevation_group \<noteq> 0 then flags OR 2 else flags);
          flags = (if autodeleverage_ts \<noteq> 0 then flags OR 4 else flags)
      in flags)"

definition decoded_of_obligation :: "obligation \<Rightarrow> decoded_obligation" where
  "decoded_of_obligation obl =
     (let num_deposits = of_nat (Obligation_num_deposits obl);
          num_borrows = of_nat (Obligation_num_borrows obl);
          has_debt = ob_has_debt obl;
          deposited_value = u128_of_pod (ob_deposited_value_sf obl);
          borrowed_value = u128_of_pod (ob_borrowed_assets_market_value_sf obl);
          debt_adjusted = u128_of_pod (ob_borrow_factor_adjusted_debt_value_sf obl)
      in \<lparr>do_owner = ob_owner obl,
          do_lending_market = ob_lending_market obl,
          do_num_deposits = num_deposits,
          do_deposited_value_sf = deposited_value,
          do_lowest_deposit_liquidation_ltv = ob_lowest_reserve_deposit_liquidation_ltv obl,
          do_num_borrows = num_borrows,
          do_borrowed_assets_market_value_sf = borrowed_value,
          do_borrow_factor_adjusted_debt_value_sf = debt_adjusted,
          do_allowed_borrow_value_sf = u128_of_pod (ob_allowed_borrow_value_sf obl),
          do_unhealthy_borrow_value_sf = u128_of_pod (ob_unhealthy_borrow_value_sf obl),
          do_health_factor_bps = health_factor deposited_value debt_adjusted has_debt,
          do_flags = obligation_flags has_debt (ob_elevation_group obl)
            (ob_autodeleverage_margin_call_started_timestamp obl),
          do_elevation_group = ob_elevation_group obl,
          do_referrer = ob_referrer obl\<rparr>)"

definition decode_obligation :: "(bytes \<Rightarrow> bool) \<Rightarrow> bytes \<Rightarrow> (string + decoded_obligation) option" where
  "decode_obligation cast data =
     (if length data < DISCRIMINATOR_SIZE + OBLIG_SIZE then None
      else let payload = slice DISCRIMINATOR_SIZE OBLIG_SIZE data in
        if \<not> cast payload
        then Some (Inl ''bytemuck cast failed for Obligation (alignment or padding mismatch)'')
        else Some (Inr (decoded_of_obligation (dec_obligation payload))))"

section \<open>Lending markets\<close>

record decoded_lending_market =
  dm_owner :: bytes
  dm_quote_currency :: bytes
  dm_flags :: u8
  dm_referral_fee_bps :: u16
  dm_liquidation_max_debt_close_factor_pct :: u8
  dm_name :: bytes

definition market_flags :: "lending_market \<Rightarrow> u8" where
  "market_flags market =
     (let flags = 0;
          flags = (if LendingMarket_is_emergency_mode market then flags OR 1 else flags);
          flags = (if LendingMarket_is_autodeleverage_enabled market then flags OR 2 else flags);
          flags = (if LendingMarket_is_borrow_disabled market then flags OR 4 else flags);
          flags = (if LendingMarket_is_immutable market then flags OR 8 else flags)
      in flags)"

definition decoded_of_market :: "lending_market \<Rightarrow> decoded_lending_market" where
  "decoded_of_market market =
     \<lparr>dm_owner = lm_lending_market_owner market,
      dm_quote_currency = lm_quote_currency market,
      dm_flags = market_flags market,
      dm_referral_fee_bps = LendingMarket_referral_fee_bps market,
      dm_liquidation_max_debt_close_factor_pct = LendingMarket_liquidation_max_debt_close_factor_pct market,
      dm_name = lm_name market\<rparr>"

definition decode_lending_market ::
  "(bytes \<Rightarrow> bool) \<Rightarrow> (string \<Rightarrow> bytes) \<Rightarrow> bytes \<Rightarrow> (string + decoded_lending_market) option" where
  "decode_lending_market cast spl data =
     (case from_account_data cast (spl ''account:LendingMarket'') 4656 dec_lending_market data of
        Inr market \<Rightarrow> Some (Inr (decoded_of_market market))
      | Inl (Data_Too_Short _ _) \<Rightarrow> None
      | Inl (Invalid_Discriminator _ _) \<Rightarrow> None
      | Inl Alignment_Error \<Rightarrow>
          Some (Inl ''alignment error casting LendingMarket (unexpected padding)''))"

section \<open>Reserves\<close>

record decoded_reserve =
  dr_version :: u64
  dr_last_update_slot :: u64
  dr_lending_market :: bytes
  dr_liquidity_mint :: bytes
  dr_supply_vault :: bytes
  dr_fee_vault :: bytes
  dr_available_liquidity :: u64
  dr_borrowed_amount :: u128
  dr_market_price :: u128
  dr_mint_decimals :: u64
  dr_accumulated_protocol_fees :: u128
  dr_accumulated_referrer_fees :: u128

definition RESERVE_LITE_SIZE :: nat where [const_defs]:
  "RESERVE_LITE_SIZE = 1352"

definition decoded_of_reserve :: "reserve_lite \<Rightarrow> decoded_reserve" where
  "decoded_of_reserve reserve =
     (let liquidity = rt_liquidity reserve;
          liquidity_mint = rl_mint_pubkey liquidity;
          supply_vault = rl_supply_vault liquidity;
          fee_vault = rl_fee_vault liquidity
      in \<lparr>dr_version = rt_version reserve,
          dr_last_update_slot = lu_slot (rt_last_update reserve),
          dr_lending_market = rt_lending_market reserve,
          dr_liquidity_mint = liquidity_mint,
          dr_supply_vault = supply_vault,
          dr_fee_vault = fee_vault,
          dr_available_liquidity = rl_total_available_amount liquidity,
          dr_borrowed_amount = u128_of_pod (rl_borrowed_amount_sf liquidity),
          dr_market_price = u128_of_pod (rl_market_price_sf liquidity),
          dr_mint_decimals = rl_mint_decimals liquidity,
          dr_accumulated_protocol_fees = u128_of_pod (rl_accumulated_protocol_fees_sf liquidity),
          dr_accumulated_referrer_fees = u128_of_pod (rl_accumulated_referrer_fees_sf liquidity)\<rparr>)"

definition decode_reserve :: "(bytes \<Rightarrow> bool) \<Rightarrow> bytes \<Rightarrow> (string + decoded_reserve) option" where
  "decode_reserve cast data =
     (if length data < DISCRIMINATOR_SIZE + RESERVE_LITE_SIZE then None
      else let payload = slice DISCRIMINATOR_SIZE RESERVE_LITE_SIZE data in
        if \<not> cast payload then Some (Inl ''bytemuck cast failed for Reserve prefix'')
        else Some (Inr (decoded_of_reserve (dec_reserve_lite payload))))"

section \<open>What the decoders compute\<close>

lemma decode_obligation_None_iff: "decode_obligation cast data = None \<longleftrightarrow> length data < 3344"
  by (simp add: decode_obligation_def const_defs Let_def)

lemma decode_obligation_Inr_iff:
  "decode_obligation cast data = Some (Inr d) \<longleftrightarrow>
     3344 \<le> length data \<and> cast (slice 8 3336 data)
     \<and> d = decoded_of_obligation (dec_obligation (slice 8 3336 data))"
  by (auto simp: decode_obligation_def const_defs Let_def)

lemma decode_obligation_window:
  "slice 8 3336 a = slice 8 3336 b \<Longrightarrow> 3344 \<le> length a \<Longrightarrow> 3344 \<le> length b \<Longrightarrow>
     decode_obligation cast a = decode_obligation cast b"
  by (simp add: decode_obligation_def const_defs Let_def)

lemma decode_obligation_image:
  assumes "wf_obligation o1" and "length disc = 8" and "cast (enc_obligation o1)"
  shows "decode_obligation cast (disc @ enc_obligation o1 @ rest) = Some (Inr (decoded_of_obligation o1))"
  using assms
  by (simp add: decode_obligation_Inr_iff slice_simps ob.enc_length ob.dec_enc)

lemma num_deposits_cast: "wf_obligation o1 \<Longrightarrow> unat (of_nat (Obligation_num_deposits o1) :: u8) = Obligation_num_deposits o1"
  using num_deposits_le [of o1] by (simp add: unat_of_nat)

lemma num_borrows_cast: "wf_obligation o1 \<Longrightarrow> unat (of_nat (Obligation_num_borrows o1) :: u8) = Obligation_num_borrows o1"
  using num_borrows_le [of o1] by (simp add: unat_of_nat)

lemma unat_health_factor:
  assumes "debt \<noteq> 0" and "has_debt \<noteq> 0"
  shows "unat (health_factor dep debt has_debt) =
    (min (unat dep * 1000000) (2 ^ 128 - 1) div unat debt) mod 2 ^ 64"
proof -
  have "unat (saturating_mul dep 1000000) = min (unat dep * 1000000) (2 ^ 128 - 1)"
    by (simp add: unat_saturating_mul)
  then show ?thesis
    using assms by (simp add: health_factor_def unsigned_ucast_eq unat_div_distrib take_bit_eq_mod)
qed

lemma unat_health_factor_exact:
  assumes "debt \<noteq> 0" and "has_debt \<noteq> 0"
    and "unat dep * 1000000 < 2 ^ 128" and "unat dep * 1000000 div unat debt < 2 ^ 64"
  shows "unat (health_factor dep debt has_debt) = unat dep * 1000000 div unat debt"
  using assms by (simp add: unat_health_factor min_absorb1)

lemma bit_u8_masks:
  "bit (1 :: u8) n \<longleftrightarrow> n = 0" "bit (2 :: u8) n \<longleftrightarrow> n = 1"
  "bit (4 :: u8) n \<longleftrightarrow> n = 2" "bit (8 :: u8) n \<longleftrightarrow> n = 3"
  using bit_exp_iff [of 1 n, where 'a = u8] bit_exp_iff [of 2 n, where 'a = u8]
    bit_exp_iff [of 3 n, where 'a = u8]
  by (auto simp: possible_bit_def bit_1_iff)

lemma bit_set_if: "bit (if c then f OR k else f) n \<longleftrightarrow> bit f n \<or> c \<and> bit k n"
  for f k :: u8
  by (simp add: bit_or_iff)

lemma obligation_flags_bits:
  "bit (obligation_flags debt eg ts) n \<longleftrightarrow>
     n = 0 \<and> debt \<noteq> 0 \<or> n = 1 \<and> eg \<noteq> 0 \<or> n = 2 \<and> ts \<noteq> 0"
  unfolding obligation_flags_def Let_def bit_set_if bit_u8_masks bit_0_eq bot_fun_def bot_bool_def by blast

lemma market_flags_bits:
  "bit (market_flags m) n \<longleftrightarrow>
     n = 0 \<and> lm_emergency_mode m \<noteq> 0 \<or> n = 1 \<and> lm_autodeleverage_enabled m \<noteq> 0
     \<or> n = 2 \<and> lm_borrow_disabled m \<noteq> 0 \<or> n = 3 \<and> lm_immutable m \<noteq> 0"
  unfolding market_flags_def Let_def bit_set_if bit_u8_masks bit_0_eq bot_fun_def bot_bool_def
    LendingMarket_is_emergency_mode_def LendingMarket_is_autodeleverage_enabled_def
    LendingMarket_is_borrow_disabled_def LendingMarket_is_immutable_def by blast

lemma decode_lending_market_Inr_iff:
  "decode_lending_market cast spl data = Some (Inr d) \<longleftrightarrow>
     4664 \<le> length data \<and> take 8 data = spl ''account:LendingMarket'' \<and> cast (slice 8 4656 data)
     \<and> d = decoded_of_market (dec_lending_market (slice 8 4656 data))"
  by (auto simp: decode_lending_market_def from_account_data_def Let_def const_defs)

lemma decode_reserve_Inr_iff:
  "decode_reserve cast data = Some (Inr d) \<longleftrightarrow>
     1360 \<le> length data \<and> cast (slice 8 1352 data)
     \<and> d = decoded_of_reserve (dec_reserve_lite (slice 8 1352 data))"
  by (auto simp: decode_reserve_def const_defs Let_def)

text \<open>\<open>ReserveLite\<close> is the prefix of \<open>Reserve\<close> it claims to be.\<close>

lemma reserve_lite_prefix:
  assumes "8616 \<le> length bs"
  shows "rt_version (dec_reserve_lite (slice 0 1352 bs)) = rs_version (dec_reserve (slice 0 8616 bs))"
    and "rt_last_update (dec_reserve_lite (slice 0 1352 bs)) = rs_last_update (dec_reserve (slice 0 8616 bs))"
    and "rt_lending_market (dec_reserve_lite (slice 0 1352 bs)) = rs_lending_market (dec_reserve (slice 0 8616 bs))"
    and "rt_liquidity (dec_reserve_lite (slice 0 1352 bs)) = rs_liquidity (dec_reserve (slice 0 8616 bs))"
  using assms by (simp_all add: dec_reserve_lite_def dec_reserve_def slice_simps)

section \<open>Properties\<close>

text \<open>
  C13 \<open>decode_obligation\<close> reads an account image exactly: behind any eight discriminator bytes
  and whatever follows the struct, every decoded field is the corresponding field of the
  account, and the two position counts survive the narrowing to a byte.
\<close>

theorem decode_obligation_fields:
  assumes "wf_obligation o1" and "length disc = 8" and "cast (enc_obligation o1)"
  shows "\<exists>d. decode_obligation cast (disc @ enc_obligation o1 @ rest) = Some (Inr d)
    \<and> do_owner d = ob_owner o1 \<and> do_lending_market d = ob_lending_market o1
    \<and> unat (do_num_deposits d) = length (filter ObligationCollateral_is_active (ob_deposits o1))
    \<and> unat (do_num_borrows d) = length (filter ObligationLiquidity_is_active (ob_borrows o1))
    \<and> do_deposited_value_sf d = Obligation_deposited_value o1
    \<and> do_borrowed_assets_market_value_sf d = Obligation_borrowed_assets_market_value o1
    \<and> do_borrow_factor_adjusted_debt_value_sf d = Obligation_borrow_factor_adjusted_debt_value o1
    \<and> do_allowed_borrow_value_sf d = Obligation_allowed_borrow_value o1
    \<and> do_unhealthy_borrow_value_sf d = Obligation_unhealthy_borrow_value o1
    \<and> do_lowest_deposit_liquidation_ltv d = ob_lowest_reserve_deposit_liquidation_ltv o1
    \<and> do_elevation_group d = ob_elevation_group o1 \<and> do_referrer d = ob_referrer o1"
  using decode_obligation_image [of o1 disc cast rest, OF assms] num_deposits_cast [OF assms(1)]
    num_borrows_cast [OF assms(1)]
  by (simp add: decoded_of_obligation_def Let_def Obligation_num_deposits_def Obligation_num_borrows_def
      ObligationCollateral_is_active_def [abs_def] ObligationLiquidity_is_active_def [abs_def]
      Obligation_deposited_value_def Obligation_borrowed_assets_market_value_def
      Obligation_borrow_factor_adjusted_debt_value_def Obligation_allowed_borrow_value_def
      Obligation_unhealthy_borrow_value_def)

theorem decode_obligation_fields_witness:
  "\<exists>d. decode_obligation (\<lambda>_. True)
         (OBLIGATION_DISC @ enc_obligation (dec_obligation (replicate 3336 0)) @ []) = Some (Inr d)"
proof -
  have "wf_obligation (dec_obligation (replicate 3336 0))" by (rule ob.dec_wf) simp
  moreover have "length OBLIGATION_DISC = 8" by (simp add: const_defs)
  ultimately show ?thesis
    using decode_obligation_fields [of "dec_obligation (replicate 3336 0)" OBLIGATION_DISC "\<lambda>_. True" "[]"]
    by blast
qed

text \<open>
  C29 The health factor as stored: the collateral times a million, saturating at 128 bits,
  divided by the risk-adjusted debt, reduced modulo two to the 64; without debt it is the
  all-ones value. It is the true quotient when the product fits in 128 bits and the quotient
  in 64.
\<close>

theorem health_factor_value:
  "unat (health_factor dep debt has_debt) =
     (if debt = 0 \<or> has_debt = 0 then 2 ^ 64 - 1
      else (min (unat dep * 1000000) (2 ^ 128 - 1) div unat debt) mod 2 ^ 64)
   \<and> (debt \<noteq> 0 \<longrightarrow> has_debt \<noteq> 0 \<longrightarrow> unat dep * 1000000 < 2 ^ 128 \<longrightarrow>
        unat dep * 1000000 div unat debt < 2 ^ 64 \<longrightarrow>
        unat (health_factor dep debt has_debt) = unat dep * 1000000 div unat debt)"
  using unat_health_factor unat_health_factor_exact
  by (auto simp: health_factor_def unsigned_minus_1_eq_mask mask_eq_exp_minus_1)

theorem health_factor_value_witness:
  "unat (health_factor 2100 2000 1) = 1050000"
  using health_factor_value [of 2100 2000 1] by simp

text \<open>
  The narrowing cast is not a saturating one: collateral of two to the 64 against a debt of
  a million scaled units, a position healthier than any \<open>u64\<close> can say, is stored as health
  zero, the value of a position with no collateral.
\<close>

lemma health_factor_of_dust_debt:
  "health_factor (2 ^ 64) 1000000 1 = 0 \<and> health_factor 0 1000000 1 = 0"
  by (simp add: word_unat_eq_iff unat_health_factor)

text \<open>
  C40 The flag bytes: each bit of the stored obligation flags and market flags is set exactly
  when its field of the account is non-zero, and no other bit is ever set.
\<close>

theorem decoded_flags:
  "(bit (do_flags (decoded_of_obligation o1)) n \<longleftrightarrow>
      n = 0 \<and> ob_has_debt o1 \<noteq> 0 \<or> n = 1 \<and> ob_elevation_group o1 \<noteq> 0
      \<or> n = 2 \<and> ob_autodeleverage_margin_call_started_timestamp o1 \<noteq> 0)
   \<and> (bit (dm_flags (decoded_of_market m)) n \<longleftrightarrow>
      n = 0 \<and> lm_emergency_mode m \<noteq> 0 \<or> n = 1 \<and> lm_autodeleverage_enabled m \<noteq> 0
      \<or> n = 2 \<and> lm_borrow_disabled m \<noteq> 0 \<or> n = 3 \<and> lm_immutable m \<noteq> 0)"
  by (simp add: decoded_of_obligation_def decoded_of_market_def Let_def obligation_flags_bits market_flags_bits)

text \<open>
  C24 \<open>ReserveLite\<close> is a faithful prefix: on a complete reserve account the truncated decoder
  agrees with the accessors of the full \<open>Reserve\<close> struct, and it reads nothing past byte
  1360, so it gives the same result on any two payloads with the same first 1360 bytes.
\<close>

theorem decode_reserve_matches_reserve:
  assumes "8624 \<le> length data" and "cast (slice 8 1352 data)"
  shows "\<exists>d. decode_reserve cast data = Some (Inr d)
    \<and> (let r = dec_reserve (slice 8 8616 data) in
       dr_version d = rs_version r \<and> dr_last_update_slot d = lu_slot (rs_last_update r)
       \<and> dr_lending_market d = rs_lending_market r
       \<and> dr_liquidity_mint d = rl_mint_pubkey (rs_liquidity r)
       \<and> dr_supply_vault d = rl_supply_vault (rs_liquidity r)
       \<and> dr_fee_vault d = rl_fee_vault (rs_liquidity r)
       \<and> dr_available_liquidity d = Reserve_available_liquidity r
       \<and> dr_borrowed_amount d = Reserve_borrowed_amount r
       \<and> dr_market_price d = Reserve_market_price r
       \<and> dr_mint_decimals d = Reserve_mint_decimals r
       \<and> dr_accumulated_protocol_fees d = Reserve_accumulated_protocol_fees r
       \<and> dr_accumulated_referrer_fees d = Reserve_accumulated_referrer_fees r)
    \<and> (\<forall>data'. take 1360 data' = take 1360 data \<longrightarrow> decode_reserve cast data' = decode_reserve cast data)"
proof -
  have window: "slice 8 1352 xs = slice 8 1352 (take 1360 xs)" for xs :: bytes
    by (simp add: slice_take)
  have same: "decode_reserve cast data' = decode_reserve cast data" if "take 1360 data' = take 1360 data" for data'
  proof -
    have "min (length data') 1360 = min (length data) 1360"
      using arg_cong [OF that, of length] by simp
    with assms(1) have "1360 \<le> length data'" by linarith
    with assms(1) show ?thesis
      using window [of data'] window [of data] that by (simp add: decode_reserve_def const_defs Let_def)
  qed
  have "8616 \<le> length (drop 8 data)" using assms(1) by simp
  note prefix = reserve_lite_prefix [OF this]
  have sl: "slice 0 n (drop 8 data) = slice 8 n data" for n by (simp add: slice_def)
  from assms have "decode_reserve cast data = Some (Inr (decoded_of_reserve (dec_reserve_lite (slice 8 1352 data))))"
    by (simp add: decode_reserve_Inr_iff)
  with same prefix [unfolded sl] show ?thesis
    by (simp add: decoded_of_reserve_def Let_def Reserve_available_liquidity_def Reserve_borrowed_amount_def
        Reserve_market_price_def Reserve_mint_decimals_def Reserve_accumulated_protocol_fees_def
        Reserve_accumulated_referrer_fees_def)
qed

theorem decode_reserve_matches_reserve_witness:
  "\<exists>d. decode_reserve (\<lambda>_. True) (replicate 8624 3) = Some (Inr d)
     \<and> dr_version d = rs_version (dec_reserve (slice 8 8616 (replicate 8624 3)))"
  using decode_reserve_matches_reserve [of "replicate 8624 3" "\<lambda>_. True"] by (auto simp: Let_def)

text \<open>
  \<open>decode_lending_market\<close> on every branch: nothing for a short payload or another
  discriminator, an error for a rejected cast, and otherwise the market's own fields.
\<close>

lemma decode_lending_market_branches:
  "decode_lending_market cast spl data =
     (if length data < 4664 then None
      else if take 8 data = spl ''account:LendingMarket'' then
        if cast (slice 8 4656 data) then
          let m = dec_lending_market (slice 8 4656 data) in
          Some (Inr \<lparr>dm_owner = lm_lending_market_owner m, dm_quote_currency = lm_quote_currency m,
            dm_flags = market_flags m, dm_referral_fee_bps = lm_referral_fee_bps m,
            dm_liquidation_max_debt_close_factor_pct = lm_liquidation_max_debt_close_factor_pct m,
            dm_name = lm_name m\<rparr>)
        else Some (Inl ''alignment error casting LendingMarket (unexpected padding)'')
      else None)"
  by (auto simp: decode_lending_market_def from_account_data_def Let_def const_defs decoded_of_market_def
      LendingMarket_referral_fee_bps_def LendingMarket_liquidation_max_debt_close_factor_pct_def)

end
