(* ===== verification/Payload.thy ===== *)
theory Payload
  imports Prelude
begin

text \<open>
  The payload-shape guard of \<open>src/payload.rs\<close>: classification of one update by shape, the
  session tally with its rate-limited alarm, and the reported span. The counters are 64-bit
  words as in the struct, so they wrap.
\<close>

datatype payload_shape = Shape_Ok | Closed | Impossible_Empty

definition classify_payload :: "u64 \<Rightarrow> nat \<Rightarrow> payload_shape" where
  "classify_payload lamports data_len =
     (if data_len > 0 then Shape_Ok else if lamports = 0 then Closed else Impossible_Empty)"

definition REPEAT_EVERY :: u64 where [const_defs]:
  "REPEAT_EVERY = 500"

datatype guard_action = Quiet | Alarm_First | Alarm_Repeat u64

record payload_guard =
  pg_impossible :: u64
  pg_closed :: u64
  pg_first_slot :: "u64 option"
  pg_last_slot :: "u64 option"

definition payload_guard_new :: payload_guard where
  "payload_guard_new = \<lparr>pg_impossible = 0, pg_closed = 0, pg_first_slot = None, pg_last_slot = None\<rparr>"

text \<open>\<open>Option::get_or_insert\<close>, as the option it leaves behind.\<close>

definition get_or_insert :: "'a option \<Rightarrow> 'a \<Rightarrow> 'a option" where
  "get_or_insert o1 x = (case o1 of Some y \<Rightarrow> Some y | None \<Rightarrow> Some x)"

text \<open>\<open>u64::is_multiple_of\<close>; a zero divisor divides only zero.\<close>

definition is_multiple_of :: "u64 \<Rightarrow> u64 \<Rightarrow> bool" where
  "is_multiple_of a b = (if b = 0 then a = 0 else a mod b = 0)"

definition observe :: "u64 \<Rightarrow> u64 \<Rightarrow> nat \<Rightarrow> payload_guard \<Rightarrow> payload_guard \<times> guard_action" where
  "observe slot lamports data_len g =
     (case classify_payload lamports data_len of
        Shape_Ok \<Rightarrow> (g, Quiet)
      | Closed \<Rightarrow> (g\<lparr>pg_closed := pg_closed g + 1\<rparr>, Quiet)
      | Impossible_Empty \<Rightarrow>
          let g = g\<lparr>pg_impossible := pg_impossible g + 1,
                    pg_first_slot := get_or_insert (pg_first_slot g) slot,
                    pg_last_slot := Some slot\<rparr>
          in (g, if pg_impossible g = 1 then Alarm_First
                 else if is_multiple_of (pg_impossible g) REPEAT_EVERY then Alarm_Repeat (pg_impossible g)
                 else Quiet))"

definition impossible_count :: "payload_guard \<Rightarrow> u64" where
  "impossible_count g = pg_impossible g"

definition closed_count :: "payload_guard \<Rightarrow> u64" where
  "closed_count g = pg_closed g"

definition impossible_span :: "payload_guard \<Rightarrow> (u64 \<times> u64) option" where
  "impossible_span g =
     (case pg_first_slot g of
        None \<Rightarrow> None
      | Some lo \<Rightarrow> (case pg_last_slot g of None \<Rightarrow> None | Some hi \<Rightarrow> Some (lo, hi)))"

definition is_firing :: "payload_guard \<Rightarrow> bool" where
  "is_firing g \<longleftrightarrow> 0 < pg_impossible g"

text \<open>The summary text; numbers are printed in decimal.\<close>

definition show_u64 :: "u64 \<Rightarrow> string" where
  "show_u64 w = decimal (unat w)"

definition payload_guard_text :: "payload_guard \<Rightarrow> string" where
  "payload_guard_text g =
     (case impossible_span g of
        Some (lo, hi) \<Rightarrow>
          show_u64 (pg_impossible g) @ '' impossible empty payloads across slots '' @ show_u64 lo
          @ ''..='' @ show_u64 hi @ '' ('' @ show_u64 (pg_closed g) @ '' ordinary closures)''
      | None \<Rightarrow> ''no shape faults ('' @ show_u64 (pg_closed g) @ '' ordinary closures)'')"

text \<open>The text of the first alarm.\<close>

definition alarm_text :: "u64 \<Rightarrow> string \<Rightarrow> string" where
  "alarm_text slot pubkey_b58 =
     ''PAYLOAD SHAPE FAULT at slot='' @ show_u64 slot @ '' pubkey='' @ pubkey_b58 @ '': account is funded ''
     @ ''but arrived with a zero-length payload. The chain does not produce this. ''
     @ ''Most likely cause: a subscription-level accounts_data_slice longer than ''
     @ ''this account type, which makes Yellowstone return an empty payload rather ''
     @ ''than a short one. Data for this account type is being SILENTLY DESTROYED ''
     @ ''even though ingest looks healthy. See src/payload.rs.''"

section \<open>A run of observations\<close>

text \<open>An update as the guard sees it: slot, lamports and payload length.\<close>

type_synonym sighting = "u64 \<times> u64 \<times> nat"

definition impossible :: "sighting \<Rightarrow> bool" where
  "impossible s = (case s of (slot, lamports, len) \<Rightarrow> classify_payload lamports len = Impossible_Empty)"

definition closure :: "sighting \<Rightarrow> bool" where
  "closure s = (case s of (slot, lamports, len) \<Rightarrow> classify_payload lamports len = Closed)"

fun observe_all :: "sighting list \<Rightarrow> payload_guard \<Rightarrow> payload_guard \<times> guard_action list" where
  "observe_all [] g = (g, [])"
| "observe_all ((slot, lamports, len) # xs) g =
     (let (g, a) = observe slot lamports len g; (g, as) = observe_all xs g in (g, a # as))"

lemma impossible_iff: "impossible (slot, lamports, len) \<longleftrightarrow> len = 0 \<and> lamports \<noteq> 0"
  by (simp add: impossible_def classify_payload_def)

lemma closure_iff: "closure (slot, lamports, len) \<longleftrightarrow> len = 0 \<and> lamports = 0"
  by (simp add: closure_def classify_payload_def)

lemma observe_all_append:
  "observe_all (xs @ ys) g =
     (let (g, as) = observe_all xs g; (g, bs) = observe_all ys g in (g, as @ bs))"
  by (induction xs g rule: observe_all.induct) (auto simp: Let_def split: prod.splits)

lemma length_observe_all: "length (snd (observe_all xs g)) = length xs"
  by (induction xs g rule: observe_all.induct) (auto simp: Let_def split: prod.splits)

lemma observe_impossible:
  "impossible (slot, l, n) \<Longrightarrow>
     observe slot l n g =
       (let c = pg_impossible g + 1 in
        (g\<lparr>pg_impossible := c, pg_first_slot := get_or_insert (pg_first_slot g) slot, pg_last_slot := Some slot\<rparr>,
         if c = 1 then Alarm_First else if is_multiple_of c REPEAT_EVERY then Alarm_Repeat c else Quiet))"
  by (simp add: observe_def impossible_def Let_def)

lemma observe_possible:
  "\<not> impossible (slot, l, n) \<Longrightarrow>
     observe slot l n g = (if closure (slot, l, n) then g\<lparr>pg_closed := pg_closed g + 1\<rparr> else g, Quiet)"
  by (auto simp: observe_def impossible_def closure_def Let_def split: payload_shape.splits)

text \<open>What the guard has counted, in terms of everything it has seen.\<close>

definition guard_of :: "sighting list \<Rightarrow> payload_guard" where
  "guard_of xs =
     \<lparr>pg_impossible = of_nat (length (filter impossible xs)),
      pg_closed = of_nat (length (filter closure xs)),
      pg_first_slot = (case filter impossible xs of [] \<Rightarrow> None | s # _ \<Rightarrow> Some (fst s)),
      pg_last_slot = (case rev (filter impossible xs) of [] \<Rightarrow> None | s # _ \<Rightarrow> Some (fst s))\<rparr>"

lemma guard_of_snoc: "guard_of (xs @ [(slot, l, n)]) = fst (observe slot l n (guard_of xs))"
proof (cases "impossible (slot, l, n)")
  case True
  then have "\<not> closure (slot, l, n)" by (simp add: impossible_iff closure_iff)
  with True show ?thesis
    by (auto simp: observe_impossible guard_of_def Let_def get_or_insert_def split: list.splits option.splits)
next
  case False
  then show ?thesis
    by (auto simp: observe_possible guard_of_def)
qed

lemma observe_all_guard: "fst (observe_all xs payload_guard_new) = guard_of xs"
proof (induction xs rule: rev_induct)
  case Nil
  then show ?case by (simp add: guard_of_def payload_guard_new_def)
next
  case (snoc s xs)
  obtain slot l n where s: "s = (slot, l, n)" by (cases s)
  with snoc show ?case
    by (simp add: observe_all_append guard_of_snoc Let_def split_beta)
qed

lemma unat_of_nat_u64: "n < 2 ^ 64 \<Longrightarrow> unat (of_nat n :: u64) = n"
  by (simp add: unat_of_nat)

text \<open>The action for the \<open>n\<close>th impossible payload of a session.\<close>

definition alarm_schedule :: "nat \<Rightarrow> guard_action" where
  "alarm_schedule n =
     (if n = 1 then Alarm_First else if n mod 500 = 0 then Alarm_Repeat (of_nat n) else Quiet)"

lemma observe_schedule:
  assumes "impossible (slot, l, len)" and "Suc (length (filter impossible xs)) < 2 ^ 64"
  shows "snd (observe slot l len (fst (observe_all xs payload_guard_new)))
    = alarm_schedule (Suc (length (filter impossible xs)))"
proof -
  define n where "n = Suc (length (filter impossible xs))"
  have c: "pg_impossible (guard_of xs) + 1 = of_nat n"
    by (simp add: guard_of_def n_def)
  have n: "unat (of_nat n :: u64) = n"
    using assms(2) by (intro unat_of_nat_u64) (simp add: n_def)
  have one: "(of_nat n :: u64) = 1 \<longleftrightarrow> n = 1"
    by (simp add: word_unat_eq_iff n)
  have m: "is_multiple_of (of_nat n) REPEAT_EVERY \<longleftrightarrow> n mod 500 = 0"
    by (simp add: is_multiple_of_def const_defs word_unat_eq_iff unat_mod n)
  show ?thesis
    using assms(1)
    by (simp add: observe_all_guard observe_impossible Let_def c one m alarm_schedule_def flip: n_def)
qed

lemma observe_quiet: "\<not> impossible (slot, l, len) \<Longrightarrow> snd (observe slot l len g) = Quiet"
  by (simp add: observe_possible)

lemma guard_span:
  "impossible_span (guard_of xs) =
     (if filter impossible xs = [] then None
      else Some (fst (hd (filter impossible xs)), fst (last (filter impossible xs))))"
proof -
  have first: "(case zs of [] \<Rightarrow> None | s # _ \<Rightarrow> Some (fst s)) = (if zs = [] then None else Some (fst (hd zs)))"
    for zs :: "sighting list"
    by (cases zs) auto
  have final: "(case rev zs of [] \<Rightarrow> None | s # _ \<Rightarrow> Some (fst s)) = (if zs = [] then None else Some (fst (last zs)))"
    for zs :: "sighting list"
    by (cases zs rule: rev_cases) auto
  show ?thesis by (simp add: impossible_span_def guard_of_def first final hd_rev)
qed

section \<open>Properties\<close>

text \<open>
  C26 The payload guard after any session: the fault count is the number of funded accounts
  that arrived empty and the closure count the number of drained ones (modulo the counter
  width), the span runs from the first to the last faulty slot, and the action on the next
  impossible payload is loud exactly for the first and for every 500th.
\<close>

theorem payload_guard_reports:
  assumes "Suc (length (filter impossible xs)) < 2 ^ 64"
  shows "let g = fst (observe_all xs payload_guard_new); faults = filter impossible xs in
    unat (impossible_count g) = length faults
    \<and> closed_count g = of_nat (length (filter closure xs))
    \<and> impossible_span g = (if faults = [] then None else Some (fst (hd faults), fst (last faults)))
    \<and> (is_firing g \<longleftrightarrow> faults \<noteq> [])
    \<and> (impossible (slot, l, len) \<longrightarrow>
         snd (observe slot l len g) = alarm_schedule (Suc (length faults)))
    \<and> (\<not> impossible (slot, l, len) \<longrightarrow> snd (observe slot l len g) = Quiet)"
proof -
  let ?n = "length (filter impossible xs)"
  have n: "unat (of_nat ?n :: u64) = ?n"
    using assms by (intro unat_of_nat_u64) simp
  then have pos: "(0 :: u64) < of_nat ?n \<longleftrightarrow> filter impossible xs \<noteq> []"
    by (simp add: word_less_nat_alt)
  show ?thesis
    using observe_schedule [of slot l len xs] assms n pos observe_quiet [of slot l len]
    by (simp add: Let_def observe_all_guard guard_span)
      (simp add: guard_of_def impossible_count_def closed_count_def is_firing_def)
qed

theorem payload_guard_reports_witness:
  "snd (observe 9 5 0 (fst (observe_all [(7, 5, 0), (8, 0, 0), (8, 3, 12)] payload_guard_new))) = Quiet"
proof -
  have faults: "filter impossible [(7, 5, 0), (8, 0, 0), (8, 3, 12)] = [(7, 5, 0)]"
    by (simp add: impossible_iff)
  have "impossible (9, 5, 0)" by (simp add: impossible_iff)
  then show ?thesis
    using payload_guard_reports [of "[(7, 5, 0), (8, 0, 0), (8, 3, 12)]" 9 5 0]
    unfolding faults Let_def by (simp del: observe_all.simps add: alarm_schedule_def)
qed

end
