(* ===== verification/Resume.thy ===== *)
theory Resume
  imports Payload
begin

text \<open>
  The resume-seam classification of \<open>src/resume.rs\<close>: what the first account slot of a
  session proves about the span between it and the checkpoint.
\<close>

definition RESUME_TOLERANCE_SLOTS :: u64 where [const_defs]:
  "RESUME_TOLERANCE_SLOTS = 600"

datatype resume_verdict =
    Not_Applicable
  | Clean u64 \<comment> \<open>drift\<close>
  | Gap u64 u64 u64 \<comment> \<open>start slot, end slot, missed\<close>

definition classify_resume :: "u64 option \<Rightarrow> u64 \<Rightarrow> resume_verdict" where
  "classify_resume resume_from first_account_slot =
     (case resume_from of
        None \<Rightarrow> Not_Applicable
      | Some resume_from \<Rightarrow>
          if first_account_slot \<le> resume_from then Clean 0
          else let drift = first_account_slot - resume_from in
            if drift \<le> RESUME_TOLERANCE_SLOTS then Clean drift
            else Gap resume_from first_account_slot (drift - 1))"

definition startup_gap_reason :: "u64 \<Rightarrow> string" where
  "startup_gap_reason drift =
     ''startup seam: server resumed '' @ show_u64 drift @ '' slots past checkpoint without error ''
     @ ''(no reconnect, no subscribe failure)''"

text \<open>The slots strictly between two slots, the ones a gap row says were never delivered.\<close>

definition slots_between :: "u64 \<Rightarrow> u64 \<Rightarrow> nat set" where
  "slots_between a b = {unat a <..< unat b}"

lemma unat_diff_u64: "b \<le> a \<Longrightarrow> unat (a - b) = unat a - unat b" for a b :: u64
  by (simp add: unat_sub word_le_nat_alt)

lemma drift_le_iff:
  "c < f \<Longrightarrow> f - c \<le> RESUME_TOLERANCE_SLOTS \<longleftrightarrow> unat f \<le> unat c + 600" for c f :: u64
  using unat_diff_u64 [of c f]
  by (auto simp: const_defs word_le_nat_alt word_less_nat_alt)

lemma classify_resume_Gap_iff:
  "classify_resume r f = Gap s e m \<longleftrightarrow>
     r = Some s \<and> e = f \<and> m = f - s - 1 \<and> unat s + 600 < unat f"
  using drift_le_iff
  by (auto simp: classify_resume_def Let_def word_le_nat_alt word_less_nat_alt split: option.splits)

lemma classify_resume_Clean_iff:
  "classify_resume r f = Clean d \<longleftrightarrow>
     (\<exists>s. r = Some s \<and> unat f \<le> unat s + 600 \<and> unat d = unat f - unat s)"
proof (cases r)
  case None
  then show ?thesis by (simp add: classify_resume_def)
next
  case (Some s)
  show ?thesis
  proof (cases "f \<le> s")
    case True
    then have "unat f - unat s = 0" by (simp add: word_le_nat_alt)
    with True Some show ?thesis
      by (auto simp: classify_resume_def word_le_nat_alt word_unat_eq_iff)
  next
    case False
    then have "unat (f - s) = unat f - unat s"
      by (intro unat_diff_u64) simp
    then have "f - s = d \<longleftrightarrow> unat d = unat f - unat s"
      by (auto simp: word_unat_eq_iff)
    with False Some show ?thesis
      by (auto simp: classify_resume_def Let_def drift_le_iff not_le)
  qed
qed

lemma missed_is_card:
  assumes "classify_resume r f = Gap s e m"
  shows "unat m = card (slots_between s e)"
proof -
  from assms have m: "m = f - s - 1" and e: "e = f" and lt: "unat s + 600 < unat f"
    by (auto simp: classify_resume_Gap_iff)
  then have d: "unat (f - s) = unat f - unat s"
    by (intro unat_diff_u64) (simp add: word_le_nat_alt)
  with lt have "(1 :: u64) \<le> f - s"
    by (simp add: word_le_nat_alt)
  then have "unat m = unat f - unat s - 1"
    using m d unat_diff_u64 [of 1 "f - s"] by simp
  then show ?thesis
    by (simp add: slots_between_def e)
qed

section \<open>Properties\<close>

text \<open>
  C25 The resume verdict is exact: no checkpoint gives no verdict; a first slot at most 600 past
  the checkpoint is clean with its drift; beyond that it is a gap between the two slots whose
  \<open>missed\<close> is the number of slots strictly between them. No subtraction underflows.
\<close>

theorem classify_resume_exact:
  "(classify_resume None f = Not_Applicable)
   \<and> (classify_resume (Some c) f =
        (if unat f \<le> unat c + 600 then Clean (of_nat (unat f - unat c))
         else Gap c f (of_nat (card (slots_between c f)))))"
proof -
  have big: "classify_resume (Some c) f = Gap c f (of_nat (card (slots_between c f)))"
    if "\<not> unat f \<le> unat c + 600"
  proof -
    have gap: "classify_resume (Some c) f = Gap c f (f - c - 1)"
      using that by (simp add: classify_resume_Gap_iff)
    have "of_nat (unat (f - c - 1)) = f - c - 1" by simp
    with missed_is_card [OF gap] have "of_nat (card (slots_between c f)) = f - c - 1" by simp
    with gap show ?thesis by simp
  qed
  have small: "classify_resume (Some c) f = Clean (of_nat (unat f - unat c))" if "unat f \<le> unat c + 600"
  proof -
    have "unat f - unat c < 2 ^ 64" using that by simp
    then have "unat (of_nat (unat f - unat c) :: u64) = unat f - unat c" by (rule unat_of_nat_u64)
    with that show ?thesis by (simp add: classify_resume_Clean_iff)
  qed
  show ?thesis using big small by (simp add: classify_resume_def)
qed

end
