(* ===== verification/Request.thy ===== *)
theory Request
  imports Writer Decode Resume
begin

text \<open>
  What the indexer of \<open>src/main.rs\<close> asks for and stores: the subscription request
  \<open>build_request\<close>, the resume point \<open>read_resume_slot\<close>, and the rows built from one
  account update. The request types are those of the Yellowstone protocol with the fields
  the code sets; a \<open>HashMap\<close> literal is the association list of its insertions.
\<close>

section \<open>The subscription request\<close>

record memcmp_filter =
  mf_offset :: nat
  mf_data :: bytes

record account_filter =
  af_owner :: "string list"
  af_filters :: "memcmp_filter list"
  af_nonempty_txn_signature :: "bool option"

record slot_filter =
  sf_filter_by_commitment :: "bool option"

datatype commitment_level = Processed | Confirmed | Finalized

record subscribe_request =
  sub_accounts :: "(string \<times> account_filter) list"
  sub_slots :: "(string \<times> slot_filter) list"
  sub_commitment :: "commitment_level option"
  sub_from_slot :: "u64 option"
  sub_accounts_data_slice :: "(nat \<times> nat) list"

definition memcmp_disc :: "bytes \<Rightarrow> memcmp_filter" where
  "memcmp_disc disc = \<lparr>mf_offset = 0, mf_data = disc\<rparr>"

definition disc_account_filter :: "bytes \<Rightarrow> account_filter" where
  "disc_account_filter disc =
     \<lparr>af_owner = [KLEND_PROGRAM], af_filters = [memcmp_disc disc], af_nonempty_txn_signature = Some True\<rparr>"

definition build_request :: "u64 option \<Rightarrow> subscribe_request" where
  "build_request from_slot =
     \<lparr>sub_accounts =
        [(''klend-obligation'', disc_account_filter OBLIGATION_DISC),
         (''klend-reserve'', disc_account_filter RESERVE_DISC),
         (''klend-lending-market'', disc_account_filter LENDING_MARKET_DISC)],
      sub_slots = [(''klend-tip'', \<lparr>sf_filter_by_commitment = Some True\<rparr>)],
      sub_commitment = Some Confirmed,
      sub_from_slot = from_slot,
      sub_accounts_data_slice = []\<rparr>"

section \<open>What a request lets through\<close>

text \<open>
  The server is not part of the repository, so whether it sends an account write on a request, whether a filter
  takes it, and whether a memory comparison holds are parameters. \<open>reads_filters\<close> is how the protocol documents the
  filters: the filters of a request are alternatives; one filter takes an account when all its conditions hold,
  those on the owner (one of the list, any if the list is empty), on the data (every comparison, the bytes being those at
  the offset), and on the signature of the transaction that wrote the account, asked to be there by \<open>Some True\<close> and
  to be absent by \<open>Some False\<close>.
\<close>

record account_write =
  wr_owner :: string
  wr_data :: bytes
  wr_txn_signature :: "bytes option"

type_synonym sender = "subscribe_request \<Rightarrow> account_write \<Rightarrow> bool"

type_synonym filter_test = "account_filter \<Rightarrow> account_write \<Rightarrow> bool"

definition reads_filters :: "sender \<Rightarrow> filter_test \<Rightarrow> bool" where
  "reads_filters sends takes \<longleftrightarrow>
     (\<forall>req a. sends req a \<longleftrightarrow> (\<exists>(name, f) \<in> set (sub_accounts req). takes f a))
     \<and> (\<forall>f a. takes f a \<longleftrightarrow>
          (af_owner f = [] \<or> wr_owner a \<in> set (af_owner f))
          \<and> (\<forall>m \<in> set (af_filters f). slice (mf_offset m) (length (mf_data m)) (wr_data a) = mf_data m)
          \<and> (case af_nonempty_txn_signature f of None \<Rightarrow> True | Some b \<Rightarrow> b = (wr_txn_signature a \<noteq> None)))"

lemma length_discs [simp]:
  "length OBLIGATION_DISC = 8" "length RESERVE_DISC = 8" "length LENDING_MARKET_DISC = 8"
  by (simp_all add: const_defs)

lemma sends_build_request:
  assumes "reads_filters sends takes"
  shows "sends (build_request from_slot) a \<longleftrightarrow>
     wr_owner a = KLEND_PROGRAM \<and> wr_txn_signature a \<noteq> None
     \<and> take 8 (wr_data a) \<in> {OBLIGATION_DISC, RESERVE_DISC, LENDING_MARKET_DISC}"
proof -
  have "takes (disc_account_filter disc) a \<longleftrightarrow>
      wr_owner a = KLEND_PROGRAM \<and> wr_txn_signature a \<noteq> None \<and> take 8 (wr_data a) = disc"
    if "length disc = 8" for disc
    using assms that by (auto simp: reads_filters_def disc_account_filter_def memcmp_disc_def slice_eq_takeI)
  moreover have "sends req a \<longleftrightarrow> (\<exists>(name, f) \<in> set (sub_accounts req). takes f a)" for req
    using assms by (simp add: reads_filters_def)
  ultimately show ?thesis by (auto simp: build_request_def)
qed

text \<open>A server that reads the filters so.\<close>

definition filter_takes :: filter_test where
  "filter_takes f a \<longleftrightarrow>
     (af_owner f = [] \<or> wr_owner a \<in> set (af_owner f))
     \<and> list_all (\<lambda>m. slice (mf_offset m) (length (mf_data m)) (wr_data a) = mf_data m) (af_filters f)
     \<and> (case af_nonempty_txn_signature f of None \<Rightarrow> True | Some b \<Rightarrow> b = (wr_txn_signature a \<noteq> None))"

definition server_sends :: sender where
  "server_sends req a \<longleftrightarrow> list_ex (\<lambda>(name, f). filter_takes f a) (sub_accounts req)"

lemma server_reads_filters: "reads_filters server_sends filter_takes"
  by (simp add: reads_filters_def server_sends_def filter_takes_def list_ex_iff list_all_iff)

section \<open>The resume point\<close>

text \<open>
  \<open>final\<close> is what \<open>SELECT \<dots> FINAL\<close> returns for the rows of the stream. The query may fail.
\<close>

type_synonym final_query = "checkpoint_row list \<Rightarrow> checkpoint_row option"

definition stream_rows :: "db \<Rightarrow> checkpoint_row list" where
  "stream_rows db = filter (\<lambda>r. ck_stream r = STREAM) (t_checkpoint db)"

definition read_resume_slot :: "final_query \<Rightarrow> string option \<Rightarrow> db \<Rightarrow> string + u64 option" where
  "read_resume_slot final query_err db =
     (case query_err of
        Some e \<Rightarrow> Inl e
      | None \<Rightarrow> Inr (map_option ck_last_slot (final (stream_rows db))))"

text \<open>The documented behaviour of \<open>FINAL\<close> on this table: the newest inserted row.\<close>

definition newest :: "checkpoint_row list \<Rightarrow> checkpoint_row option" where
  "newest rows = (if rows = [] then None else Some (last rows))"

section \<open>Rows of one account update\<close>

record account_info =
  ai_pubkey :: bytes
  ai_owner :: bytes
  ai_lamports :: u64
  ai_write_version :: u64
  ai_data :: bytes

definition update_row :: "u64 \<Rightarrow> account_kind \<Rightarrow> account_info \<Rightarrow> account_update_row" where
  "update_row slot kind info =
     \<lparr>au_slot = slot,
      au_write_version = ai_write_version info,
      au_pubkey = ai_pubkey info,
      au_kind = kind_text kind,
      au_owner = ai_owner info,
      au_lamports = ai_lamports info,
      au_data = ai_data info\<rparr>"

definition obligation_row :: "u64 \<Rightarrow> u64 \<Rightarrow> bytes \<Rightarrow> decoded_obligation \<Rightarrow> obligation_snapshot_row" where
  "obligation_row slot wv pubkey d =
     \<lparr>os_slot = slot,
      os_write_version = wv,
      os_pubkey = pubkey,
      os_owner = do_owner d,
      os_lending_market = do_lending_market d,
      os_num_deposits = do_num_deposits d,
      os_num_borrows = do_num_borrows d,
      os_health_factor_bps = do_health_factor_bps d,
      os_flags = do_flags d,
      os_elevation_group = do_elevation_group d,
      os_referrer = do_referrer d,
      os_deposited_value_sf = do_deposited_value_sf d,
      os_borrowed_value_sf = do_borrowed_assets_market_value_sf d,
      os_borrow_factor_adjusted_debt_sf = do_borrow_factor_adjusted_debt_value_sf d,
      os_allowed_borrow_value_sf = do_allowed_borrow_value_sf d,
      os_unhealthy_borrow_value_sf = do_unhealthy_borrow_value_sf d,
      os_lowest_deposit_liquidation_ltv = do_lowest_deposit_liquidation_ltv d\<rparr>"

definition reserve_row :: "u64 \<Rightarrow> u64 \<Rightarrow> bytes \<Rightarrow> decoded_reserve \<Rightarrow> reserve_snapshot_row" where
  "reserve_row slot wv pubkey d =
     \<lparr>sr_slot = slot,
      sr_write_version = wv,
      sr_pubkey = pubkey,
      sr_lending_market = dr_lending_market d,
      sr_liquidity_mint = dr_liquidity_mint d,
      sr_supply_vault = dr_supply_vault d,
      sr_fee_vault = dr_fee_vault d,
      sr_available_amount = dr_available_liquidity d,
      sr_borrowed_amount_sf = dr_borrowed_amount d,
      sr_market_price_sf = dr_market_price d,
      sr_mint_decimals = dr_mint_decimals d,
      sr_acc_protocol_fees_sf = dr_accumulated_protocol_fees d,
      sr_acc_referrer_fees_sf = dr_accumulated_referrer_fees d\<rparr>"

definition market_row :: "u64 \<Rightarrow> u64 \<Rightarrow> bytes \<Rightarrow> decoded_lending_market \<Rightarrow> lending_market_snapshot_row" where
  "market_row slot wv pubkey d =
     \<lparr>ml_slot = slot,
      ml_write_version = wv,
      ml_pubkey = pubkey,
      ml_owner = dm_owner d,
      ml_quote_currency = dm_quote_currency d,
      ml_flags = dm_flags d,
      ml_referral_fee_bps = dm_referral_fee_bps d,
      ml_liquidation_max_debt_close_factor_pct = dm_liquidation_max_debt_close_factor_pct d,
      ml_name = dm_name d\<rparr>"

end
