(* ===== verification/Indexer.thy ===== *)
theory Indexer
  imports Request
begin

text \<open>
  The stream indexer of \<open>src/main.rs\<close> as a state machine: the state \<open>main\<close> keeps, one
  \<open>select!\<close> wake-up at a time (\<open>session_step\<close>), one subscribed session (\<open>run_stream\<close>,
  \<open>finish_session\<close>), the reconnect loop (\<open>run\<close>).

  What the outside does is explicit: a run is a list of \<open>session_input\<close>s, each with the
  result of the checkpoint query, of connecting and of subscribing, and the sequence of
  \<open>select!\<close> events; \<open>external\<close> bundles the third-party functions and the insert outcomes.
  A list of events that ends before the session does leaves the process waiting, which is
  also where it can be killed.

  Not modelled: log text, floating-point rates, and the wall clock. Counters are 64-bit
  words and wrap, as in a release build.
\<close>

record external =
  x_digest :: "bytes \<Rightarrow> bytes" \<comment> \<open>\<open>Sha256::digest\<close>\<close>
  x_cast :: "bytes \<Rightarrow> bool" \<comment> \<open>\<open>bytemuck::try_from_bytes\<close> succeeds\<close>
  x_spl :: "string \<Rightarrow> bytes" \<comment> \<open>\<open>SplDiscriminate\<close> of a hash input\<close>
  x_final :: final_query \<comment> \<open>\<open>SELECT \<dots> FINAL\<close>\<close>
  x_ins :: inserter \<comment> \<open>outcome of each insert\<close>

datatype update_oneof =
    Account_Update u64 "account_info option"
  | Slot_Update u64
  | Ping_Update
  | Other_Update

type_synonym timestamp = "int \<times> int" \<comment> \<open>seconds, nanoseconds\<close>

datatype event =
    Stream_Ended
  | Stream_Error string
  | Message "timestamp option" update_oneof
  | Flush_Tick
  | Lag_Tick
  | Sigint
  | Sigterm

record session_input =
  si_query_err :: "string option"
  si_connect_err :: "string option"
  si_subscribe_err :: "string option"
  si_events :: "event list"

type_synonym tally = "((account_kind \<times> nat) \<times> u64) list"

record indexer =
  ix_writer :: "writer option"
  ix_db :: db
  ix_tally :: tally
  ix_total_bytes :: u64
  ix_first_slot :: "u64 option"
  ix_last_slot :: u64
  ix_slots_with_updates :: u64
  ix_reconnects :: u64
  ix_guard :: payload_guard
  ix_tip_slot :: u64
  ix_last_produced :: "timestamp option"
  ix_acct_since_lag :: u64
  ix_force_tip :: bool
  ix_fail_streak :: u32
  ix_shutdown :: bool
  ix_got_data :: bool
  ix_stream_err :: "string option"
  ix_session_first_slot :: "u64 option"
  ix_resume_judged :: bool

definition indexer_new :: "bool \<Rightarrow> db \<Rightarrow> indexer" where
  "indexer_new sink db =
     \<lparr>ix_writer = (if sink then Some writer_new else None), ix_db = db, ix_tally = [],
      ix_total_bytes = 0, ix_first_slot = None, ix_last_slot = 0, ix_slots_with_updates = 0,
      ix_reconnects = 0, ix_guard = payload_guard_new, ix_tip_slot = 0, ix_last_produced = None,
      ix_acct_since_lag = 0, ix_force_tip = False, ix_fail_streak = 0, ix_shutdown = False,
      ix_got_data = False, ix_stream_err = None, ix_session_first_slot = None,
      ix_resume_judged = False\<rparr>"

section \<open>One account update\<close>

text \<open>\<open>*tally.entry(k).or_insert(0) += 1\<close>\<close>

fun tally_add :: "account_kind \<times> nat \<Rightarrow> tally \<Rightarrow> tally" where
  "tally_add k [] = [(k, 1)]"
| "tally_add k ((k', n) # t) = (if k = k' then (k', n + 1) # t else (k', n) # tally_add k t)"

definition slot_span :: "indexer \<Rightarrow> u64" where
  "slot_span ix =
     saturating_sub (ix_last_slot ix)
       (case ix_first_slot ix of Some s \<Rightarrow> s | None \<Rightarrow> ix_last_slot ix)"

definition budget_reached :: "u64 option \<Rightarrow> indexer \<Rightarrow> bool" where
  "budget_reached budget ix = (case budget of None \<Rightarrow> False | Some b \<Rightarrow> b \<le> slot_span ix)"

text \<open>The accumulators an account update touches, up to the slot span.\<close>

definition account_stats :: "external \<Rightarrow> u64 \<Rightarrow> account_info \<Rightarrow> indexer \<Rightarrow> indexer" where
  "account_stats ext slot info ix =
     (let kind = account_kind_from (x_digest ext) (ai_data info);
          data_len = length (ai_data info);
          (guard, action) = observe slot (ai_lamports info) data_len (ix_guard ix)
      in ix\<lparr>ix_got_data := True,
            ix_session_first_slot := get_or_insert (ix_session_first_slot ix) slot,
            ix_acct_since_lag := ix_acct_since_lag ix + 1,
            ix_tally := tally_add (kind, data_len) (ix_tally ix),
            ix_total_bytes := ix_total_bytes ix + of_nat data_len,
            ix_guard := guard,
            ix_first_slot := get_or_insert (ix_first_slot ix) slot,
            ix_slots_with_updates :=
              (if ix_first_slot ix = None then 1
               else if slot \<noteq> ix_last_slot ix then ix_slots_with_updates ix + 1
               else ix_slots_with_updates ix),
            ix_last_slot := slot\<rparr>)"

text \<open>The three decode blocks; a payload that does not decode pushes nothing.\<close>

definition buffer_obligation :: "external \<Rightarrow> u64 \<Rightarrow> account_kind \<Rightarrow> account_info \<Rightarrow> writer \<Rightarrow> writer" where
  "buffer_obligation ext slot kind info w =
     (if kind = Known ''Obligation'' then
        case decode_obligation (x_cast ext) (ai_data info) of
          Some (Inr d) \<Rightarrow> push_snapshot (obligation_row slot (ai_write_version info) (ai_pubkey info) d) w
        | Some (Inl e) \<Rightarrow> w
        | None \<Rightarrow> w
      else w)"

definition buffer_reserve :: "external \<Rightarrow> u64 \<Rightarrow> account_kind \<Rightarrow> account_info \<Rightarrow> writer \<Rightarrow> writer" where
  "buffer_reserve ext slot kind info w =
     (if kind = Known ''Reserve'' then
        case decode_reserve (x_cast ext) (ai_data info) of
          Some (Inr d) \<Rightarrow> push_reserve_snapshot (reserve_row slot (ai_write_version info) (ai_pubkey info) d) w
        | Some (Inl e) \<Rightarrow> w
        | None \<Rightarrow> w
      else w)"

definition buffer_market :: "external \<Rightarrow> u64 \<Rightarrow> account_kind \<Rightarrow> account_info \<Rightarrow> writer \<Rightarrow> writer" where
  "buffer_market ext slot kind info w =
     (if kind = Known ''LendingMarket'' then
        case decode_lending_market (x_cast ext) (x_spl ext) (ai_data info) of
          Some (Inr d) \<Rightarrow> push_lm_snapshot (market_row slot (ai_write_version info) (ai_pubkey info) d) w
        | Some (Inl e) \<Rightarrow> w
        | None \<Rightarrow> w
      else w)"

definition buffer_update :: "external \<Rightarrow> u64 \<Rightarrow> account_info \<Rightarrow> writer \<Rightarrow> writer" where
  "buffer_update ext slot info w =
     (let kind = account_kind_from (x_digest ext) (ai_data info);
          w = buffer_obligation ext slot kind info w;
          w = buffer_reserve ext slot kind info w;
          w = buffer_market ext slot kind info w
      in push_update (update_row slot kind info) w)"

definition batch_full :: "writer \<Rightarrow> bool" where
  "batch_full w \<longleftrightarrow>
     BATCH_MAX_ROWS \<le> length (w_buf w) \<or> BATCH_MAX_ROWS \<le> length (w_snap_buf w)
     \<or> BATCH_MAX_ROWS \<le> length (w_reserve_buf w) \<or> BATCH_MAX_ROWS \<le> length (w_lm_buf w)"

text \<open>How a step leaves the session: go on, break out of it, return an error, or never wake.\<close>

datatype step_result = Continue indexer | Break indexer | Return_Err string indexer | Wedge indexer

text \<open>\<open>w.flush().await?\<close> on the writer, if there is one.\<close>

definition flush_writer_step :: "external \<Rightarrow> indexer \<Rightarrow> step_result" where
  "flush_writer_step ext ix =
     (case ix_writer ix of
        None \<Rightarrow> Continue ix
      | Some w \<Rightarrow>
          (case flush (x_ins ext) w (ix_db ix) of
             (w', db', Done _) \<Rightarrow> Continue (ix\<lparr>ix_writer := Some w', ix_db := db'\<rparr>)
           | (w', db', Fail e) \<Rightarrow> Return_Err e (ix\<lparr>ix_writer := Some w', ix_db := db'\<rparr>)
           | (w', db', Hang) \<Rightarrow> Wedge (ix\<lparr>ix_writer := Some w', ix_db := db'\<rparr>)))"

definition step_then :: "step_result \<Rightarrow> (indexer \<Rightarrow> step_result) \<Rightarrow> step_result" where
  "step_then r k =
     (case r of Continue ix \<Rightarrow> k ix | Break ix \<Rightarrow> Break ix | Return_Err e ix \<Rightarrow> Return_Err e ix | Wedge ix \<Rightarrow> Wedge ix)"

definition handle_account :: "external \<Rightarrow> u64 option \<Rightarrow> u64 \<Rightarrow> account_info \<Rightarrow> indexer \<Rightarrow> step_result" where
  "handle_account ext budget slot info ix =
     (let ix = account_stats ext slot info ix;
          ix = ix\<lparr>ix_writer := map_option (buffer_update ext slot info) (ix_writer ix)\<rparr>;
          full = (case ix_writer ix of Some w \<Rightarrow> batch_full w | None \<Rightarrow> False)
      in step_then (if full then flush_writer_step ext ix else Continue ix) (\<lambda>ix.
           if budget_reached budget ix then Break ix else Continue ix))"

section \<open>One wake-up of the session\<close>

text \<open>
  \<open>if let Some(w) = writer.as_mut()\<close> around a \<open>record_gap\<close> whose error is only logged: the
  session goes on after an error, but not while the insert is unacknowledged.
\<close>

definition try_record_gap :: "external \<Rightarrow> u64 \<Rightarrow> u64 \<Rightarrow> string \<Rightarrow> indexer \<Rightarrow> step_result" where
  "try_record_gap ext start_slot end_slot reason ix =
     (case ix_writer ix of
        None \<Rightarrow> Continue ix
      | Some w \<Rightarrow>
          (case record_gap (x_ins ext) STREAM start_slot end_slot reason (ix_db ix) of
             (db', Hang) \<Rightarrow> Wedge (ix\<lparr>ix_db := db'\<rparr>)
           | (db', _) \<Rightarrow> Continue (ix\<lparr>ix_db := db'\<rparr>)))"

text \<open>Startup gap detection, once per session and only after an account update.\<close>

definition judge_resume :: "external \<Rightarrow> u64 option \<Rightarrow> indexer \<Rightarrow> step_result" where
  "judge_resume ext resume_from ix =
     (case (ix_resume_judged ix, ix_session_first_slot ix) of
        (False, Some first) \<Rightarrow>
          let ix = ix\<lparr>ix_resume_judged := True\<rparr> in
          (case classify_resume resume_from first of
             Not_Applicable \<Rightarrow> Continue ix
           | Clean _ \<Rightarrow> Continue ix
           | Gap start_slot end_slot missed \<Rightarrow>
               try_record_gap ext start_slot end_slot (startup_gap_reason (end_slot - start_slot)) ix)
      | _ \<Rightarrow> Continue ix)"

definition note_produced :: "timestamp option \<Rightarrow> indexer \<Rightarrow> indexer" where
  "note_produced created_at ix =
     (case created_at of None \<Rightarrow> ix | Some ts \<Rightarrow> ix\<lparr>ix_last_produced := Some ts\<rparr>)"

definition handle_message ::
  "external \<Rightarrow> u64 option \<Rightarrow> u64 option \<Rightarrow> timestamp option \<Rightarrow> update_oneof \<Rightarrow> indexer \<Rightarrow> step_result" where
  "handle_message ext budget resume_from created_at upd ix =
     (let ix = note_produced created_at ix in
      case upd of
        Account_Update slot None \<Rightarrow> Continue ix
      | Account_Update slot (Some info) \<Rightarrow>
          step_then (handle_account ext budget slot info ix) (judge_resume ext resume_from)
      | Slot_Update slot \<Rightarrow> judge_resume ext resume_from (ix\<lparr>ix_tip_slot := max (ix_tip_slot ix) slot\<rparr>)
      | Ping_Update \<Rightarrow> judge_resume ext resume_from ix
      | Other_Update \<Rightarrow> judge_resume ext resume_from ix)"

definition lag_line :: "indexer \<Rightarrow> indexer" where
  "lag_line ix = (if 0 < ix_tip_slot ix then ix\<lparr>ix_acct_since_lag := 0\<rparr> else ix)"

definition behind :: "indexer \<Rightarrow> u64" where
  "behind ix = saturating_sub (ix_tip_slot ix) (ix_last_slot ix)"

definition session_step :: "external \<Rightarrow> u64 option \<Rightarrow> u64 option \<Rightarrow> event \<Rightarrow> indexer \<Rightarrow> step_result" where
  "session_step ext budget resume_from e ix =
     (case e of
        Stream_Ended \<Rightarrow> Break ix
      | Stream_Error msg \<Rightarrow> Break (ix\<lparr>ix_stream_err := Some msg\<rparr>)
      | Message created_at upd \<Rightarrow> handle_message ext budget resume_from created_at upd ix
      | Flush_Tick \<Rightarrow> flush_writer_step ext ix
      | Lag_Tick \<Rightarrow> Continue (lag_line ix)
      | Sigint \<Rightarrow> Break (ix\<lparr>ix_shutdown := True\<rparr>)
      | Sigterm \<Rightarrow> Break (ix\<lparr>ix_shutdown := True\<rparr>))"

text \<open>The stream loop. \<open>Continue\<close> at the end of the events: the process is waiting.\<close>

fun run_stream :: "external \<Rightarrow> u64 option \<Rightarrow> u64 option \<Rightarrow> event list \<Rightarrow> indexer \<Rightarrow> step_result" where
  "run_stream ext budget resume_from [] ix = Continue ix"
| "run_stream ext budget resume_from (e # es) ix =
     step_then (session_step ext budget resume_from e ix) (run_stream ext budget resume_from es)"

section \<open>The reconnect loop\<close>

text \<open>
  How a session ends: the loop goes round again, \<open>main\<close> returns, or the process is still
  waiting for an event or for an acknowledgement.
\<close>

datatype session_result =
    Reconnect indexer
  | Finished indexer
  | Failed string indexer
  | Waiting indexer
  | Wedged indexer

definition backoff_secs :: "u32 \<Rightarrow> u64" where
  "backoff_secs fail_streak = min (push_bit (unat (min fail_streak 5)) 1) 30"

definition next_streak :: "bool \<Rightarrow> u32 \<Rightarrow> u32" where
  "next_streak got_data streak = (if got_data then 0 else saturating_add streak 1)"

text \<open>
  A resumed session that received nothing is taken to have asked for a slot beyond the
  replay window: a gap is recorded and the next session starts from the tip.
\<close>

definition check_unreachable :: "external \<Rightarrow> u64 option \<Rightarrow> indexer \<Rightarrow> step_result" where
  "check_unreachable ext resume_from ix =
     (case (ix_got_data ix, resume_from) of
        (False, Some s) \<Rightarrow>
          step_then (try_record_gap ext s (ix_last_slot ix)
                       ''resume unreachable: no data before stream error'' ix)
            (\<lambda>ix. Continue (ix\<lparr>ix_force_tip := True\<rparr>))
      | _ \<Rightarrow> Continue ix)"

definition count_reconnect :: "indexer \<Rightarrow> indexer" where
  "count_reconnect ix =
     ix\<lparr>ix_reconnects := ix_reconnects ix + 1,
        ix_fail_streak := next_streak (ix_got_data ix) (ix_fail_streak ix)\<rparr>"

text \<open>\<open>?\<close>, \<open>break\<close> and \<open>return\<close> out of the reconnect loop, and going round it again.\<close>

definition loop_again :: "step_result \<Rightarrow> (indexer \<Rightarrow> session_result) \<Rightarrow> session_result" where
  "loop_again r k =
     (case r of
        Continue ix \<Rightarrow> k ix
      | Break ix \<Rightarrow> Finished ix
      | Return_Err e ix \<Rightarrow> Failed e ix
      | Wedge ix \<Rightarrow> Wedged ix)"

text \<open>What follows the stream loop: final flush, stop conditions, the unreachable-resume check.\<close>

definition finish_session :: "external \<Rightarrow> u64 option \<Rightarrow> u64 option \<Rightarrow> indexer \<Rightarrow> session_result" where
  "finish_session ext budget resume_from ix =
     loop_again (flush_writer_step ext ix) (\<lambda>ix.
       if ix_shutdown ix then Finished ix
       else if budget_reached budget ix then Finished ix
       else if budget \<noteq> None then Finished ix
       else loop_again (check_unreachable ext resume_from ix) (\<lambda>ix. Reconnect (count_reconnect ix)))"

text \<open>A subscribe that fails: tip restart if it asked for a slot and the run is unattended.\<close>

definition subscribe_failed :: "external \<Rightarrow> u64 option \<Rightarrow> u64 option \<Rightarrow> string \<Rightarrow> indexer \<Rightarrow> session_result" where
  "subscribe_failed ext budget resume_from e ix =
     (case (resume_from, budget) of
        (Some s, None) \<Rightarrow>
          loop_again (try_record_gap ext s (ix_last_slot ix) ''subscribe failed: replay window exceeded'' ix)
            (\<lambda>ix. Reconnect (ix\<lparr>ix_force_tip := True\<rparr>))
      | _ \<Rightarrow> Failed e ix)"

definition resume_point :: "external \<Rightarrow> session_input \<Rightarrow> indexer \<Rightarrow> string + u64 option" where
  "resume_point ext inp ix =
     (if ix_force_tip ix then Inr None
      else case ix_writer ix of
        None \<Rightarrow> Inr None
      | Some w \<Rightarrow> read_resume_slot (x_final ext) (si_query_err inp) (ix_db ix))"

definition start_session :: "indexer \<Rightarrow> indexer" where
  "start_session ix =
     ix\<lparr>ix_got_data := False, ix_stream_err := None, ix_session_first_slot := None,
        ix_resume_judged := False\<rparr>"

definition session :: "external \<Rightarrow> u64 option \<Rightarrow> session_input \<Rightarrow> indexer \<Rightarrow> session_result" where
  "session ext budget inp ix =
     (case resume_point ext inp ix of
        Inl e \<Rightarrow> Failed e ix
      | Inr resume_from \<Rightarrow>
          let ix = ix\<lparr>ix_force_tip := False\<rparr> in
          (case si_connect_err inp of
             Some e \<Rightarrow> Failed e ix
           | None \<Rightarrow>
               (case si_subscribe_err inp of
                  Some e \<Rightarrow> subscribe_failed ext budget resume_from e ix
                | None \<Rightarrow>
                    (case run_stream ext budget resume_from (si_events inp) (start_session ix) of
                       Continue ix \<Rightarrow> Waiting ix
                     | Wedge ix \<Rightarrow> Wedged ix
                     | Return_Err e ix \<Rightarrow> Failed e ix
                     | Break ix \<Rightarrow> finish_session ext budget resume_from ix))))"

text \<open>The whole process on the inputs of its successive sessions.\<close>

fun run :: "external \<Rightarrow> u64 option \<Rightarrow> session_input list \<Rightarrow> indexer \<Rightarrow> session_result" where
  "run ext budget [] ix = Waiting ix"
| "run ext budget (inp # inps) ix =
     (case session ext budget inp ix of
        Reconnect ix \<Rightarrow> run ext budget inps ix
      | Finished ix \<Rightarrow> Finished ix
      | Failed e ix \<Rightarrow> Failed e ix
      | Waiting ix \<Rightarrow> Waiting ix
      | Wedged ix \<Rightarrow> Wedged ix)"

text \<open>The process from its start: \<open>sink\<close> says whether \<open>CLICKHOUSE_URL\<close> is set.\<close>

definition indexer_main :: "external \<Rightarrow> bool \<Rightarrow> u64 option \<Rightarrow> session_input list \<Rightarrow> db \<Rightarrow> session_result" where
  "indexer_main ext sink budget inps db = run ext budget inps (indexer_new sink db)"

text \<open>The number of updates the summary reports.\<close>

definition total_updates :: "indexer \<Rightarrow> u64" where
  "total_updates ix = sum_list (map snd (ix_tally ix))"

fun result_state :: "session_result \<Rightarrow> indexer" where
  "result_state (Reconnect ix) = ix"
| "result_state (Finished ix) = ix"
| "result_state (Failed e ix) = ix"
| "result_state (Waiting ix) = ix"
| "result_state (Wedged ix) = ix"

fun step_state :: "step_result \<Rightarrow> indexer" where
  "step_state (Continue ix) = ix"
| "step_state (Break ix) = ix"
| "step_state (Return_Err e ix) = ix"
| "step_state (Wedge ix) = ix"

end
