(* ===== verification/Indexer_Facts.thy ===== *)
theory Indexer_Facts
  imports Indexer
begin

text \<open>
  Facts about the indexer's steps. The locale \<open>session_invariant\<close> is the contract under
  which a condition on the state survives a whole run: preserved by an account update, by
  a flush and by a recorded gap, and blind to the bookkeeping fields. It is interpreted
  for the bound on the buffers, for the backing of checkpoints by stored rows, and for the
  tallies.
\<close>

section \<open>Steps\<close>

lemma step_then_simps [simp]:
  "step_then (Continue ix) k = k ix"
  "step_then (Break ix) k = Break ix"
  "step_then (Return_Err e ix) k = Return_Err e ix"
  "step_then (Wedge ix) k = Wedge ix"
  by (simp_all add: step_then_def)

text \<open>The part of the state that the tables, the buffers and the totals live in.\<close>

definition same_core :: "indexer \<Rightarrow> indexer \<Rightarrow> bool" where
  "same_core a b \<longleftrightarrow>
     ix_writer a = ix_writer b \<and> ix_db a = ix_db b \<and> ix_tally a = ix_tally b
     \<and> ix_total_bytes a = ix_total_bytes b \<and> ix_first_slot a = ix_first_slot b
     \<and> ix_last_slot a = ix_last_slot b \<and> ix_slots_with_updates a = ix_slots_with_updates b
     \<and> ix_guard a = ix_guard b"

lemma same_core_refl [simp]: "same_core ix ix"
  by (simp add: same_core_def)

locale session_invariant =
  fixes ext :: external and I :: "indexer \<Rightarrow> bool"
  assumes core: "same_core a b \<Longrightarrow> I a \<Longrightarrow> I b"
    and account: "I ix \<Longrightarrow> I (step_state (handle_account ext budget slot info ix))"
    and flush_step: "I ix \<Longrightarrow> I (step_state (flush_writer_step ext ix))"
    and gap_step: "I ix \<Longrightarrow> I (step_state (try_record_gap ext lo hi why ix))"
begin

lemma fields:
  "I ix \<Longrightarrow> I (ix\<lparr>ix_resume_judged := j\<rparr>)"
  "I ix \<Longrightarrow> I (ix\<lparr>ix_tip_slot := t\<rparr>)"
  "I ix \<Longrightarrow> I (ix\<lparr>ix_stream_err := e\<rparr>)"
  "I ix \<Longrightarrow> I (ix\<lparr>ix_shutdown := d\<rparr>)"
  "I ix \<Longrightarrow> I (ix\<lparr>ix_force_tip := f\<rparr>)"
  "I ix \<Longrightarrow> I (ix\<lparr>ix_reconnects := n, ix_fail_streak := m\<rparr>)"
  "I ix \<Longrightarrow> I (note_produced ts ix)"
  "I ix \<Longrightarrow> I (lag_line ix)"
  "I ix \<Longrightarrow> I (start_session ix)"
  by (erule core [rotated],
      simp add: same_core_def note_produced_def lag_line_def start_session_def split: option.splits)+

lemma judge: "I ix \<Longrightarrow> I (step_state (judge_resume ext r ix))"
  by (auto simp: judge_resume_def Let_def fields intro: gap_step fields split: resume_verdict.splits option.splits bool.splits)

lemma then_invariant:
  "I (step_state r) \<Longrightarrow> (\<And>ix. I ix \<Longrightarrow> I (step_state (k ix))) \<Longrightarrow> I (step_state (step_then r k))"
  by (cases r) auto

lemma message: "I ix \<Longrightarrow> I (step_state (handle_message ext budget r ts upd ix))"
  by (cases upd) (auto simp: handle_message_def Let_def intro: then_invariant account judge fields split: option.splits)

lemma step: "I ix \<Longrightarrow> I (step_state (session_step ext budget r e ix))"
  by (cases e) (auto simp: session_step_def intro: message flush_step fields)

lemma stream: "I ix \<Longrightarrow> I (step_state (run_stream ext budget r es ix))"
  by (induction es arbitrary: ix) (auto intro: then_invariant step)

lemma again_invariant:
  "I (step_state r) \<Longrightarrow> (\<And>ix. I ix \<Longrightarrow> I (result_state (k ix))) \<Longrightarrow> I (result_state (loop_again r k))"
  by (cases r) (auto simp: loop_again_def)

lemma unreachable_check: "I ix \<Longrightarrow> I (step_state (check_unreachable ext r ix))"
  by (auto simp: check_unreachable_def intro!: then_invariant gap_step fields split: option.splits bool.splits)

lemma finish: "I ix \<Longrightarrow> I (result_state (finish_session ext budget r ix))"
  by (auto simp: finish_session_def count_reconnect_def
      intro!: again_invariant flush_step unreachable_check fields)

lemma failed_subscribe: "I ix \<Longrightarrow> I (result_state (subscribe_failed ext budget r e ix))"
  by (auto simp: subscribe_failed_def intro!: again_invariant gap_step fields split: option.splits)

lemma session: "I ix \<Longrightarrow> I (result_state (session ext budget inp ix))"
proof -
  assume "I ix"
  then have I: "I (ix\<lparr>ix_force_tip := False\<rparr>)" by (rule fields)
  have str: "I (step_state (run_stream ext budget r (si_events inp) (start_session (ix\<lparr>ix_force_tip := False\<rparr>))))" for r
    using I by (intro stream fields(9))
  have fin: "I (result_state (case run_stream ext budget r (si_events inp) (start_session (ix\<lparr>ix_force_tip := False\<rparr>)) of
      Continue ix \<Rightarrow> Waiting ix | Wedge ix \<Rightarrow> Wedged ix | Return_Err e ix \<Rightarrow> Failed e ix
    | Break ix \<Rightarrow> finish_session ext budget r ix))" for r
    using str [of r] by (cases "run_stream ext budget r (si_events inp) (start_session (ix\<lparr>ix_force_tip := False\<rparr>))")
      (simp_all add: finish)
  show ?thesis
    using \<open>I ix\<close> I fin
    by (simp add: session_def Let_def failed_subscribe split: sum.splits option.splits)
qed

lemma run: "I ix \<Longrightarrow> I (result_state (run ext budget inps ix))"
proof (induction inps arbitrary: ix)
  case Nil
  then show ?case by simp
next
  case (Cons inp inps)
  then show ?case
    using session [of ix budget inp] by (auto split: session_result.splits)
qed

end

section \<open>The parts of a step\<close>

lemma account_stats_simps [simp]:
  "ix_writer (account_stats ext slot info ix) = ix_writer ix"
  "ix_db (account_stats ext slot info ix) = ix_db ix"
  "ix_got_data (account_stats ext slot info ix)"
  "ix_last_slot (account_stats ext slot info ix) = slot"
  by (simp_all add: account_stats_def Let_def split_beta)

lemma w_buf_buffer [simp]:
  "w_buf (buffer_obligation ext slot kind info w) = w_buf w"
  "w_buf (buffer_reserve ext slot kind info w) = w_buf w"
  "w_buf (buffer_market ext slot kind info w) = w_buf w"
  by (auto simp: buffer_obligation_def buffer_reserve_def buffer_market_def push_snapshot_def
      push_reserve_snapshot_def push_lm_snapshot_def split: option.splits sum.splits)

text \<open>The row an account update becomes.\<close>

definition row_of :: "external \<Rightarrow> u64 \<times> account_info \<Rightarrow> account_update_row" where
  "row_of ext u = update_row (fst u) (account_kind_from (x_digest ext) (ai_data (snd u))) (snd u)"

lemma row_of_simps [simp]:
  "au_slot (row_of ext (slot, info)) = slot"
  "au_write_version (row_of ext (slot, info)) = ai_write_version info"
  by (simp_all add: row_of_def update_row_def)

lemma w_buf_buffer_update: "w_buf (buffer_update ext slot info w) = w_buf w @ [row_of ext (slot, info)]"
  by (simp add: buffer_update_def Let_def push_update_def row_of_def)

text \<open>Every row an account update becomes: the raw one, and the decoded one of the kinds that decode.\<close>

definition rows_of :: "external \<Rightarrow> u64 \<times> account_info \<Rightarrow> data_row set" where
  "rows_of ext u =
     (let (slot, info) = u; kind = account_kind_from (x_digest ext) (ai_data info);
          wv = ai_write_version info; key = ai_pubkey info
      in {Raw (row_of ext u)}
         \<union> {Obligation_Snapshot (obligation_row slot wv key d) |d.
              kind = Known ''Obligation'' \<and> decode_obligation (x_cast ext) (ai_data info) = Some (Inr d)}
         \<union> {Reserve_Snapshot (reserve_row slot wv key d) |d.
              kind = Known ''Reserve'' \<and> decode_reserve (x_cast ext) (ai_data info) = Some (Inr d)}
         \<union> {Market_Snapshot (market_row slot wv key d) |d.
              kind = Known ''LendingMarket'' \<and> decode_lending_market (x_cast ext) (x_spl ext) (ai_data info) = Some (Inr d)})"

lemma rows_held_push [simp]:
  "rows_held (push_update r1 w) = insert (Raw r1) (rows_held w)"
  "rows_held (push_snapshot r2 w) = insert (Obligation_Snapshot r2) (rows_held w)"
  "rows_held (push_reserve_snapshot r3 w) = insert (Reserve_Snapshot r3) (rows_held w)"
  "rows_held (push_lm_snapshot r4 w) = insert (Market_Snapshot r4) (rows_held w)"
  by (auto simp: rows_held_def data_rows_def push_update_def push_snapshot_def
      push_reserve_snapshot_def push_lm_snapshot_def)

lemma rows_held_buffer:
  "rows_held (buffer_obligation ext slot kind info w) = rows_held w
     \<union> {Obligation_Snapshot (obligation_row slot (ai_write_version info) (ai_pubkey info) d) |d.
          kind = Known ''Obligation'' \<and> decode_obligation (x_cast ext) (ai_data info) = Some (Inr d)}"
  "rows_held (buffer_reserve ext slot kind info w) = rows_held w
     \<union> {Reserve_Snapshot (reserve_row slot (ai_write_version info) (ai_pubkey info) d) |d.
          kind = Known ''Reserve'' \<and> decode_reserve (x_cast ext) (ai_data info) = Some (Inr d)}"
  "rows_held (buffer_market ext slot kind info w) = rows_held w
     \<union> {Market_Snapshot (market_row slot (ai_write_version info) (ai_pubkey info) d) |d.
          kind = Known ''LendingMarket''
          \<and> decode_lending_market (x_cast ext) (x_spl ext) (ai_data info) = Some (Inr d)}"
  by (auto simp: buffer_obligation_def buffer_reserve_def buffer_market_def split: option.splits sum.splits)

lemma rows_held_buffer_update:
  "rows_held (buffer_update ext slot info w) = rows_held w \<union> rows_of ext (slot, info)"
  by (simp add: buffer_update_def Let_def rows_held_buffer rows_of_def row_of_def Un_assoc)

text \<open>A writer whose raw buffer is empty has no snapshot rows either.\<close>

definition tidy :: "writer \<Rightarrow> bool" where
  "tidy w \<longleftrightarrow> (w_buf w = [] \<longrightarrow> writer_is_empty w)"

lemma tidy_new [simp]: "tidy writer_new"
  by (simp add: tidy_def)

lemma tidy_buffer_update [simp]: "tidy (buffer_update ext slot info w)"
  by (simp add: tidy_def w_buf_buffer_update)

lemma flush_step_cases:
  obtains (sampling) "ix_writer ix = None" "flush_writer_step ext ix = Continue ix"
  | (flushed) w where "ix_writer ix = Some w" "snd (snd (flush (x_ins ext) w (ix_db ix))) = Done ()"
      "flush_writer_step ext ix =
         Continue (ix\<lparr>ix_writer := Some writer_new, ix_db := fst (snd (flush (x_ins ext) w (ix_db ix)))\<rparr>)"
  | (failed) w e where "ix_writer ix = Some w" "snd (snd (flush (x_ins ext) w (ix_db ix))) = Fail e"
      "flush_writer_step ext ix =
         Return_Err e (ix\<lparr>ix_writer := Some writer_new, ix_db := fst (snd (flush (x_ins ext) w (ix_db ix)))\<rparr>)"
proof (cases "ix_writer ix")
  case None
  then show thesis by (intro sampling) (simp_all add: flush_writer_step_def)
next
  case (Some w)
  obtain w' db' res where f: "flush (x_ins ext) w (ix_db ix) = (w', db', res)"
    by (cases "flush (x_ins ext) w (ix_db ix)")
  with flush_writer [of "x_ins ext" w "ix_db ix"] have w': "w' = writer_new" by simp
  show thesis
  proof (cases res)
    case (Done u)
    with Some f w' show thesis by (intro flushed [of w]) (simp_all add: flush_writer_step_def)
  next
    case (Fail e)
    with Some f w' show thesis by (intro failed [of w e]) (simp_all add: flush_writer_step_def)
  next
    case Hang
    with f flush_not_hang [of "x_ins ext" w "ix_db ix"] show thesis by simp
  qed
qed

lemma try_record_gap_state:
  "step_state (try_record_gap ext lo hi why ix) =
     ix\<lparr>ix_db := ix_db (step_state (try_record_gap ext lo hi why ix))\<rparr>"
  by (auto simp: try_record_gap_def split: option.splits prod.splits outcome.splits)

lemma try_record_gap_tables [simp]:
  "t_updates (ix_db (step_state (try_record_gap ext lo hi why ix))) = t_updates (ix_db ix)"
  "t_checkpoint (ix_db (step_state (try_record_gap ext lo hi why ix))) = t_checkpoint (ix_db ix)"
  "rows_in (ix_db (step_state (try_record_gap ext lo hi why ix))) = rows_in (ix_db ix)"
proof -
  have "ix_db (step_state (try_record_gap ext lo hi why ix)) = (if ix_writer ix = None then ix_db ix
      else fst (record_gap (x_ins ext) STREAM lo hi why (ix_db ix)))"
    by (auto simp: try_record_gap_def split: option.splits prod.splits outcome.splits)
  then show "t_updates (ix_db (step_state (try_record_gap ext lo hi why ix))) = t_updates (ix_db ix)"
    and "t_checkpoint (ix_db (step_state (try_record_gap ext lo hi why ix))) = t_checkpoint (ix_db ix)"
    and "rows_in (ix_db (step_state (try_record_gap ext lo hi why ix))) = rows_in (ix_db ix)"
    by (simp_all add: record_gap_frame)
qed

lemma try_record_gap_writer [simp]:
  "ix_writer (step_state (try_record_gap ext lo hi why ix)) = ix_writer ix"
  by (subst try_record_gap_state) simp

section \<open>The buffers stay below the batch size\<close>

definition writer_bounded :: "writer \<Rightarrow> bool" where
  "writer_bounded w \<longleftrightarrow> \<not> batch_full w"

definition bounded :: "indexer \<Rightarrow> bool" where
  "bounded ix \<longleftrightarrow> (case ix_writer ix of None \<Rightarrow> True | Some w \<Rightarrow> writer_bounded w)"

lemma bounded_new [simp]: "writer_bounded writer_new"
  by (simp add: writer_bounded_def batch_full_def writer_new_def const_defs)

lemma bounded_flush: "bounded (step_state (flush_writer_step ext ix))"
  by (cases rule: flush_step_cases [of ix ext]) (auto simp: bounded_def)

lemma budget_stop: "step_state (if budget_reached budget ix then Break ix else Continue ix) = ix"
  by simp

lemma handle_account_state:
  "step_state (handle_account ext budget slot info ix) =
     (let ix = account_stats ext slot info ix;
          ix = ix\<lparr>ix_writer := map_option (buffer_update ext slot info) (ix_writer ix)\<rparr>
      in if (case ix_writer ix of Some w \<Rightarrow> batch_full w | None \<Rightarrow> False)
         then step_state (flush_writer_step ext ix) else ix)"
  unfolding handle_account_def Let_def
  by (rule flush_step_cases [of "account_stats ext slot info ix\<lparr>ix_writer := map_option (buffer_update ext slot info) (ix_writer (account_stats ext slot info ix))\<rparr>" ext])
    (simp_all split: option.splits)

lemma bounded_account: "bounded (step_state (handle_account ext budget slot info ix))"
  by (simp add: handle_account_state Let_def bounded_flush)
    (auto simp: bounded_def writer_bounded_def split: option.splits)

interpretation buffers: session_invariant ext bounded
proof unfold_locales
  show "bounded b" if "same_core a b" "bounded a" for a b
    using that by (auto simp: bounded_def same_core_def)
  show "bounded (step_state (try_record_gap ext lo hi why ix))" if "bounded ix" for lo hi why ix
    using that by (simp add: bounded_def)
qed (simp_all add: bounded_account bounded_flush)

section \<open>Checkpoints are backed by stored rows\<close>

definition backed :: "checkpoint_row list \<Rightarrow> db \<Rightarrow> bool" where
  "backed old db \<longleftrightarrow>
     (\<forall>c \<in> set (t_checkpoint db). c \<in> set old \<or>
        ck_stream c = STREAM \<and>
        (\<exists>r \<in> set (t_updates db).
           au_slot r = ck_last_slot c \<and> au_write_version r = ck_last_write_version c))"

definition backed_state :: "checkpoint_row list \<Rightarrow> indexer \<Rightarrow> bool" where
  "backed_state old ix \<longleftrightarrow>
     backed old (ix_db ix) \<and> (case ix_writer ix of None \<Rightarrow> True | Some w \<Rightarrow> tidy w)"

lemma backed_flush:
  assumes "backed old db" and "tidy w"
  shows "backed old (fst (snd (flush ins w db)))"
proof -
  obtain part where part: "t_updates (fst (snd (flush ins w db))) = t_updates db @ part"
    using flush_updates_part by blast
  from flush_checkpoint_cases [of ins w db] show ?thesis
  proof
    assume "t_checkpoint (fst (snd (flush ins w db))) = t_checkpoint db"
    with part assms(1) show ?thesis by (auto simp: backed_def)
  next
    assume *: "\<not> writer_is_empty w \<and>
      t_checkpoint (fst (snd (flush ins w db))) = t_checkpoint db @ [checkpoint_of w] \<and>
      t_updates (fst (snd (flush ins w db))) = t_updates db @ w_buf w \<and>
      t_obligations (fst (snd (flush ins w db))) = t_obligations db @ w_snap_buf w \<and>
      t_markets (fst (snd (flush ins w db))) = t_markets db @ w_lm_buf w \<and>
      t_reserves (fst (snd (flush ins w db))) = t_reserves db @ w_reserve_buf w"
    with assms(2) have "w_buf w \<noteq> []" by (auto simp: tidy_def)
    then have "last (w_buf w) \<in> set (w_buf w)" by simp
    with * assms(1) \<open>w_buf w \<noteq> []\<close> show ?thesis
      by (auto simp: backed_def checkpoint_of_def high_water_updates)
  qed
qed

lemma backed_flush_step:
  "backed_state old ix \<Longrightarrow> backed_state old (step_state (flush_writer_step ext ix))"
  by (cases rule: flush_step_cases [of ix ext]) (auto simp: backed_state_def backed_flush)

lemma backed_account:
  "backed_state old ix \<Longrightarrow> backed_state old (step_state (handle_account ext budget slot info ix))"
  by (auto simp: handle_account_state Let_def intro!: backed_flush_step)
    (auto simp: backed_state_def split: option.splits)

interpretation checkpoint_rows: session_invariant ext "backed_state old"
proof unfold_locales
  show "backed_state old b" if "same_core a b" "backed_state old a" for a b
    using that by (auto simp: backed_state_def same_core_def)
  show "backed_state old (step_state (try_record_gap ext lo hi why ix))" if "backed_state old ix" for lo hi why ix
    using that by (simp add: backed_state_def backed_def)
qed (simp_all add: backed_account backed_flush_step)

section \<open>Without a sink nothing is written\<close>

interpretation sampling: session_invariant ext "\<lambda>ix. ix_writer ix = None \<and> ix_db ix = db0"
proof unfold_locales
  show "ix_writer (step_state (handle_account ext budget slot info ix)) = None
      \<and> ix_db (step_state (handle_account ext budget slot info ix)) = db0"
    if "ix_writer ix = None \<and> ix_db ix = db0" for budget slot info ix
    using that by (simp add: handle_account_state Let_def)
  show "ix_writer (step_state (flush_writer_step ext ix)) = None
      \<and> ix_db (step_state (flush_writer_step ext ix)) = db0"
    if "ix_writer ix = None \<and> ix_db ix = db0" for ix
    using that by (simp add: flush_writer_step_def)
  show "ix_writer (step_state (try_record_gap ext lo hi why ix)) = None
      \<and> ix_db (step_state (try_record_gap ext lo hi why ix)) = db0"
    if "ix_writer ix = None \<and> ix_db ix = db0" for lo hi why ix
    using that by (simp add: try_record_gap_def)
qed (simp add: same_core_def)

interpretation writer_stays: session_invariant ext "\<lambda>ix. ix_writer ix \<noteq> None"
proof unfold_locales
  show kept: "ix_writer (step_state (flush_writer_step ext ix)) \<noteq> None" if "ix_writer ix \<noteq> None" for ix
    using that by (cases rule: flush_step_cases [of ix ext]) simp_all
  show "ix_writer (step_state (handle_account ext budget slot info ix)) \<noteq> None"
    if "ix_writer ix \<noteq> None" for budget slot info ix
    using that kept [of "account_stats ext slot info ix
        \<lparr>ix_writer := map_option (buffer_update ext slot info) (ix_writer ix)\<rparr>"]
    by (simp add: handle_account_state Let_def)
qed (auto simp: same_core_def)

section \<open>Properties\<close>

text \<open>
  C8 Every checkpoint is backed: in every run, over any inputs and any insert outcomes, each
  checkpoint row the process adds carries the slot and write version of a raw row that is
  stored. It holds at every point a run can stop, crash and hang included.
\<close>

theorem checkpoints_backed:
  "backed (t_checkpoint db) (ix_db (result_state (indexer_main ext sink budget inps db)))"
proof -
  have "backed_state (t_checkpoint db) (indexer_new sink db)"
    by (simp add: backed_state_def backed_def indexer_new_def)
  from checkpoint_rows.run [OF this, of ext budget inps]
  show ?thesis by (simp add: indexer_main_def backed_state_def)
qed

text \<open>
  C34 Memory stays bounded: whatever arrives, in every state a run can reach each of the four
  buffers holds fewer than \<open>BATCH_MAX_ROWS\<close> rows.
\<close>

theorem buffers_bounded:
  "case ix_writer (result_state (indexer_main ext sink budget inps db)) of
     None \<Rightarrow> \<not> sink
   | Some w \<Rightarrow> sink \<and> length (w_buf w) < 4096 \<and> length (w_snap_buf w) < 4096
       \<and> length (w_reserve_buf w) < 4096 \<and> length (w_lm_buf w) < 4096"
proof (cases sink)
  case True
  have "bounded (indexer_new sink db)" by (simp add: bounded_def indexer_new_def)
  from buffers.run [OF this] have b: "bounded (result_state (indexer_main ext sink budget inps db))"
    by (simp add: indexer_main_def)
  have "ix_writer (indexer_new sink db) \<noteq> None" using True by (simp add: indexer_new_def)
  from writer_stays.run [OF this] have "ix_writer (result_state (indexer_main ext sink budget inps db)) \<noteq> None"
    by (simp add: indexer_main_def)
  with b True show ?thesis
    by (auto simp: bounded_def writer_bounded_def batch_full_def const_defs)
next
  case False
  then have "ix_writer (indexer_new sink db) = None \<and> ix_db (indexer_new sink db) = db"
    by (simp add: indexer_new_def)
  from sampling.run [OF this, of ext budget inps] False show ?thesis
    by (simp add: indexer_main_def)
qed

text \<open>
  A sampling run without a sink writes nothing, and a run with a slot budget never
  reconnects: one session decides how the process ends.
\<close>

lemma sampling_is_inert:
  "ix_db (result_state (indexer_main ext False budget inps db)) = db
   \<and> (\<forall>ix'. session ext (Some b) inp ix \<noteq> Reconnect ix')"
proof -
  have "ix_writer (indexer_new False db) = None \<and> ix_db (indexer_new False db) = db"
    by (simp add: indexer_new_def)
  from sampling.run [OF this, of ext budget inps]
  have "ix_db (result_state (indexer_main ext False budget inps db)) = db"
    by (simp add: indexer_main_def)
  moreover have "session ext (Some b) inp ix \<noteq> Reconnect ix'" for ix'
    by (auto simp: session_def Let_def finish_session_def loop_again_def subscribe_failed_def
        split: sum.splits option.splits step_result.splits if_splits)
  ultimately show ?thesis by blast
qed

text \<open>
  The reconnect back-off is exponential and capped: between one and thirty seconds for every
  streak, one second right after a session that received data, doubling up to sixteen and
  never decreasing in the streak, which saturates instead of wrapping.
\<close>

lemma backoff_bounds:
  "1 \<le> unat (backoff_secs n) \<and> unat (backoff_secs n) \<le> 30
   \<and> unat (backoff_secs n) = min (2 ^ min (unat n) 5) 30
   \<and> backoff_secs (next_streak True n) = 1
   \<and> unat (next_streak False n) = min (unat n + 1) (2 ^ 32 - 1)"
proof -
  have five: "unat (min n 5) = min (unat n) 5"
    by (simp add: min_def word_le_nat_alt)
  have e: "unat (push_bit k (1 :: u64)) = 2 ^ k" if "k \<le> 5" for k
  proof -
    have "k = 0 \<or> k = 1 \<or> k = 2 \<or> k = 3 \<or> k = 4 \<or> k = 5" using that by linarith
    then show ?thesis by auto
  qed
  have m: "unat (min a (30 :: u64)) = min (unat a) 30" for a
    by (simp add: min_def word_le_nat_alt)
  have v: "unat (backoff_secs n) = min (2 ^ min (unat n) 5) 30"
    by (simp only: backoff_secs_def m five e min.cobounded2)
  have "(1 :: nat) \<le> 2 ^ min (unat n) 5" by simp
  then have lo: "1 \<le> unat (backoff_secs n)" and hi: "unat (backoff_secs n) \<le> 30"
    unfolding v by simp_all
  have z: "backoff_secs (next_streak True n) = 1"
    by (simp add: next_streak_def backoff_secs_def)
  have s: "unat (next_streak False n) = min (unat n + 1) (2 ^ 32 - 1)"
    by (simp add: next_streak_def unat_saturating_add)
  from v lo hi z s show ?thesis by blast
qed

end
