(* ===== verification/Gap_Records.thy ===== *)
theory Gap_Records
  imports Indexer_Facts
begin

text \<open>
  Which gap rows a session records. Three places of \<open>src/main.rs\<close> call \<open>record_gap\<close>: a refused
  subscription, a resumed session that ends without an account update, and the startup seam of
  a resumed session that opens past its checkpoint. \<open>session_gaps\<close> says what they come to for
  one session; the theorem is that the code records exactly that.
\<close>

section \<open>Reading a session's events\<close>

text \<open>The events that end a session whose inserts are acknowledged.\<close>

definition ends :: "event \<Rightarrow> bool" where
  "ends e = (case e of Stream_Ended \<Rightarrow> True | Stream_Error msg \<Rightarrow> True | Sigint \<Rightarrow> True | Sigterm \<Rightarrow> True | _ \<Rightarrow> False)"

definition signal :: "event \<Rightarrow> bool" where
  "signal e \<longleftrightarrow> e = Sigint \<or> e = Sigterm"

definition event_slot :: "event \<Rightarrow> u64 option" where
  "event_slot e =
     (case e of
        Message ts u \<Rightarrow> (case u of Account_Update slot info \<Rightarrow> (if info = None then None else Some slot) | _ \<Rightarrow> None)
      | _ \<Rightarrow> None)"

text \<open>The slot of the first account update, and the event that ends the session.\<close>

fun first_account :: "event list \<Rightarrow> u64 option" where
  "first_account [] = None"
| "first_account (e # es) =
     (if ends e then None else case event_slot e of Some s \<Rightarrow> Some s | None \<Rightarrow> first_account es)"

definition end_of :: "event list \<Rightarrow> event option" where
  "end_of es = find ends es"

definition gap_of :: "u64 \<Rightarrow> u64 \<Rightarrow> string \<Rightarrow> gap_row" where
  "gap_of lo hi why = \<lparr>gp_stream = STREAM, gp_start_slot = lo, gp_end_slot = hi, gp_reason = why\<rparr>"

definition startup_gap :: "u64 option \<Rightarrow> u64 \<Rightarrow> gap_row list" where
  "startup_gap resume_from first =
     (case resume_from of
        None \<Rightarrow> []
      | Some c \<Rightarrow> if unat c + 600 < unat first then [gap_of c first (startup_gap_reason (first - c))] else [])"

definition session_gaps :: "external \<Rightarrow> session_input \<Rightarrow> indexer \<Rightarrow> gap_row list" where
  "session_gaps ext inp ix =
     (case resume_point ext inp ix of
        Inl e \<Rightarrow> []
      | Inr r \<Rightarrow>
          if si_connect_err inp \<noteq> None then []
          else if si_subscribe_err inp \<noteq> None then
            (case r of None \<Rightarrow> [] | Some c \<Rightarrow> [gap_of c (ix_last_slot ix) ''subscribe failed: replay window exceeded''])
          else case first_account (si_events inp) of
            Some s \<Rightarrow> startup_gap r s
          | None \<Rightarrow>
              (case (r, end_of (si_events inp)) of
                 (Some c, Some e) \<Rightarrow>
                   if signal e then []
                   else [gap_of c (ix_last_slot ix) ''resume unreachable: no data before stream error'']
               | _ \<Rightarrow> []))"

section \<open>With acknowledged inserts\<close>

lemma flush_acked: "(\<And>n. ins n = Acked) \<Longrightarrow> snd (snd (flush ins w db)) = Done ()"
  by (simp add: flush_def Let_def insert_nonempty_def insert_block_def with_timeout_def and_then_def)

lemma flush_step_acked:
  assumes acked: "\<And>n. x_ins ext n = Acked"
  shows "\<exists>w db. flush_writer_step ext ix = Continue (ix\<lparr>ix_writer := w, ix_db := db\<rparr>)
    \<and> (w = None \<longleftrightarrow> ix_writer ix = None) \<and> t_gaps db = t_gaps (ix_db ix)"
proof (cases "ix_writer ix")
  case None
  then show ?thesis by (intro exI [of _ None] exI [of _ "ix_db ix"]) (simp add: flush_writer_step_def)
next
  case (Some w)
  obtain db where db: "flush (x_ins ext) w (ix_db ix) = (writer_new, db, Done ())"
    using flush_acked [where ins = "x_ins ext" and w = w and db = "ix_db ix"]
      flush_writer [where ins = "x_ins ext" and w = w and db = "ix_db ix"] acked
    by (cases "flush (x_ins ext) w (ix_db ix)") auto
  have "flush_writer_step ext ix = Continue (ix\<lparr>ix_writer := Some writer_new, ix_db := db\<rparr>)"
    by (simp add: flush_writer_step_def Some db)
  moreover have "t_gaps db = t_gaps (ix_db ix)"
    using flush_other_tables(1) [where ins = "x_ins ext" and w = w and db = "ix_db ix"] by (simp add: db)
  ultimately show ?thesis
    by (intro exI [of _ "Some writer_new"] exI [of _ db]) (simp add: Some)
qed

lemma try_gap_acked:
  assumes acked: "\<And>n. x_ins ext n = Acked" and w: "ix_writer ix \<noteq> None"
  shows "\<exists>db. try_record_gap ext lo hi why ix = Continue (ix\<lparr>ix_db := db\<rparr>)
    \<and> t_gaps db = t_gaps (ix_db ix) @ [gap_of lo hi why]"
  using w by (auto simp: try_record_gap_def record_gap_def insert_block_def Let_def acked gap_of_def)

text \<open>A session that has seen no account update, and one that has and has judged its seam.\<close>

definition waiting_first :: "indexer \<Rightarrow> bool" where
  "waiting_first ix \<longleftrightarrow> ix_writer ix \<noteq> None \<and> \<not> ix_shutdown ix \<and> \<not> ix_got_data ix
     \<and> ix_session_first_slot ix = None \<and> \<not> ix_resume_judged ix"

definition judged :: "indexer \<Rightarrow> bool" where
  "judged ix \<longleftrightarrow> ix_writer ix \<noteq> None \<and> \<not> ix_shutdown ix \<and> ix_got_data ix \<and> ix_resume_judged ix"

lemma judge_done: "ix_resume_judged ix \<Longrightarrow> judge_resume ext r ix = Continue ix"
  by (simp add: judge_resume_def)

lemma judge_none: "ix_session_first_slot ix = None \<Longrightarrow> judge_resume ext r ix = Continue ix"
  by (simp add: judge_resume_def split: bool.splits)

lemma judge_first:
  assumes acked: "\<And>n. x_ins ext n = Acked" and w: "ix_writer ix \<noteq> None"
    and "ix_session_first_slot ix = Some s" and "\<not> ix_resume_judged ix"
  shows "\<exists>db. judge_resume ext r ix = Continue (ix\<lparr>ix_resume_judged := True, ix_db := db\<rparr>)
    \<and> t_gaps db = t_gaps (ix_db ix) @ startup_gap r s"
proof -
  define ix1 where "ix1 = ix\<lparr>ix_resume_judged := True\<rparr>"
  have judge: "judge_resume ext r ix = (case classify_resume r s of
      Gap lo hi missed \<Rightarrow> try_record_gap ext lo hi (startup_gap_reason (hi - lo)) ix1
    | _ \<Rightarrow> Continue ix1)"
    using assms(3,4) by (simp add: judge_resume_def Let_def ix1_def split: resume_verdict.splits)
  show ?thesis
  proof (cases "\<exists>c. r = Some c \<and> unat c + 600 < unat s")
    case True
    then obtain c where c: "r = Some c" "unat c + 600 < unat s" by blast
    then have gap: "classify_resume r s = Gap c s (s - c - 1)"
      by (simp add: classify_resume_Gap_iff)
    have "ix_writer ix1 \<noteq> None" using w by (simp add: ix1_def)
    from try_gap_acked [OF acked this]
    obtain db where "try_record_gap ext c s (startup_gap_reason (s - c)) ix1 = Continue (ix1\<lparr>ix_db := db\<rparr>)"
      and "t_gaps db = t_gaps (ix_db ix1) @ [gap_of c s (startup_gap_reason (s - c))]"
      by blast
    moreover have "judge_resume ext r ix = try_record_gap ext c s (startup_gap_reason (s - c)) ix1"
      by (simp add: judge gap)
    moreover have "startup_gap r s = [gap_of c s (startup_gap_reason (s - c))]"
      using c(2) by (simp add: startup_gap_def c(1))
    ultimately show ?thesis
      by (intro exI [of _ db]) (simp add: ix1_def)
  next
    case False
    then have none: "startup_gap r s = []" and "classify_resume r s \<noteq> Gap lo hi m" for lo hi m
      by (auto simp: classify_resume_Gap_iff startup_gap_def split: option.splits)
    then have "judge_resume ext r ix = Continue ix1"
      by (auto simp: judge split: resume_verdict.splits)
    then show ?thesis by (intro exI [of _ "ix_db ix"]) (simp add: ix1_def none)
  qed
qed

section \<open>The steps of a session\<close>

lemma note_produced_frame [simp]:
  "ix_writer (note_produced ts ix) = ix_writer ix" "ix_db (note_produced ts ix) = ix_db ix"
  "ix_shutdown (note_produced ts ix) = ix_shutdown ix" "ix_got_data (note_produced ts ix) = ix_got_data ix"
  "ix_session_first_slot (note_produced ts ix) = ix_session_first_slot ix"
  "ix_resume_judged (note_produced ts ix) = ix_resume_judged ix"
  "ix_last_slot (note_produced ts ix) = ix_last_slot ix"
  by (simp_all add: note_produced_def split: option.split)

lemma account_step:
  assumes acked: "\<And>n. x_ins ext n = Acked" and w: "ix_writer ix \<noteq> None"
  shows "\<exists>ix'. handle_account ext None slot info ix = Continue ix' \<and> ix_writer ix' \<noteq> None
    \<and> ix_shutdown ix' = ix_shutdown ix \<and> ix_got_data ix' \<and> ix_resume_judged ix' = ix_resume_judged ix
    \<and> ix_session_first_slot ix' = get_or_insert (ix_session_first_slot ix) slot
    \<and> t_gaps (ix_db ix') = t_gaps (ix_db ix)"
proof -
  define ix1 where
    "ix1 = account_stats ext slot info ix\<lparr>ix_writer := map_option (buffer_update ext slot info) (ix_writer ix)\<rparr>"
  have stats: "ix_shutdown ix1 = ix_shutdown ix" "ix_got_data ix1" "ix_resume_judged ix1 = ix_resume_judged ix"
    "ix_session_first_slot ix1 = get_or_insert (ix_session_first_slot ix) slot" "ix_db ix1 = ix_db ix"
    "ix_writer ix1 \<noteq> None"
    using w by (simp_all add: ix1_def account_stats_def Let_def split_beta)
  define full where "full = (case ix_writer ix1 of Some w \<Rightarrow> batch_full w | None \<Rightarrow> False)"
  have account: "handle_account ext None slot info ix =
      step_then (if full then flush_writer_step ext ix1 else Continue ix1) Continue"
    by (simp add: handle_account_def Let_def ix1_def full_def budget_reached_def)
  show ?thesis
  proof (cases full)
    case True
    obtain w db where "flush_writer_step ext ix1 = Continue (ix1\<lparr>ix_writer := w, ix_db := db\<rparr>)"
      "w = None \<longleftrightarrow> ix_writer ix1 = None" "t_gaps db = t_gaps (ix_db ix1)"
      using flush_step_acked [OF acked] by blast
    with True stats show ?thesis
      by (intro exI [of _ "ix1\<lparr>ix_writer := w, ix_db := db\<rparr>"]) (simp add: account)
  next
    case False
    with stats show ?thesis by (intro exI [of _ ix1]) (simp add: account)
  qed
qed

lemma flush_tick:
  assumes "\<And>n. x_ins ext n = Acked"
  shows "\<exists>ix'. session_step ext None r Flush_Tick ix = Continue ix' \<and> waiting_first ix' = waiting_first ix
    \<and> judged ix' = judged ix \<and> t_gaps (ix_db ix') = t_gaps (ix_db ix) \<and> ix_last_slot ix' = ix_last_slot ix"
proof -
  obtain w db where "flush_writer_step ext ix = Continue (ix\<lparr>ix_writer := w, ix_db := db\<rparr>)"
    "w = None \<longleftrightarrow> ix_writer ix = None" "t_gaps db = t_gaps (ix_db ix)"
    using flush_step_acked [OF assms] by blast
  then show ?thesis
    by (intro exI [of _ "ix\<lparr>ix_writer := w, ix_db := db\<rparr>"])
      (simp add: session_step_def waiting_first_def judged_def)
qed

text \<open>An event that carries no account update and does not end the session.\<close>

lemma idle_step:
  assumes acked: "\<And>n. x_ins ext n = Acked" and e: "\<not> ends e" "event_slot e = None"
    and ix: "ix_session_first_slot ix = None \<or> ix_resume_judged ix"
  shows "\<exists>ix'. session_step ext None r e ix = Continue ix' \<and> waiting_first ix' = waiting_first ix
    \<and> judged ix' = judged ix \<and> t_gaps (ix_db ix') = t_gaps (ix_db ix) \<and> ix_last_slot ix' = ix_last_slot ix"
proof -
  have judge: "judge_resume ext r ix' = Continue ix'"
    if "ix_session_first_slot ix' = ix_session_first_slot ix" "ix_resume_judged ix' = ix_resume_judged ix" for ix'
    using ix that by (auto intro: judge_none judge_done)
  show ?thesis
  proof (cases e)
    case (Message ts u)
    then show ?thesis
      using e(2)
      by (cases u) (auto simp: session_step_def handle_message_def Let_def judge event_slot_def
          waiting_first_def judged_def split: if_splits option.splits)
  next
    case Lag_Tick
    then show ?thesis
      by (simp add: session_step_def lag_line_def waiting_first_def judged_def)
  qed (use e flush_tick [OF acked, of r ix] in \<open>simp_all add: ends_def\<close>)
qed

lemma first_step:
  assumes acked: "\<And>n. x_ins ext n = Acked" and ix: "waiting_first ix" and e: "event_slot e = Some s"
  shows "\<exists>ix'. session_step ext None r e ix = Continue ix' \<and> judged ix'
    \<and> t_gaps (ix_db ix') = t_gaps (ix_db ix) @ startup_gap r s"
proof -
  from e obtain ts info where ev: "e = Message ts (Account_Update s (Some info))"
    by (auto simp: event_slot_def split: event.splits update_oneof.splits if_splits)
  have "ix_writer (note_produced ts ix) \<noteq> None" using ix by (simp add: waiting_first_def)
  from account_step [OF acked this, of s info] ix
  obtain ix1 where acct: "handle_account ext None s info (note_produced ts ix) = Continue ix1" "ix_writer ix1 \<noteq> None"
    "\<not> ix_shutdown ix1" "ix_got_data ix1" "\<not> ix_resume_judged ix1" "ix_session_first_slot ix1 = Some s"
    "t_gaps (ix_db ix1) = t_gaps (ix_db ix)"
    by (auto simp: waiting_first_def get_or_insert_def)
  from judge_first [OF acked acct(2,6,5)]
  obtain db where "judge_resume ext r ix1 = Continue (ix1\<lparr>ix_resume_judged := True, ix_db := db\<rparr>)"
    "t_gaps db = t_gaps (ix_db ix1) @ startup_gap r s" by blast
  with acct show ?thesis
    by (intro exI [of _ "ix1\<lparr>ix_resume_judged := True, ix_db := db\<rparr>"])
      (simp add: ev session_step_def handle_message_def Let_def judged_def)
qed

lemma later_step:
  assumes acked: "\<And>n. x_ins ext n = Acked" and ix: "judged ix" and e: "\<not> ends e"
  shows "\<exists>ix'. session_step ext None r e ix = Continue ix' \<and> judged ix' \<and> t_gaps (ix_db ix') = t_gaps (ix_db ix)"
proof (cases "event_slot e")
  case None
  with idle_step [OF acked e None, of ix r] ix show ?thesis by (auto simp: judged_def)
next
  case (Some s)
  then obtain ts info where ev: "e = Message ts (Account_Update s (Some info))"
    by (auto simp: event_slot_def split: event.splits update_oneof.splits if_splits)
  have "ix_writer (note_produced ts ix) \<noteq> None" using ix by (simp add: judged_def)
  from account_step [OF acked this, of s info] ix
  obtain ix1 where "handle_account ext None s info (note_produced ts ix) = Continue ix1" "judged ix1"
    "t_gaps (ix_db ix1) = t_gaps (ix_db ix)"
    by (auto simp: judged_def)
  then show ?thesis
    by (intro exI [of _ ix1]) (simp add: ev session_step_def handle_message_def Let_def judge_done judged_def)
qed

lemma end_step:
  assumes "ends e"
  shows "\<exists>ix'. session_step ext None r e ix = Break ix' \<and> ix_writer ix' = ix_writer ix \<and> ix_db ix' = ix_db ix
    \<and> ix_shutdown ix' = (ix_shutdown ix \<or> signal e) \<and> ix_got_data ix' = ix_got_data ix
    \<and> ix_last_slot ix' = ix_last_slot ix"
  using assms by (cases e) (auto simp: ends_def signal_def session_step_def)

section \<open>A whole session\<close>

text \<open>How a session whose inserts are acknowledged leaves the stream loop, in state \<open>ix\<close>.\<close>

definition left_by :: "event option \<Rightarrow> indexer \<Rightarrow> step_result" where
  "left_by e ix = (case e of None \<Rightarrow> Continue ix | Some e \<Rightarrow> Break ix)"

lemma end_of_simps [simp]:
  "end_of [] = None" "end_of (e # es) = (if ends e then Some e else end_of es)"
  by (simp_all add: end_of_def)

lemma run_judged:
  assumes acked: "\<And>n. x_ins ext n = Acked"
  shows "judged ix \<Longrightarrow> \<exists>ix'. run_stream ext None r es ix = left_by (end_of es) ix' \<and> ix_writer ix' \<noteq> None
    \<and> ix_got_data ix' \<and> t_gaps (ix_db ix') = t_gaps (ix_db ix)"
proof (induction es arbitrary: ix)
  case Nil
  then show ?case by (auto simp: left_by_def judged_def)
next
  case (Cons e es)
  show ?case
  proof (cases "ends e")
    case True
    with end_step [OF True, of ext r ix] Cons.prems show ?thesis
      by (auto simp: left_by_def judged_def)
  next
    case False
    with later_step [OF acked Cons.prems False, of r] Cons.IH show ?thesis by fastforce
  qed
qed

lemma run_waiting:
  assumes acked: "\<And>n. x_ins ext n = Acked"
  shows "waiting_first ix \<Longrightarrow> \<exists>ix'. run_stream ext None r es ix = left_by (end_of es) ix' \<and> ix_writer ix' \<noteq> None
    \<and> t_gaps (ix_db ix') = t_gaps (ix_db ix) @ (case first_account es of None \<Rightarrow> [] | Some s \<Rightarrow> startup_gap r s)
    \<and> (if first_account es = None
       then \<not> ix_got_data ix' \<and> ix_last_slot ix' = ix_last_slot ix
         \<and> ix_shutdown ix' = (case end_of es of None \<Rightarrow> False | Some e \<Rightarrow> signal e)
       else ix_got_data ix')"
proof (induction es arbitrary: ix)
  case Nil
  then show ?case by (auto simp: left_by_def waiting_first_def)
next
  case (Cons e es)
  show ?case
  proof (cases "ends e")
    case True
    with end_step [OF True, of ext r ix] Cons.prems show ?thesis
      by (auto simp: left_by_def waiting_first_def)
  next
    case False
    show ?thesis
    proof (cases "event_slot e")
      case None
      from Cons.prems have "ix_session_first_slot ix = None \<or> ix_resume_judged ix" by (simp add: waiting_first_def)
      from idle_step [OF acked False None this, of r] Cons.prems
      obtain ix1 where step: "session_step ext None r e ix = Continue ix1" "waiting_first ix1"
        "t_gaps (ix_db ix1) = t_gaps (ix_db ix)" "ix_last_slot ix1 = ix_last_slot ix" by auto
      define wanted where "wanted ix2 \<longleftrightarrow> ix_writer ix2 \<noteq> None
          \<and> t_gaps (ix_db ix2) = t_gaps (ix_db ix1) @ (case first_account es of None \<Rightarrow> [] | Some s \<Rightarrow> startup_gap r s)
          \<and> (if first_account es = None
             then \<not> ix_got_data ix2 \<and> ix_last_slot ix2 = ix_last_slot ix1
               \<and> ix_shutdown ix2 = (case end_of es of None \<Rightarrow> False | Some e \<Rightarrow> signal e)
             else ix_got_data ix2)" for ix2 :: indexer
      from Cons.IH [OF step(2)]
      obtain ix2 where "run_stream ext None r es ix1 = left_by (end_of es) ix2" "wanted ix2"
        by (auto simp: wanted_def)
      then show ?thesis
        unfolding wanted_def by (intro exI [of _ ix2]) (simp add: False None step)
    next
      case (Some s)
      from first_step [OF acked Cons.prems Some, of r]
      obtain ix1 where step: "session_step ext None r e ix = Continue ix1" "judged ix1"
        "t_gaps (ix_db ix1) = t_gaps (ix_db ix) @ startup_gap r s" by auto
      from run_judged [OF acked step(2), of r es] step show ?thesis by (auto simp: False Some)
    qed
  qed
qed

lemma finish_gaps:
  assumes acked: "\<And>n. x_ins ext n = Acked" and w: "ix_writer ix \<noteq> None"
  shows "t_gaps (ix_db (result_state (finish_session ext None r ix))) = t_gaps (ix_db ix)
    @ (if ix_shutdown ix \<or> ix_got_data ix then []
       else case r of None \<Rightarrow> []
         | Some c \<Rightarrow> [gap_of c (ix_last_slot ix) ''resume unreachable: no data before stream error''])"
proof -
  obtain w' db' where f: "flush_writer_step ext ix = Continue (ix\<lparr>ix_writer := w', ix_db := db'\<rparr>)"
    "w' = None \<longleftrightarrow> ix_writer ix = None" "t_gaps db' = t_gaps (ix_db ix)"
    using flush_step_acked [OF acked] by blast
  define ix1 where "ix1 = ix\<lparr>ix_writer := w', ix_db := db'\<rparr>"
  have ix1: "ix_writer ix1 \<noteq> None" "t_gaps (ix_db ix1) = t_gaps (ix_db ix)" "ix_shutdown ix1 = ix_shutdown ix"
    "ix_got_data ix1 = ix_got_data ix" "ix_last_slot ix1 = ix_last_slot ix"
    using w f(2,3) by (simp_all add: ix1_def)
  have finish: "finish_session ext None r ix = (if ix_shutdown ix1 then Finished ix1
      else loop_again (check_unreachable ext r ix1) (\<lambda>ix. Reconnect (count_reconnect ix)))"
    by (simp add: finish_session_def f(1) loop_again_def budget_reached_def ix1_def)
  show ?thesis
  proof (cases "ix_got_data ix1 \<or> r = None")
    case True
    then have "check_unreachable ext r ix1 = Continue ix1"
      by (cases "ix_got_data ix1") (auto simp: check_unreachable_def)
    with True ix1 show ?thesis by (auto simp: finish loop_again_def count_reconnect_def)
  next
    case False
    then obtain c where c: "r = Some c" "\<not> ix_got_data ix1" by blast
    from try_gap_acked [OF acked ix1(1), of c "ix_last_slot ix1" "''resume unreachable: no data before stream error''"]
    obtain db where "try_record_gap ext c (ix_last_slot ix1) ''resume unreachable: no data before stream error'' ix1
        = Continue (ix1\<lparr>ix_db := db\<rparr>)"
      "t_gaps db = t_gaps (ix_db ix1) @ [gap_of c (ix_last_slot ix1) ''resume unreachable: no data before stream error'']"
      by blast
    with c ix1 show ?thesis
      unfolding finish by (simp add: check_unreachable_def loop_again_def count_reconnect_def)
  qed
qed

lemma refused_gaps:
  assumes acked: "\<And>n. x_ins ext n = Acked" and w: "ix_writer ix \<noteq> None"
  shows "t_gaps (ix_db (result_state (subscribe_failed ext None r e ix))) = t_gaps (ix_db ix)
    @ (case r of None \<Rightarrow> [] | Some c \<Rightarrow> [gap_of c (ix_last_slot ix) ''subscribe failed: replay window exceeded''])"
proof (cases r)
  case None
  then show ?thesis by (simp add: subscribe_failed_def)
next
  case (Some c)
  from try_gap_acked [OF acked w, of c "ix_last_slot ix" "''subscribe failed: replay window exceeded''"]
  show ?thesis by (auto simp: Some subscribe_failed_def loop_again_def)
qed

section \<open>Properties\<close>

text \<open>
  C21 A session records exactly the gaps it should, at most one: with acknowledged inserts the gap
  table gains a row for a refused resume; otherwise, when an account update arrives, a row from
  the checkpoint to that update exactly when they are more than 600 slots apart; otherwise,
  when the stream drops, the unreachable-resume row; and nothing on a signal, on a session that
  is still waiting, or on one that did not resume. The two detectors never both fire.
\<close>

theorem session_gaps_exact:
  assumes "\<And>n. x_ins ext n = Acked" and "ix_writer ix \<noteq> None" and "\<not> ix_shutdown ix"
  shows "t_gaps (ix_db (result_state (session ext None inp ix))) = t_gaps (ix_db ix) @ session_gaps ext inp ix"
proof (cases "resume_point ext inp ix")
  case (Inl e)
  then show ?thesis by (simp add: session_def session_gaps_def)
next
  case (Inr r)
  let ?ix = "ix\<lparr>ix_force_tip := False\<rparr>"
  have w: "ix_writer ?ix \<noteq> None" and start: "waiting_first (start_session ?ix)"
    using assms(2,3) by (simp_all add: waiting_first_def start_session_def)
  show ?thesis
  proof (cases "si_connect_err inp = None \<and> si_subscribe_err inp = None")
    case False
    then show ?thesis
      using refused_gaps [OF assms(1) w, of r]
      by (cases "si_connect_err inp"; cases "si_subscribe_err inp")
        (simp_all add: session_def session_gaps_def Inr Let_def split: option.splits)
  next
    case True
    from run_waiting [OF assms(1) start, of r "si_events inp"]
    obtain ix' where run: "run_stream ext None r (si_events inp) (start_session ?ix) = left_by (end_of (si_events inp)) ix'"
      and ix': "ix_writer ix' \<noteq> None" "t_gaps (ix_db ix') = t_gaps (ix_db ix)
        @ (case first_account (si_events inp) of None \<Rightarrow> [] | Some s \<Rightarrow> startup_gap r s)"
      and rest: "if first_account (si_events inp) = None
        then \<not> ix_got_data ix' \<and> ix_last_slot ix' = ix_last_slot ix
          \<and> ix_shutdown ix' = (case end_of (si_events inp) of None \<Rightarrow> False | Some e \<Rightarrow> signal e)
        else ix_got_data ix'"
      by (auto simp: start_session_def)
    have session: "session ext None inp ix = (case end_of (si_events inp) of
        None \<Rightarrow> Waiting ix' | Some e \<Rightarrow> finish_session ext None r ix')"
      using True by (simp add: session_def Inr Let_def run left_by_def split: option.split)
    have quiet: "session_gaps ext inp ix = (case first_account (si_events inp) of Some s \<Rightarrow> startup_gap r s
        | None \<Rightarrow> (case (r, end_of (si_events inp)) of
            (Some c, Some e) \<Rightarrow> if signal e then []
              else [gap_of c (ix_last_slot ix) ''resume unreachable: no data before stream error'']
          | _ \<Rightarrow> []))"
      using True by (simp add: session_gaps_def Inr)
    show ?thesis
    proof (cases "end_of (si_events inp)")
      case None
      then show ?thesis
        using ix'(2) unfolding quiet session by (auto split: option.split)
    next
      case (Some e)
      show ?thesis
      proof (cases "first_account (si_events inp)")
        case None
        with rest Some have "\<not> ix_got_data ix'" "ix_last_slot ix' = ix_last_slot ix" "ix_shutdown ix' = signal e"
          by simp_all
        with ix'(2) None show ?thesis
          unfolding quiet session Some option.case finish_gaps [OF assms(1) ix'(1)]
          by (cases r) simp_all
      next
        case (Some s)
        with rest have "ix_got_data ix'" by simp
        with ix'(2) Some show ?thesis
          unfolding quiet session \<open>end_of (si_events inp) = Some e\<close> option.case finish_gaps [OF assms(1) ix'(1)]
          by simp
      qed
    qed
  qed
qed

definition seam_ext :: external where
  "seam_ext = \<lparr>x_digest = (\<lambda>b. b), x_cast = (\<lambda>_. True), x_spl = (\<lambda>_. []), x_final = newest, x_ins = (\<lambda>_. Acked)\<rparr>"

definition seam_db :: db where
  "seam_db = empty_db\<lparr>t_checkpoint :=
     [\<lparr>ck_stream = STREAM, ck_last_slot = 437000000, ck_last_write_version = 9\<rparr>]\<rparr>"

definition seam_input :: "event list \<Rightarrow> session_input" where
  "seam_input es = \<lparr>si_query_err = None, si_connect_err = None, si_subscribe_err = None, si_events = es\<rparr>"

definition seam_account :: account_info where
  "seam_account = \<lparr>ai_pubkey = [], ai_owner = [], ai_lamports = 0, ai_write_version = 1, ai_data = [7]\<rparr>"

text \<open>A first update 601 slots on, one 600 slots on, and a stream that drops before any.\<close>

theorem session_gaps_exact_witness:
  "map (\<lambda>es. map (\<lambda>g. (gp_start_slot g, gp_end_slot g))
          (t_gaps (ix_db (result_state (session seam_ext None (seam_input es) (indexer_new True seam_db))))))
     [[Message None Ping_Update, Message None (Account_Update 437000601 (Some seam_account)), Stream_Ended],
      [Message None (Account_Update 437000600 (Some seam_account)), Stream_Ended],
      [Message None (Slot_Update 437000600), Stream_Ended],
      [Flush_Tick, Sigterm]]
   = [[(437000000, 437000601)], [], [(437000000, 0)], []]"
proof -
  have "t_gaps (ix_db (result_state (session seam_ext None (seam_input es) (indexer_new True seam_db))))
      = session_gaps seam_ext (seam_input es) (indexer_new True seam_db)" for es
    using session_gaps_exact [of seam_ext "indexer_new True seam_db" "seam_input es"]
    by (simp add: seam_ext_def indexer_new_def seam_db_def empty_db_def)
  moreover have "resume_point seam_ext (seam_input es) (indexer_new True seam_db) = Inr (Some 437000000)" for es
    by (simp add: resume_point_def indexer_new_def read_resume_slot_def seam_input_def seam_ext_def seam_db_def
        stream_rows_def newest_def)
  ultimately show ?thesis
    by (simp add: session_gaps_def seam_input_def event_slot_def ends_def signal_def startup_gap_def gap_of_def
        indexer_new_def)
qed

end
