(* ===== verification/World.thy ===== *)
theory World
  imports Gap_Records
begin

text \<open>
  The indexer against the chain it indexes, across crashes and restarts. The chain is a list of
  account updates in slot order. A subscription with \<open>from_slot = Some c\<close> may be served from
  slot \<open>c\<close> on, or silently from a later slot; one without starts anywhere; either can be refused.
  The process can be killed between any two events and every insert can fail, partly land, or
  never be acknowledged.

  \<open>world_step\<close> is that transition system over the phases of the process. Beside the phase a
  world carries the holes: for each session that opened past the updates already covered, the
  range of slots it left out. A hole is entered when the first update of the session is
  taken, and never removed. The result is an account of every loss: below the newest checkpoint each
  update of the chain is stored, raw and decoded, or lies in a hole, and each hole is on record
  in the gap table, unless its gap insert was rejected, or it spans at most 600 slots, or it lies
  before the first checkpoint.
\<close>

type_synonym update = "u64 \<times> account_info"

definition slot_sorted :: "update list \<Rightarrow> bool" where
  "slot_sorted chain \<longleftrightarrow> sorted_wrt (\<lambda>a b. fst a \<le> fst b) chain"

definition account_event :: "event \<Rightarrow> bool" where
  "account_event e =
     (case e of Message _ (Account_Update _ (Some _)) \<Rightarrow> True | _ \<Rightarrow> False)"

text \<open>
  The slots a session left out: all before it, when there was no checkpoint; those from the
  checkpoint to a late start of the replay; those from a checkpoint that was given up to the
  slot the tip session started at. The number is that of the insert of its gap row.
\<close>

datatype hole = Before_Start u64 | Skipped u64 u64 nat | Given_Up u64 u64 nat

fun in_hole :: "hole \<Rightarrow> u64 \<Rightarrow> bool" where
  "in_hole (Before_Start hi) s \<longleftrightarrow> s < hi"
| "in_hole (Skipped lo hi n) s \<longleftrightarrow> lo \<le> s \<and> s < hi"
| "in_hole (Given_Up lo hi n) s \<longleftrightarrow> lo \<le> s \<and> s < hi"

definition rejected :: "external \<Rightarrow> nat \<Rightarrow> bool" where
  "rejected ext n = (case x_ins ext n of Rejected keep \<Rightarrow> True | _ \<Rightarrow> False)"

fun accounted :: "external \<Rightarrow> db \<Rightarrow> hole \<Rightarrow> bool" where
  "accounted ext db (Before_Start hi) = True"
| "accounted ext db (Skipped lo hi n) \<longleftrightarrow>
     unat hi \<le> unat lo + 600 \<or> gap_of lo hi (startup_gap_reason (hi - lo)) \<in> set (t_gaps db) \<or> rejected ext n"
| "accounted ext db (Given_Up lo hi n) \<longleftrightarrow>
     (\<exists>last why. gap_of lo last why \<in> set (t_gaps db)) \<or> rejected ext n"

datatype phase =
    Down db
  | Idle "(u64 \<times> nat) option" indexer \<comment> \<open>a checkpoint given up, and the insert of its gap row\<close>
  | Streaming "u64 option" "hole option" "update list" indexer
      \<comment> \<open>resume point, hole its first update will enter, updates still to come\<close>

fun phase_db :: "phase \<Rightarrow> db" where
  "phase_db (Down db) = db"
| "phase_db (Idle given ix) = ix_db ix"
| "phase_db (Streaming r pend rest ix) = ix_db ix"

text \<open>The checkpoint a restart would resume from.\<close>

definition resume_slot :: "external \<Rightarrow> db \<Rightarrow> u64 option" where
  "resume_slot ext db = map_option ck_last_slot (x_final ext (stream_rows db))"

text \<open>What one wake-up leads to: the loop goes on, the session ends, or the process is gone.\<close>

definition reconnect :: "u64 option \<Rightarrow> nat \<Rightarrow> session_result \<Rightarrow> phase" where
  "reconnect r n res =
     (case res of
        Reconnect ix \<Rightarrow> Idle (if ix_force_tip ix then map_option (\<lambda>c. (c, n)) r else None) ix
      | res \<Rightarrow> Down (ix_db (result_state res)))"

definition after_step :: "external \<Rightarrow> u64 option \<Rightarrow> hole option \<Rightarrow> update list \<Rightarrow> step_result \<Rightarrow> phase" where
  "after_step ext r pend rest res =
     (case res of
        Continue ix \<Rightarrow> Streaming r pend rest ix
      | Break ix \<Rightarrow> reconnect r (op_count (ix_db ix)) (finish_session ext None r ix)
      | Return_Err e ix \<Rightarrow> Down (ix_db ix)
      | Wedge ix \<Rightarrow> Down (ix_db ix))"

definition opened :: "hole option \<Rightarrow> hole list \<Rightarrow> hole list" where
  "opened pend holes = (case pend of None \<Rightarrow> holes | Some h \<Rightarrow> h # holes)"

definition enter :: "hole option \<Rightarrow> phase \<Rightarrow> hole list \<Rightarrow> hole list" where
  "enter pend ph holes = (case ph of Streaming r p rest ix \<Rightarrow> opened pend holes | _ \<Rightarrow> holes)"

definition tip_hole :: "(u64 \<times> nat) option \<Rightarrow> u64 \<Rightarrow> hole" where
  "tip_hole given tip = (case given of None \<Rightarrow> Before_Start tip | Some (c, n) \<Rightarrow> Given_Up c tip n)"

abbreviation session_start :: "indexer \<Rightarrow> indexer" where
  "session_start ix \<equiv> start_session (ix\<lparr>ix_force_tip := False\<rparr>)"

inductive world_step :: "external \<Rightarrow> update list \<Rightarrow> hole list \<times> phase \<Rightarrow> hole list \<times> phase \<Rightarrow> bool"
  for ext chain where
  boot: "world_step ext chain (holes, Down db) (holes, Idle None (indexer_new True db))"
| kill: "world_step ext chain (holes, ph) (holes, Down (phase_db ph))"
| resume: "resume_point ext inp ix = Inr (Some c) \<Longrightarrow> chain = before @ rest \<Longrightarrow>
    \<forall>u \<in> set before. fst u < c \<Longrightarrow>
    world_step ext chain (holes, Idle given ix) (holes, Streaming (Some c) None rest (session_start ix))"
| late: "resume_point ext inp ix = Inr (Some c) \<Longrightarrow> chain = before @ (s, info) # rest \<Longrightarrow>
    \<forall>u \<in> set before. fst u < s \<Longrightarrow>
    world_step ext chain (holes, Idle given ix)
      (holes, Streaming (Some c) (Some (Skipped c s (op_count (ix_db ix)))) ((s, info) # rest) (session_start ix))"
| from_tip: "resume_point ext inp ix = Inr None \<Longrightarrow> chain = before @ rest \<Longrightarrow>
    \<forall>u \<in> set before. fst u < tip \<Longrightarrow>
    world_step ext chain (holes, Idle given ix) (holes, Streaming None (Some (tip_hole given tip)) rest (session_start ix))"
| refused: "resume_point ext inp ix = Inr r \<Longrightarrow>
    world_step ext chain (holes, Idle given ix)
      (holes, reconnect r (op_count (ix_db ix)) (subscribe_failed ext None r e (ix\<lparr>ix_force_tip := False\<rparr>)))"
| deliver: "ph = after_step ext r None rest
      (session_step ext None r (Message ts (Account_Update slot (Some info))) ix) \<Longrightarrow>
    world_step ext chain (holes, Streaming r pend ((slot, info) # rest) ix) (enter pend ph holes, ph)"
| other_event: "\<not> account_event e \<Longrightarrow>
    world_step ext chain (holes, Streaming r pend rest ix)
      (holes, after_step ext r pend rest (session_step ext None r e ix))"

inductive_cases world_stepE: "world_step ext chain w w'"

end
