(* ===== verification/Accounting.thy ===== *)
theory Accounting
  imports World
begin

text \<open>
  Every hole is on record. \<open>told_world\<close> is the invariant: the holes entered so far are accounted
  for in the gap table, a process between sessions that gave its checkpoint up still stands at
  that checkpoint and has tried to record it, and a session that has not taken an update has
  done nothing to the database.
\<close>

section \<open>What a step keeps\<close>

text \<open>The gap table only grows.\<close>

interpretation gaps_grow: session_invariant ext "\<lambda>ix. G \<subseteq> set (t_gaps (ix_db ix))"
proof unfold_locales
  show kept: "G \<subseteq> set (t_gaps (ix_db (step_state (flush_writer_step ext ix))))"
    if "G \<subseteq> set (t_gaps (ix_db ix))" for ix
    using that by (cases rule: flush_step_cases [of ix ext]) (simp_all add: flush_other_tables)
  show "G \<subseteq> set (t_gaps (ix_db (step_state (handle_account ext budget slot info ix))))"
    if "G \<subseteq> set (t_gaps (ix_db ix))" for budget slot info ix
    using that kept [of "account_stats ext slot info ix
        \<lparr>ix_writer := map_option (buffer_update ext slot info) (ix_writer ix)\<rparr>"]
    by (simp add: handle_account_state Let_def)
  show "G \<subseteq> set (t_gaps (ix_db (step_state (try_record_gap ext lo hi why ix))))"
    if "G \<subseteq> set (t_gaps (ix_db ix))" for lo hi why ix
    using that by (auto simp: try_record_gap_def record_gap_def insert_block_def Let_def
        split: option.splits ins_outcome.splits)
qed (simp add: same_core_def)

text \<open>A step of a session leaves the flag of a tip restart alone, and never takes back \<open>got_data\<close>.\<close>

definition flags_kept :: "indexer \<Rightarrow> indexer \<Rightarrow> bool" where
  "flags_kept ix ix' \<longleftrightarrow> ix_force_tip ix' = ix_force_tip ix \<and> (ix_got_data ix \<longrightarrow> ix_got_data ix')"

lemma flags_kept_trans [trans]: "flags_kept a b \<Longrightarrow> flags_kept b c \<Longrightarrow> flags_kept a c"
  by (simp add: flags_kept_def)

lemma flags_flush: "flags_kept ix (step_state (flush_writer_step ext ix))"
  by (cases rule: flush_step_cases [of ix ext]) (simp_all add: flags_kept_def)

lemma flags_gap: "flags_kept ix (step_state (try_record_gap ext lo hi why ix))"
  by (subst try_record_gap_state) (simp add: flags_kept_def)

lemma flags_judge: "flags_kept ix (step_state (judge_resume ext r ix))"
proof -
  have "flags_kept ix (step_state (try_record_gap ext lo hi why (ix\<lparr>ix_resume_judged := True\<rparr>)))" for lo hi why
    by (rule flags_kept_trans [OF _ flags_gap]) (simp add: flags_kept_def)
  then show ?thesis
    by (auto simp: judge_resume_def Let_def flags_kept_def split: resume_verdict.splits option.splits bool.splits)
qed

lemma flags_account: "flags_kept ix (step_state (handle_account ext budget slot info ix))"
proof -
  have "flags_kept ix (account_stats ext slot info ix\<lparr>ix_writer := w\<rparr>)" for w
    by (simp add: flags_kept_def account_stats_def Let_def split_beta)
  then show ?thesis
    by (auto simp: handle_account_state Let_def intro: flags_kept_trans flags_flush)
qed

lemma got_data_account: "ix_got_data (step_state (handle_account ext budget slot info ix))"
proof -
  define ix1 where "ix1 = account_stats ext slot info ix
      \<lparr>ix_writer := map_option (buffer_update ext slot info) (ix_writer ix)\<rparr>"
  have "ix_got_data ix1" by (simp add: ix1_def)
  with flags_flush [of ix1 ext] show ?thesis
    by (auto simp: handle_account_state Let_def flags_kept_def simp flip: ix1_def)
qed

lemma flags_then:
  assumes "flags_kept ix (step_state res)" and "\<And>ix'. flags_kept ix' (step_state (k ix'))"
  shows "flags_kept ix (step_state (step_then res k))"
  using assms by (cases res) (auto intro: flags_kept_trans)

lemma flags_note: "flags_kept ix (note_produced ts ix)"
  by (simp add: flags_kept_def note_produced_def split: option.split)

lemma flags_step: "flags_kept ix (step_state (session_step ext budget r e ix))"
proof (cases e)
  case (Message ts upd)
  have judged: "flags_kept ix (step_state (judge_resume ext r ix'))" if "flags_kept ix ix'" for ix'
    using that flags_judge by (rule flags_kept_trans)
  show ?thesis
  proof (cases upd)
    case (Account_Update slot info)
    have "flags_kept (note_produced ts ix)
        (step_state (step_then (handle_account ext budget slot i (note_produced ts ix)) (judge_resume ext r)))" for i
      by (intro flags_then flags_account flags_judge)
    from flags_kept_trans [OF flags_note this] show ?thesis
      by (simp add: Message Account_Update session_step_def handle_message_def Let_def flags_note split: option.split)
  next
    case (Slot_Update slot)
    have "flags_kept ix (note_produced ts ix\<lparr>ix_tip_slot := t\<rparr>)" for t
      using flags_note [of ix ts] by (simp add: flags_kept_def)
    then show ?thesis
      by (simp add: Message Slot_Update session_step_def handle_message_def Let_def judged)
  qed (simp_all add: Message session_step_def handle_message_def Let_def judged flags_note)
next
  case Flush_Tick
  then show ?thesis by (simp add: session_step_def flags_flush)
next
  case Lag_Tick
  then show ?thesis by (simp add: session_step_def flags_kept_def lag_line_def)
qed (simp_all add: session_step_def flags_kept_def)

lemma got_data_deliver:
  "ix_got_data (step_state (session_step ext budget r (Message ts (Account_Update slot (Some info))) ix))"
proof -
  let ?res = "handle_account ext budget slot info (note_produced ts ix)"
  have "ix_got_data (step_state (step_then ?res (judge_resume ext r)))"
    using got_data_account [of ext budget slot info "note_produced ts ix"] flags_judge
    by (cases ?res) (auto simp: flags_kept_def)
  then show ?thesis by (simp add: session_step_def handle_message_def Let_def)
qed

section \<open>A session that has not taken an update\<close>

definition fresh :: "indexer \<Rightarrow> bool" where
  "fresh ix \<longleftrightarrow> ix_writer ix = Some writer_new \<and> \<not> ix_got_data ix \<and> ix_session_first_slot ix = None"

lemma fresh_start: "ix_writer ix = Some writer_new \<Longrightarrow> fresh (session_start ix)"
  by (simp add: fresh_def start_session_def)

lemma flush_nothing: "ix_writer ix = Some writer_new \<Longrightarrow> flush_writer_step ext ix = Continue ix"
  by (simp add: flush_writer_step_def flush_empty)

text \<open>Without an account update it stays so, and the database is not touched.\<close>

lemma fresh_other:
  assumes "fresh ix" and "\<not> account_event e"
  shows "\<exists>ix'. (session_step ext None r e ix = Continue ix' \<or> session_step ext None r e ix = Break ix')
    \<and> fresh ix' \<and> ix_db ix' = ix_db ix \<and> ix_resume_judged ix' = ix_resume_judged ix"
proof (cases e)
  case (Message ts upd)
  with assms show ?thesis
    by (cases upd) (auto simp: session_step_def handle_message_def Let_def account_event_def judge_none
        fresh_def split: option.splits)
next
  case Flush_Tick
  with assms(1) show ?thesis by (auto simp: session_step_def flush_nothing fresh_def)
next
  case Lag_Tick
  with assms(1) show ?thesis by (simp add: session_step_def lag_line_def fresh_def)
qed (use assms(1) in \<open>simp_all add: session_step_def fresh_def\<close>)

text \<open>The first update stays in the buffer, so its session cannot have moved the checkpoint.\<close>

lemma first_update_no_flush: "\<not> batch_full (buffer_update ext slot info writer_new)"
  by (auto simp: batch_full_def buffer_update_def buffer_obligation_def buffer_reserve_def buffer_market_def
      push_update_def push_snapshot_def push_reserve_snapshot_def push_lm_snapshot_def writer_new_def
      const_defs Let_def split: option.splits sum.splits)

lemma first_account:
  assumes "fresh ix"
  shows "\<exists>ix'. handle_account ext None slot info ix = Continue ix' \<and> ix_db ix' = ix_db ix \<and> ix_writer ix' \<noteq> None
    \<and> ix_session_first_slot ix' = Some slot \<and> ix_resume_judged ix' = ix_resume_judged ix"
proof -
  define ix' where "ix' = account_stats ext slot info ix\<lparr>ix_writer := Some (buffer_update ext slot info writer_new)\<rparr>"
  have "handle_account ext None slot info ix = Continue ix'"
    using assms by (simp add: handle_account_def Let_def fresh_def first_update_no_flush budget_reached_def ix'_def)
  moreover have "ix_session_first_slot ix' = Some slot" "ix_resume_judged ix' = ix_resume_judged ix"
    using assms by (simp_all add: ix'_def account_stats_def Let_def split_beta get_or_insert_def fresh_def)
  ultimately show ?thesis by (simp add: ix'_def)
qed

text \<open>A gap row that was asked for is in the table, unless its insert was rejected.\<close>

lemma gap_attempt:
  assumes "ix_writer ix \<noteq> None"
  shows "\<exists>ix'. try_record_gap ext lo hi why ix = Wedge ix'
    \<or> try_record_gap ext lo hi why ix = Continue ix'
      \<and> (gap_of lo hi why \<in> set (t_gaps (ix_db ix')) \<or> rejected ext (op_count (ix_db ix)))"
  using assms by (auto simp: try_record_gap_def record_gap_def insert_block_def Let_def gap_of_def rejected_def
      split: ins_outcome.splits)

lemma first_judged:
  assumes "ix_writer ix \<noteq> None" and "ix_session_first_slot ix = Some hi" and "\<not> ix_resume_judged ix"
    and "judge_resume ext (Some lo) ix = Continue ix'"
  shows "accounted ext (ix_db ix') (Skipped lo hi (op_count (ix_db ix)))"
proof (cases "unat lo + 600 < unat hi")
  case True
  then have "classify_resume (Some lo) hi = Gap lo hi (hi - lo - 1)"
    by (simp add: classify_resume_Gap_iff)
  with assms(2-4)
  have "try_record_gap ext lo hi (startup_gap_reason (hi - lo)) (ix\<lparr>ix_resume_judged := True\<rparr>) = Continue ix'"
    by (simp add: judge_resume_def Let_def)
  with gap_attempt [of "ix\<lparr>ix_resume_judged := True\<rparr>" ext lo hi "startup_gap_reason (hi - lo)"] assms(1)
  show ?thesis by auto
next
  case False
  then show ?thesis by simp
qed

lemma judge_no_error: "judge_resume ext r ix \<noteq> Break ix'" "judge_resume ext r ix \<noteq> Return_Err e ix'"
  by (auto simp: judge_resume_def Let_def try_record_gap_def
      split: resume_verdict.splits option.splits bool.splits prod.splits outcome.splits)

lemma judge_keeps:
  "t_checkpoint (ix_db (step_state (judge_resume ext r ix))) = t_checkpoint (ix_db ix)"
  "rows_in (ix_db (step_state (judge_resume ext r ix))) = rows_in (ix_db ix)"
  by (auto simp: judge_resume_def Let_def split: resume_verdict.splits option.splits bool.splits)

text \<open>The first update of a session: recorded where it opened late, and nothing but a gap row written.\<close>

lemma first_delivery:
  assumes "fresh ix"
    and step: "res = session_step ext None r (Message ts (Account_Update slot (Some info))) ix"
  shows "t_checkpoint (ix_db (step_state res)) = t_checkpoint (ix_db ix)"
    and "rows_in (ix_db (step_state res)) = rows_in (ix_db ix)"
    and "res \<noteq> Break ix'"
    and "\<not> ix_resume_judged ix \<Longrightarrow> r = Some lo \<Longrightarrow> res = Continue ix' \<Longrightarrow>
      accounted ext (ix_db ix') (Skipped lo slot (op_count (ix_db ix)))"
proof -
  have "fresh (note_produced ts ix)" using assms by (simp add: fresh_def)
  from first_account [OF this, of ext slot info]
  obtain ix1 where ix1: "handle_account ext None slot info (note_produced ts ix) = Continue ix1"
    "ix_db ix1 = ix_db ix" "ix_writer ix1 \<noteq> None" "ix_session_first_slot ix1 = Some slot"
    "ix_resume_judged ix1 = ix_resume_judged ix"
    by auto
  then have res: "res = judge_resume ext r ix1"
    by (simp add: step session_step_def handle_message_def Let_def)
  show "t_checkpoint (ix_db (step_state res)) = t_checkpoint (ix_db ix)"
    and "rows_in (ix_db (step_state res)) = rows_in (ix_db ix)"
    and "res \<noteq> Break ix'"
    by (simp_all add: res judge_keeps judge_no_error ix1(2))
  show "accounted ext (ix_db ix') (Skipped lo slot (op_count (ix_db ix)))"
    if "\<not> ix_resume_judged ix" "r = Some lo" "res = Continue ix'"
    using first_judged [OF ix1(3,4), of ext lo ix'] that ix1(2,5) by (simp add: res)
qed

section \<open>The invariant\<close>

definition told_pending :: "external \<Rightarrow> u64 option \<Rightarrow> hole \<Rightarrow> update list \<Rightarrow> indexer \<Rightarrow> bool" where
  "told_pending ext r h rest ix \<longleftrightarrow> fresh ix
     \<and> (case h of
          Before_Start hi \<Rightarrow> True
        | Skipped lo hi n \<Rightarrow> r = Some lo \<and> \<not> ix_resume_judged ix \<and> rest \<noteq> [] \<and> fst (hd rest) = hi
            \<and> n = op_count (ix_db ix)
        | Given_Up lo hi n \<Rightarrow> accounted ext (ix_db ix) h)"

definition told_session :: "external \<Rightarrow> u64 option \<Rightarrow> hole option \<Rightarrow> update list \<Rightarrow> indexer \<Rightarrow> bool" where
  "told_session ext r pend rest ix \<longleftrightarrow>
     ix_writer ix \<noteq> None \<and> \<not> ix_force_tip ix
     \<and> (ix_got_data ix \<or> fresh ix \<and> (r = None \<or> resume_slot ext (ix_db ix) = r))
     \<and> (pend = None \<or> told_pending ext r (the pend) rest ix)"

fun told_phase :: "external \<Rightarrow> phase \<Rightarrow> bool" where
  "told_phase ext (Down db) \<longleftrightarrow> True"
| "told_phase ext (Idle given ix) \<longleftrightarrow> ix_writer ix = Some writer_new
     \<and> (case given of None \<Rightarrow> \<not> ix_force_tip ix
        | Some (c, n) \<Rightarrow> ix_force_tip ix \<and> resume_slot ext (ix_db ix) = Some c
            \<and> (\<forall>tip. accounted ext (ix_db ix) (Given_Up c tip n)))"
| "told_phase ext (Streaming r pend rest ix) \<longleftrightarrow> told_session ext r pend rest ix"

definition told_world :: "external \<Rightarrow> hole list \<times> phase \<Rightarrow> bool" where
  "told_world ext wd \<longleftrightarrow> (\<forall>h \<in> set (fst wd). accounted ext (phase_db (snd wd)) h) \<and> told_phase ext (snd wd)"

lemma accounted_mono: "accounted ext db h \<Longrightarrow> set (t_gaps db) \<subseteq> set (t_gaps db') \<Longrightarrow> accounted ext db' h"
  by (cases h) auto

lemma resume_slot_cong: "t_checkpoint db' = t_checkpoint db \<Longrightarrow> resume_slot ext db' = resume_slot ext db"
  by (simp add: resume_slot_def stream_rows_def)

lemma resume_point_writer:
  "ix_writer ix = Some w \<Longrightarrow> resume_point ext inp ix = Inr (Some c) \<Longrightarrow> resume_slot ext (ix_db ix) = Some c"
  by (auto simp: resume_point_def read_resume_slot_def resume_slot_def split: if_splits option.splits)

lemma resume_point_none:
  "ix_writer ix = Some w \<Longrightarrow> \<not> ix_force_tip ix \<Longrightarrow> resume_point ext inp ix = Inr None \<Longrightarrow>
     resume_slot ext (ix_db ix) = None"
  by (auto simp: resume_point_def read_resume_slot_def resume_slot_def split: if_splits option.splits)

text \<open>A checkpoint that is given up, by either way round the reconnect loop.\<close>

lemma told_given_up:
  assumes "ix_writer ix = Some writer_new" and "resume_slot ext (ix_db ix) = Some c"
  shows "\<exists>ix'. try_record_gap ext c hi why ix = Wedge ix'
    \<or> try_record_gap ext c hi why ix = Continue ix' \<and> ix_writer ix' = Some writer_new
      \<and> resume_slot ext (ix_db ix') = Some c \<and> (\<forall>tip. accounted ext (ix_db ix') (Given_Up c tip (op_count (ix_db ix))))"
proof -
  let ?res = "try_record_gap ext c hi why ix"
  have "ix_writer (step_state ?res) = Some writer_new" "resume_slot ext (ix_db (step_state ?res)) = Some c"
    using assms resume_slot_cong [of "ix_db (step_state ?res)" "ix_db ix" ext] by simp_all
  with gap_attempt [of ix ext c hi why] assms(1) show ?thesis by fastforce
qed

lemma told_finish:
  assumes "told_session ext r pend rest ix"
  shows "told_phase ext (reconnect r (op_count (ix_db ix)) (finish_session ext None r ix))"
proof (cases "ix_got_data ix \<or> r = None")
  case True
  have unreachable: "check_unreachable ext r ix' = Continue ix'" if "ix_got_data ix' = ix_got_data ix" for ix'
    using True that by (auto simp: check_unreachable_def split: bool.split)
  show ?thesis
    using assms
    by (cases rule: flush_step_cases [of ix ext])
      (simp_all add: told_session_def finish_session_def loop_again_def reconnect_def unreachable
        count_reconnect_def budget_reached_def)
next
  case False
  then obtain c where c: "r = Some c" "\<not> ix_got_data ix" by blast
  with assms have ix: "ix_writer ix = Some writer_new" "resume_slot ext (ix_db ix) = Some c"
    by (simp_all add: told_session_def fresh_def)
  from told_given_up [OF this, of "ix_last_slot ix" "''resume unreachable: no data before stream error''"] c ix(1)
  show ?thesis
    by (fastforce simp: finish_session_def flush_nothing loop_again_def reconnect_def check_unreachable_def
        count_reconnect_def budget_reached_def)
qed

lemma told_refused:
  assumes "told_phase ext (Idle given ix)" and "resume_point ext inp ix = Inr r"
  shows "told_phase ext
    (reconnect r (op_count (ix_db ix)) (subscribe_failed ext None r e (ix\<lparr>ix_force_tip := False\<rparr>)))"
proof (cases r)
  case None
  then show ?thesis by (simp add: subscribe_failed_def reconnect_def)
next
  case (Some c)
  let ?ix = "ix\<lparr>ix_force_tip := False\<rparr>"
  from assms have "ix_writer ?ix = Some writer_new" by simp
  moreover from assms Some have "resume_slot ext (ix_db ?ix) = Some c"
    using resume_point_writer [of ix writer_new ext inp c] by simp
  ultimately show ?thesis
    using told_given_up [of ?ix ext c "ix_last_slot ix" "''subscribe failed: replay window exceeded''"]
    by (fastforce simp: Some subscribe_failed_def loop_again_def reconnect_def)
qed

lemma told_after:
  assumes "told_session ext r pend rest (step_state res)"
  shows "told_phase ext (after_step ext r pend rest res)"
  using assms told_finish by (cases res) (auto simp: after_step_def)

lemma phase_db_reconnect [simp]: "phase_db (reconnect r n res) = ix_db (result_state res)"
  by (simp add: reconnect_def split: session_result.split)

lemma gaps_after:
  "set (t_gaps (ix_db (step_state res))) \<subseteq> set (t_gaps (phase_db (after_step ext r pend rest res)))"
  using gaps_grow.finish [OF subset_refl] by (cases res) (simp_all add: after_step_def)

lemma gaps_step:
  "set (t_gaps (ix_db ix)) \<subseteq> set (t_gaps (phase_db (after_step ext r pend rest (session_step ext budget r' e ix))))"
  using gaps_grow.step [OF subset_refl] gaps_after by (rule subset_trans)

lemma told_deliver:
  assumes "told_session ext r pend rest ix"
  shows "told_session ext r None rest'
    (step_state (session_step ext None r (Message ts (Account_Update slot (Some info))) ix))"
proof -
  let ?e = "Message ts (Account_Update slot (Some info))"
  have "ix_writer (step_state (session_step ext None r ?e ix)) \<noteq> None"
    using assms by (intro writer_stays.step) (simp add: told_session_def)
  with assms flags_step [of ix ext None r ?e] show ?thesis
    by (simp add: told_session_def flags_kept_def got_data_deliver)
qed

lemma told_entered:
  assumes "told_session ext r (Some h) ((slot, info) # rest) ix"
    and "session_step ext None r (Message ts (Account_Update slot (Some info))) ix = Continue ix'"
  shows "accounted ext (ix_db ix') h"
proof -
  from assms(1) have fresh: "fresh ix" and h: "told_pending ext r h ((slot, info) # rest) ix"
    by (simp_all add: told_session_def told_pending_def)
  have grow: "set (t_gaps (ix_db ix)) \<subseteq> set (t_gaps (ix_db ix'))"
    using gaps_grow.step [OF subset_refl, where ext = ext and budget = None and r = r
        and e = "Message ts (Account_Update slot (Some info))" and ix = ix] assms(2) by simp
  show ?thesis
  proof (cases h)
    case (Skipped lo hi n)
    with h first_delivery(4) [OF fresh refl _ _ assms(2), of lo] show ?thesis
      by (simp add: told_pending_def)
  next
    case (Given_Up lo hi n)
    with h accounted_mono [OF _ grow, of ext h] show ?thesis by (simp add: told_pending_def)
  qed simp
qed

lemma told_other:
  assumes "told_session ext r pend rest ix" and "\<not> account_event e"
  shows "told_session ext r pend rest (step_state (session_step ext None r e ix))"
proof (cases "ix_got_data ix")
  case True
  with assms(1) have "pend = None"
    by (auto simp: told_session_def told_pending_def fresh_def)
  moreover have "ix_writer (step_state (session_step ext None r e ix)) \<noteq> None"
    using assms(1) by (intro writer_stays.step) (simp add: told_session_def)
  ultimately show ?thesis
    using assms(1) True flags_step [of ix ext None r e] by (simp add: told_session_def flags_kept_def)
next
  case False
  with assms(1) have "fresh ix" by (simp add: told_session_def)
  from fresh_other [OF this assms(2), of ext r]
  obtain ix' where "step_state (session_step ext None r e ix) = ix'" "fresh ix'" "ix_db ix' = ix_db ix"
    "ix_resume_judged ix' = ix_resume_judged ix" by fastforce
  with assms(1) False flags_step [of ix ext None r e] show ?thesis
    by (auto simp: told_session_def flags_kept_def told_pending_def fresh_def split: hole.splits)
qed

lemma told_world_step:
  assumes "world_step ext chain wd wd'" and "told_world ext wd"
  shows "told_world ext wd'"
  using assms
proof (induction rule: world_step.induct)
  case (boot holes db)
  then show ?case by (simp add: told_world_def indexer_new_def)
next
  case (kill holes ph)
  then show ?case by (simp add: told_world_def)
next
  case (resume inp ix c before rest holes given)
  then show ?case
    using fresh_start resume_point_writer
    by (auto simp: told_world_def told_session_def start_session_def fresh_def)
next
  case (late inp ix c before s info rest holes given)
  then show ?case
    using resume_point_writer
    by (auto simp: told_world_def told_session_def told_pending_def start_session_def fresh_def)
next
  case (from_tip inp ix before rest tip holes given)
  then show ?case
    by (auto simp: told_world_def told_session_def told_pending_def start_session_def fresh_def tip_hole_def
        split: option.splits)
next
  case (refused inp ix r holes given e)
  then have "told_phase ext (Idle given ix)" by (simp add: told_world_def)
  from told_refused [OF this refused(1)]
    gaps_grow.failed_subscribe [OF subset_refl, where ix = "ix\<lparr>ix_force_tip := False\<rparr>" and ext = ext
      and budget = None and r = r and e = e] refused(2)
  show ?case by (auto simp: told_world_def intro: accounted_mono)
next
  case (deliver ph r rest ts slot info ix holes pend)
  let ?res = "session_step ext None r (Message ts (Account_Update slot (Some info))) ix"
  from deliver(2) have ix: "told_session ext r pend ((slot, info) # rest) ix" by (simp add: told_world_def)
  then have ph: "told_phase ext ph"
    unfolding deliver(1) by (intro told_after told_deliver)
  have old: "accounted ext (phase_db ph) h" if "h \<in> set holes" for h
    using deliver(2) that gaps_step [of ix ext r None rest None r "Message ts (Account_Update slot (Some info))"]
    by (auto simp: told_world_def deliver(1) intro: accounted_mono)
  have "accounted ext (phase_db ph) h" if "h \<in> set (enter pend ph holes)" for h
  proof (cases "\<exists>ix'. ?res = Continue ix' \<and> pend = Some h")
    case True
    with told_entered [of ext r h slot info rest ix] ix show ?thesis
      by (auto simp: deliver(1) after_step_def)
  next
    case False
    have "h \<in> set holes"
      using that False
      by (cases ?res; cases pend) (auto simp: deliver(1) after_step_def enter_def opened_def reconnect_def
          split: phase.splits session_result.splits)
    then show ?thesis by (rule old)
  qed
  with ph show ?case by (simp add: told_world_def)
next
  case (other_event e holes r pend rest ix)
  then have "told_session ext r pend rest ix" by (simp add: told_world_def)
  from told_after [OF told_other [OF this other_event(1)]]
    gaps_step [of ix ext r pend rest None r e] other_event(2)
  show ?case by (auto simp: told_world_def intro: accounted_mono)
qed

lemma told_reachable:
  "(world_step ext chain)\<^sup>*\<^sup>* wd wd' \<Longrightarrow> told_world ext wd \<Longrightarrow> told_world ext wd'"
  by (induction rule: rtranclp_induct) (auto intro: told_world_step)

end
