(* ===== verification/Delivery.thy ===== *)
theory Delivery
  imports Accounting
begin

text \<open>
  No update is lost unaccounted. The invariant \<open>good_world\<close> says that every update of the chain
  below the newest checkpoint's slot is stored, raw and decoded, or lies in a hole, and that
  nothing else is stored. With \<open>told_world\<close> it gives the account of every loss. The locale
  \<open>delivery\<close> holds what the argument needs of the world outside: a chain in slot order and a
  checkpoint query that returns the newest row.
\<close>

section \<open>Coverage\<close>

text \<open>
  Every update of the chain below slot \<open>c\<close> has its rows among \<open>T\<close>, the raw one and the decoded
  one when its kind decodes, or lies in a hole.
\<close>

definition kept :: "external \<Rightarrow> hole list \<Rightarrow> data_row set \<Rightarrow> update \<Rightarrow> bool" where
  "kept ext holes T u \<longleftrightarrow> rows_of ext u \<subseteq> T \<or> (\<exists>h \<in> set holes. in_hole h (fst u))"

definition covered :: "external \<Rightarrow> update list \<Rightarrow> hole list \<Rightarrow> u64 \<Rightarrow> data_row set \<Rightarrow> bool" where
  "covered ext chain holes c T \<longleftrightarrow> (\<forall>u \<in> set chain. fst u < c \<longrightarrow> kept ext holes T u)"

definition good_db :: "external \<Rightarrow> update list \<Rightarrow> hole list \<Rightarrow> db \<Rightarrow> bool" where
  "good_db ext chain holes db \<longleftrightarrow>
     (case resume_slot ext db of None \<Rightarrow> True | Some c \<Rightarrow> covered ext chain holes c (rows_in db))
     \<and> rows_in db \<subseteq> \<Union> (rows_of ext ` set chain)"

text \<open>
  In a session: the chain splits into what lies before the session, what was delivered, and
  what is to come; all that was delivered is stored or in the buffer.
\<close>

definition good_session ::
  "external \<Rightarrow> update list \<Rightarrow> hole list \<Rightarrow> hole option \<Rightarrow> update list \<Rightarrow> indexer \<Rightarrow> bool" where
  "good_session ext chain holes pend rest ix \<longleftrightarrow>
     (\<exists>w before seen.
        ix_writer ix = Some w \<and> tidy w \<and> chain = before @ seen @ rest \<and> (pend = None \<or> seen = [])
        \<and> (\<forall>u \<in> set before. kept ext (opened pend holes) (rows_in (ix_db ix)) u)
        \<and> (\<exists>stored held. seen = stored @ held \<and> w_buf w = map (row_of ext) held
             \<and> rows_held w = \<Union> (rows_of ext ` set held)
             \<and> \<Union> (rows_of ext ` set stored) \<subseteq> rows_in (ix_db ix))
        \<and> good_db ext chain holes (ix_db ix))"

fun good_phase :: "external \<Rightarrow> update list \<Rightarrow> hole list \<Rightarrow> phase \<Rightarrow> bool" where
  "good_phase ext chain holes (Down db) = good_db ext chain holes db"
| "good_phase ext chain holes (Idle given ix) =
     (ix_writer ix = Some writer_new \<and> good_db ext chain holes (ix_db ix))"
| "good_phase ext chain holes (Streaming r pend rest ix) = good_session ext chain holes pend rest ix"

definition good_world :: "external \<Rightarrow> update list \<Rightarrow> hole list \<times> phase \<Rightarrow> bool" where
  "good_world ext chain wd \<longleftrightarrow> good_phase ext chain (fst wd) (snd wd)"

section \<open>The invariant is preserved\<close>

lemma w_buf_new: "w_buf writer_new = []"
  by (simp add: writer_new_def)

lemma kept_mono: "kept ext holes T u \<Longrightarrow> T \<subseteq> T' \<Longrightarrow> set holes \<subseteq> set holes' \<Longrightarrow> kept ext holes' T' u"
  by (auto simp: kept_def)

lemma covered_mono: "covered ext chain holes c T \<Longrightarrow> T \<subseteq> T' \<Longrightarrow> covered ext chain holes c T'"
  by (auto simp: covered_def intro: kept_mono)

lemma set_opened [simp]: "set (opened pend holes) = (case pend of None \<Rightarrow> {} | Some h \<Rightarrow> {h}) \<union> set holes"
  by (simp add: opened_def split: option.split)

lemma good_db_same_checkpoint:
  "good_db ext chain holes db \<Longrightarrow> t_checkpoint db' = t_checkpoint db \<Longrightarrow>
     rows_in db \<subseteq> rows_in db' \<Longrightarrow> rows_in db' \<subseteq> \<Union> (rows_of ext ` set chain) \<Longrightarrow>
     good_db ext chain holes db'"
  by (auto simp: good_db_def resume_slot_def stream_rows_def split: option.splits intro: covered_mono)

lemma good_db_cong:
  "t_checkpoint db' = t_checkpoint db \<Longrightarrow> rows_in db' = rows_in db \<Longrightarrow>
     good_db ext chain holes db' = good_db ext chain holes db"
  unfolding good_db_def resume_slot_def stream_rows_def by (simp only:)

lemma good_session_cong:
  "ix_writer ix' = ix_writer ix \<Longrightarrow> t_checkpoint (ix_db ix') = t_checkpoint (ix_db ix) \<Longrightarrow>
     rows_in (ix_db ix') = rows_in (ix_db ix) \<Longrightarrow>
     good_session ext chain holes pend rest ix \<Longrightarrow> good_session ext chain holes pend rest ix'"
  by (auto simp: good_session_def good_db_cong [of "ix_db ix'" "ix_db ix"])

lemma good_session_db: "good_session ext chain holes pend rest ix \<Longrightarrow> good_db ext chain holes (ix_db ix)"
  by (auto simp: good_session_def)

lemma good_sessionE:
  assumes "good_session ext chain holes pend rest ix"
  obtains w before seen stored held where "ix_writer ix = Some w" "tidy w" "chain = before @ seen @ rest"
    "pend = None \<or> seen = []" "\<forall>u \<in> set before. kept ext (opened pend holes) (rows_in (ix_db ix)) u"
    "seen = stored @ held" "w_buf w = map (row_of ext) held" "rows_held w = \<Union> (rows_of ext ` set held)"
    "\<Union> (rows_of ext ` set stored) \<subseteq> rows_in (ix_db ix)" "good_db ext chain holes (ix_db ix)"
  using assms unfolding good_session_def by (elim exE conjE) (rule that)

text \<open>When the first update of a session is taken, its hole is entered.\<close>

lemma good_session_enter:
  assumes "good_session ext chain holes pend rest ix"
  shows "good_session ext chain (opened pend holes) None rest ix"
proof -
  have opened: "opened None hs = hs" for hs by (simp add: opened_def)
  from assms obtain w before seen stored held where "ix_writer ix = Some w" "tidy w" "chain = before @ seen @ rest"
    "\<forall>u \<in> set before. kept ext (opened pend holes) (rows_in (ix_db ix)) u"
    "seen = stored @ held" "w_buf w = map (row_of ext) held" "rows_held w = \<Union> (rows_of ext ` set held)"
    "\<Union> (rows_of ext ` set stored) \<subseteq> rows_in (ix_db ix)" and db: "good_db ext chain holes (ix_db ix)"
    by (rule good_sessionE)
  moreover have "good_db ext chain (opened pend holes) (ix_db ix)"
    using db by (auto simp: good_db_def covered_def split: option.splits intro: kept_mono)
  ultimately show ?thesis
    unfolding good_session_def opened by blast
qed

locale delivery =
  fixes ext :: external and chain :: "update list"
  assumes final_newest: "x_final ext rows = newest rows"
    and sorted: "slot_sorted chain"
begin

lemma resume_slot_snoc:
  "t_checkpoint db' = t_checkpoint db @ [c] \<Longrightarrow> ck_stream c = STREAM \<Longrightarrow>
     resume_slot ext db' = Some (ck_last_slot c)"
  by (simp add: resume_slot_def stream_rows_def final_newest newest_def)

text \<open>A checkpoint at the last held update covers everything before it.\<close>

lemma covered_flush:
  assumes chain: "chain = before @ seen @ rest" and held: "seen = stored @ held" "held \<noteq> []"
    and before: "\<forall>u \<in> set before. kept ext holes T u"
    and stored: "\<Union> (rows_of ext ` set stored) \<subseteq> T"
    and T': "T' = T \<union> \<Union> (rows_of ext ` set held)"
  shows "covered ext chain holes (fst (last held)) T'"
  unfolding covered_def
proof (intro ballI impI)
  fix u assume u: "u \<in> set chain" "fst u < fst (last held)"
  have "last held \<in> set seen" using held by simp
  with sorted chain have "\<forall>v \<in> set rest. fst (last held) \<le> fst v"
    by (auto simp: slot_sorted_def sorted_wrt_append)
  with u(2) have "u \<notin> set rest" by auto
  with u chain held have "u \<in> set before \<or> u \<in> set stored \<or> u \<in> set held" by auto
  with u before stored T' show "kept ext holes T' u" by (auto simp: kept_def)
qed

lemma flush_good:
  assumes good: "good_session ext chain holes pend rest ix" and w: "ix_writer ix = Some w"
  defines "db' \<equiv> fst (snd (flush (x_ins ext) w (ix_db ix)))"
  shows "good_db ext chain holes db'"
    and "snd (snd (flush (x_ins ext) w (ix_db ix))) = Done () \<Longrightarrow>
      good_session ext chain holes pend rest (ix\<lparr>ix_writer := Some writer_new, ix_db := db'\<rparr>)"
proof -
  let ?T = "rows_in (ix_db ix)"
  from good obtain w' before seen stored held where "ix_writer ix = Some w'" and tidy: "tidy w'"
    and chain: "chain = before @ seen @ rest" and idle: "pend = None \<or> seen = []"
    and before: "\<forall>u \<in> set before. kept ext (opened pend holes) ?T u" and seen: "seen = stored @ held"
    and buf: "w_buf w' = map (row_of ext) held" and rows: "rows_held w' = \<Union> (rows_of ext ` set held)"
    and stored: "\<Union> (rows_of ext ` set stored) \<subseteq> ?T"
    and db: "good_db ext chain holes (ix_db ix)"
    by (rule good_sessionE)
  with w have w': "w' = w" by simp
  note tidy = tidy [unfolded w'] and buf = buf [unfolded w'] and rows = rows [unfolded w']
  have keep: "?T \<subseteq> rows_in db'" and part: "rows_in db' \<subseteq> ?T \<union> rows_held w"
    unfolding db'_def by (rule flush_rows_part)+
  have "?T \<subseteq> \<Union> (rows_of ext ` set chain)" using db by (simp add: good_db_def)
  with part rows chain seen have sub: "rows_in db' \<subseteq> \<Union> (rows_of ext ` set chain)" by auto
  show good': "good_db ext chain holes db'"
  proof (cases "t_checkpoint db' = t_checkpoint (ix_db ix)")
    case True
    from db this keep sub show ?thesis by (rule good_db_same_checkpoint)
  next
    case False
    with flush_rows_checkpoint [of "x_ins ext" w "ix_db ix"]
    have nonempty: "\<not> writer_is_empty w" and ck: "t_checkpoint db' = t_checkpoint (ix_db ix) @ [checkpoint_of w]"
      and T': "rows_in db' = ?T \<union> rows_held w"
      by (auto simp: db'_def)
    with tidy buf have held: "held \<noteq> []" by (auto simp: tidy_def)
    with idle seen before have before': "\<forall>u \<in> set before. kept ext holes ?T u" by (simp add: opened_def)
    from buf held have "ck_last_slot (checkpoint_of w) = fst (last held)"
      by (cases "last held") (simp add: checkpoint_of_def high_water_def last_map)
    with ck have "resume_slot ext db' = Some (fst (last held))"
      using resume_slot_snoc [OF ck] by (simp add: checkpoint_of_def)
    moreover have "covered ext chain holes (fst (last held)) (rows_in db')"
      by (rule covered_flush [OF chain seen held before' stored]) (simp add: T' rows)
    ultimately show ?thesis using sub by (simp add: good_db_def)
  qed
  assume "snd (snd (flush (x_ins ext) w (ix_db ix))) = Done ()"
  then have "rows_in db' = ?T \<union> rows_held w"
    unfolding db'_def by (rule flush_rows_Done)
  with stored rows seen have all: "\<Union> (rows_of ext ` set seen) \<subseteq> rows_in db'" by auto
  have "\<exists>stored held. seen = stored @ held \<and> w_buf writer_new = map (row_of ext) held
      \<and> rows_held writer_new = \<Union> (rows_of ext ` set held)
      \<and> \<Union> (rows_of ext ` set stored) \<subseteq> rows_in db'"
    using all by (intro exI [of _ seen] exI [of _ "[]"]) (simp add: w_buf_new)
  moreover have "\<forall>u \<in> set before. kept ext (opened pend holes) (rows_in db') u"
    using before keep by (auto simp: kept_def)
  ultimately show "good_session ext chain holes pend rest (ix\<lparr>ix_writer := Some writer_new, ix_db := db'\<rparr>)"
    unfolding good_session_def
    using chain good' by (intro exI [of _ writer_new] exI [of _ before] exI [of _ seen]) (simp add: idle)
qed

lemma after_flush:
  assumes good: "good_session ext chain holes pend rest ix"
  shows "good_db ext chain holes (ix_db (step_state (flush_writer_step ext ix)))"
    and "flush_writer_step ext ix = Continue ix' \<Longrightarrow> good_session ext chain holes pend rest ix'
      \<and> ix_writer ix' = Some writer_new"
    and "flush_writer_step ext ix \<noteq> Break ix'"
proof -
  have some: "ix_writer ix \<noteq> None"
    using good by (auto simp: good_session_def)
  have "good_db ext chain holes (ix_db (step_state (flush_writer_step ext ix)))
      \<and> (flush_writer_step ext ix = Continue ix' \<longrightarrow> good_session ext chain holes pend rest ix'
          \<and> ix_writer ix' = Some writer_new)
      \<and> flush_writer_step ext ix \<noteq> Break ix'"
  proof (cases rule: flush_step_cases [of ix ext])
    case sampling
    with some show ?thesis by simp
  next
    case (flushed w)
    with flush_good [OF good flushed(1)] show ?thesis by auto
  next
    case (failed w e)
    with flush_good [OF good failed(1)] show ?thesis by simp
  qed
  then show "good_db ext chain holes (ix_db (step_state (flush_writer_step ext ix)))"
    and "flush_writer_step ext ix = Continue ix' \<Longrightarrow> good_session ext chain holes pend rest ix'
      \<and> ix_writer ix' = Some writer_new"
    and "flush_writer_step ext ix \<noteq> Break ix'"
    by blast+
qed

text \<open>Only the data tables, the checkpoint table and the writer matter.\<close>

lemma good_session_irrelevant:
  "good_session ext chain holes pend rest ix \<Longrightarrow> same_core ix ix' \<Longrightarrow> good_session ext chain holes pend rest ix'"
  by (rule good_session_cong [of ix' ix]) (auto simp: same_core_def)

lemma good_session_gap:
  "good_session ext chain holes pend rest ix \<Longrightarrow>
     good_session ext chain holes pend rest (step_state (try_record_gap ext lo hi why ix))"
  by (rule good_session_cong [of _ ix]) simp_all

lemma good_phase_finish:
  assumes "good_session ext chain holes pend rest ix"
  shows "good_phase ext chain holes (after_step ext r pend rest (Break ix))"
proof (cases "flush_writer_step ext ix")
  case (Continue ix1)
  with after_flush(2) [OF assms] have ix1: "good_session ext chain holes pend rest ix1" "ix_writer ix1 = Some writer_new"
    by auto
  have db1: "good_db ext chain holes (ix_db ix1)" using ix1 by (simp add: good_session_db)
  let ?g = "\<lambda>s. try_record_gap ext s (ix_last_slot ix1) ''resume unreachable: no data before stream error'' ix1"
  have gap: "good_db ext chain holes (ix_db (step_state (?g s)))" for s
    using db1 good_db_cong [of "ix_db (step_state (?g s))" "ix_db ix1"] by simp
  have gw: "ix_writer (step_state (?g s)) = Some writer_new" for s
    using ix1 by simp
  show ?thesis
    using Continue db1 ix1(2) gap [of "the r"] gw [of "the r"]
    by (cases "?g (the r)"; cases r)
      (auto simp: after_step_def reconnect_def finish_session_def loop_again_def check_unreachable_def
        count_reconnect_def split: bool.splits)
next
  case (Break ix1)
  with after_flush(3) [OF assms] show ?thesis by blast
next
  case (Return_Err e ix1)
  with after_flush(1) [OF assms] show ?thesis
    by (simp add: after_step_def reconnect_def finish_session_def loop_again_def)
next
  case (Wedge ix1)
  with after_flush(1) [OF assms] show ?thesis
    by (simp add: after_step_def reconnect_def finish_session_def loop_again_def)
qed

definition good_step :: "hole list \<Rightarrow> hole option \<Rightarrow> update list \<Rightarrow> step_result \<Rightarrow> bool" where
  "good_step holes pend rest res \<longleftrightarrow>
     (\<forall>ix'. res = Continue ix' \<or> res = Break ix' \<longrightarrow> good_session ext chain holes pend rest ix')
     \<and> good_db ext chain holes (ix_db (step_state res))"

lemma good_stepI: "good_session ext chain holes pend rest ix \<Longrightarrow> good_step holes pend rest (Continue ix)"
  by (simp add: good_step_def good_session_db)

lemma good_breakI: "good_session ext chain holes pend rest ix \<Longrightarrow> good_step holes pend rest (Break ix)"
  by (simp add: good_step_def good_session_db)

lemma good_step_after:
  "good_step holes pend rest res \<Longrightarrow> good_phase ext chain holes (after_step ext r pend rest res)"
  using good_phase_finish by (cases res) (auto simp: good_step_def after_step_def)

lemma good_then:
  assumes res: "good_step holes pend rest res"
    and k: "\<And>ix. good_session ext chain holes pend rest ix \<Longrightarrow> good_step holes pend rest (k ix)"
  shows "good_step holes pend rest (step_then res k)"
proof (cases res)
  case (Continue ix)
  with res have "good_session ext chain holes pend rest ix" by (simp add: good_step_def)
  from k [OF this] Continue show ?thesis by simp
qed (use res in \<open>simp_all add: good_step_def\<close>)

lemma good_flush_step: "good_session ext chain holes pend rest ix \<Longrightarrow> good_step holes pend rest (flush_writer_step ext ix)"
  using after_flush [of holes pend rest ix] by (auto simp: good_step_def)

lemma good_try_gap:
  assumes "good_session ext chain holes pend rest ix"
  shows "good_step holes pend rest (try_record_gap ext lo hi why ix)"
proof -
  let ?res = "try_record_gap ext lo hi why ix"
  have good: "good_session ext chain holes pend rest (step_state ?res)"
    using assms by (rule good_session_gap)
  then have "good_db ext chain holes (ix_db (step_state ?res))"
    by (rule good_session_db)
  with good show ?thesis
    by (cases ?res) (simp_all add: good_step_def)
qed

lemma good_judge:
  assumes "good_session ext chain holes pend rest ix"
  shows "good_step holes pend rest (judge_resume ext r ix)"
proof -
  have "good_session ext chain holes pend rest (ix\<lparr>ix_resume_judged := True\<rparr>)"
    using assms by (rule good_session_irrelevant) (simp add: same_core_def)
  then show ?thesis
    using assms by (auto simp: judge_resume_def Let_def intro: good_stepI good_try_gap
        split: resume_verdict.splits option.splits bool.splits)
qed

text \<open>An update that arrives moves from the updates to come into the buffer.\<close>

lemma good_buffered:
  assumes "good_session ext chain holes None ((slot, info) # rest) ix"
  shows "good_session ext chain holes None rest
    (account_stats ext slot info ix\<lparr>ix_writer := map_option (buffer_update ext slot info) (ix_writer ix)\<rparr>)"
proof -
  from assms obtain w before seen stored held where *: "ix_writer ix = Some w"
    "chain = before @ seen @ (slot, info) # rest" "seen = stored @ held"
    "\<forall>u \<in> set before. kept ext (opened None holes) (rows_in (ix_db ix)) u"
    "w_buf w = map (row_of ext) held" "rows_held w = \<Union> (rows_of ext ` set held)"
    "\<Union> (rows_of ext ` set stored) \<subseteq> rows_in (ix_db ix)"
    "good_db ext chain holes (ix_db ix)"
    by (auto simp: good_session_def)
  have split: "\<exists>stored' held'. seen @ [(slot, info)] = stored' @ held'
      \<and> w_buf (buffer_update ext slot info w) = map (row_of ext) held'
      \<and> rows_held (buffer_update ext slot info w) = \<Union> (rows_of ext ` set held')
      \<and> \<Union> (rows_of ext ` set stored') \<subseteq> rows_in (ix_db ix)"
    using * by (intro exI [of _ stored] exI [of _ "held @ [(slot, info)]"])
      (simp add: w_buf_buffer_update rows_held_buffer_update Un_commute)
  show ?thesis
    unfolding good_session_def
    using * split
    by (intro exI [of _ "buffer_update ext slot info w"] exI [of _ before] exI [of _ "seen @ [(slot, info)]"]) simp
qed

lemma good_deliver:
  assumes "good_session ext chain holes None ((slot, info) # rest) ix"
  shows "good_step holes None rest (session_step ext None r (Message ts (Account_Update slot (Some info))) ix)"
proof -
  have "good_session ext chain holes None ((slot, info) # rest) (note_produced ts ix)"
    using assms by (rule good_session_irrelevant) (simp add: same_core_def note_produced_def split: option.splits)
  from good_buffered [OF this]
  have "good_step holes None rest (handle_account ext None slot info (note_produced ts ix))"
    by (auto simp: handle_account_def Let_def budget_reached_def
        intro!: good_then good_stepI good_flush_step)
  then show ?thesis
    by (simp add: session_step_def handle_message_def Let_def good_then good_judge)
qed

lemma good_other:
  assumes "good_session ext chain holes pend rest ix" and "\<not> account_event e"
  shows "good_step holes pend rest (session_step ext None r e ix)"
proof -
  have ir: "good_session ext chain holes pend rest ix'" if "same_core ix ix'" for ix'
    using assms(1) that by (rule good_session_irrelevant)
  show ?thesis
  proof (cases e)
    case (Message ts upd)
    with assms(2) show ?thesis
      by (cases upd) (auto simp: session_step_def handle_message_def account_event_def same_core_def
          note_produced_def Let_def intro!: good_judge good_stepI ir split: option.splits)
  qed (auto simp: session_step_def same_core_def lag_line_def
      intro!: good_breakI good_stepI good_flush_step ir)
qed

lemma good_session_start:
  assumes "chain = before @ rest" and "ix_writer ix = Some writer_new"
    and "\<forall>u \<in> set before. kept ext (opened pend holes) (rows_in (ix_db ix)) u"
    and "good_db ext chain holes (ix_db ix)"
  shows "good_session ext chain holes pend rest (session_start ix)"
  unfolding good_session_def
  using assms
  by (intro exI [of _ writer_new] exI [of _ before] exI [of _ "[]"]) (simp add: start_session_def w_buf_new)

text \<open>What lies before a session is kept: below the checkpoint it was, and the rest is in the hole.\<close>

lemma kept_before:
  assumes "good_db ext chain holes db" and "resume_slot ext db = Some c" and "u \<in> set chain"
    and "c \<le> fst u \<Longrightarrow> \<exists>h \<in> set (opened pend holes). in_hole h (fst u)"
  shows "kept ext (opened pend holes) (rows_in db) u"
proof (cases "fst u < c")
  case True
  with assms(1-3) show ?thesis by (auto simp: good_db_def covered_def intro: kept_mono)
next
  case False
  with assms(4) show ?thesis by (simp add: kept_def)
qed

lemma good_refused:
  assumes "good_phase ext chain holes (Idle given ix)"
  shows "good_phase ext chain holes (reconnect r n (subscribe_failed ext None r e (ix\<lparr>ix_force_tip := False\<rparr>)))"
proof (cases r)
  case None
  with assms show ?thesis by (simp add: subscribe_failed_def reconnect_def)
next
  case (Some s)
  let ?g = "try_record_gap ext s (ix_last_slot ix) ''subscribe failed: replay window exceeded'' (ix\<lparr>ix_force_tip := False\<rparr>)"
  have "good_db ext chain holes (ix_db (step_state ?g))" and "ix_writer (step_state ?g) = Some writer_new"
    using assms good_db_cong [of "ix_db (step_state ?g)" "ix_db ix"] by simp_all
  with Some show ?thesis
    by (cases ?g) (simp_all add: subscribe_failed_def loop_again_def reconnect_def)
qed

lemma good_phase_db: "good_phase ext chain holes ph \<Longrightarrow> good_db ext chain holes (phase_db ph)"
  by (cases ph) (auto intro: good_session_db)

lemma good_entered:
  assumes good: "good_session ext chain holes pend ((slot, info) # rest) ix"
    and told: "told_session ext r pend ((slot, info) # rest) ix"
    and ph: "ph = after_step ext r None rest (session_step ext None r (Message ts (Account_Update slot (Some info))) ix)"
  shows "good_phase ext chain (enter pend ph holes) ph"
proof -
  let ?res = "session_step ext None r (Message ts (Account_Update slot (Some info))) ix"
  have entered: "good_phase ext chain (opened pend holes) ph"
    unfolding ph by (intro good_step_after good_deliver good_session_enter good)
  show ?thesis
  proof (cases "pend = None \<or> (\<exists>ix'. ?res = Continue ix')")
    case True
    with entered show ?thesis
      by (auto simp: ph after_step_def enter_def opened_def split: phase.split)
  next
    case False
    with told have fresh: "fresh ix" by (auto simp: told_session_def told_pending_def)
    have "good_db ext chain holes (ix_db (step_state ?res))"
      unfolding good_db_cong [OF first_delivery(1,2) [OF fresh refl]] by (rule good_session_db [OF good])
    then show ?thesis
      using False first_delivery(3) [OF fresh refl, of ext r ts slot info]
      by (cases ?res) (auto simp: ph after_step_def enter_def)
  qed
qed

lemma good_world_step:
  assumes "world_step ext chain wd wd'" and "told_world ext wd" and "good_world ext chain wd"
  shows "good_world ext chain wd'"
  using assms
proof (induction rule: world_step.induct)
  case (boot holes db)
  then show ?case by (simp add: good_world_def indexer_new_def)
next
  case (kill holes ph)
  then show ?case by (simp add: good_world_def good_phase_db)
next
  case (resume inp ix c before rest holes given)
  then have ix: "ix_writer ix = Some writer_new" "good_db ext chain holes (ix_db ix)"
    by (simp_all add: good_world_def)
  have "resume_slot ext (ix_db ix) = Some c"
    using ix(1) resume(1) by (rule resume_point_writer)
  from kept_before [OF ix(2) this] resume(2,3)
  have "\<forall>u \<in> set before. kept ext (opened None holes) (rows_in (ix_db ix)) u" by fastforce
  with good_session_start [OF resume(2) ix(1) _ ix(2)] show ?case by (simp add: good_world_def)
next
  case (late inp ix c before s info rest holes given)
  then have ix: "ix_writer ix = Some writer_new" "good_db ext chain holes (ix_db ix)"
    by (simp_all add: good_world_def)
  have "resume_slot ext (ix_db ix) = Some c"
    using ix(1) late(1) by (rule resume_point_writer)
  from kept_before [OF ix(2) this] late(2,3)
  have "\<forall>u \<in> set before. kept ext (opened (Some (Skipped c s (op_count (ix_db ix)))) holes) (rows_in (ix_db ix)) u"
    by fastforce
  with good_session_start [OF late(2) ix(1) _ ix(2)] show ?case by (simp add: good_world_def)
next
  case (from_tip inp ix before rest tip holes given)
  then have ix: "ix_writer ix = Some writer_new" "good_db ext chain holes (ix_db ix)"
    by (simp_all add: good_world_def)
  have "\<forall>u \<in> set before. kept ext (opened (Some (tip_hole given tip)) holes) (rows_in (ix_db ix)) u"
  proof (cases given)
    case None
    with from_tip(3) show ?thesis by (auto simp: kept_def tip_hole_def)
  next
    case (Some cn)
    with from_tip(4) obtain c n where "given = Some (c, n)" "resume_slot ext (ix_db ix) = Some c"
      by (cases cn) (auto simp: told_world_def)
    with kept_before [OF ix(2) this(2)] from_tip(2,3) show ?thesis by (fastforce simp: tip_hole_def)
  qed
  with good_session_start [OF from_tip(2) ix(1) _ ix(2)] show ?case by (simp add: good_world_def)
next
  case (refused inp ix r holes given e)
  then show ?case
    using good_refused [of holes given ix] by (simp add: good_world_def)
next
  case (deliver ph r rest ts slot info ix holes pend)
  then show ?case
    using good_entered [OF _ _ deliver(1), of holes pend] by (simp add: good_world_def told_world_def)
next
  case (other_event e holes r pend rest ix)
  then show ?case
    by (simp add: good_world_def good_step_after good_other)
qed

lemma good_reachable:
  "(world_step ext chain)\<^sup>*\<^sup>* wd wd' \<Longrightarrow> told_world ext wd \<Longrightarrow> good_world ext chain wd \<Longrightarrow>
     good_world ext chain wd'"
  by (induction rule: rtranclp_induct) (auto intro: good_world_step told_reachable)

end

text \<open>
  The contract holds for every digest, cast, discriminator and insert behaviour, with the
  checkpoint query that returns the newest row and a chain put in slot order.
\<close>

definition with_newest :: "external \<Rightarrow> external" where
  "with_newest ext = ext\<lparr>x_final := newest\<rparr>"

interpretation ordered: delivery "with_newest ext" "sort_key fst us"
proof unfold_locales
  have "sorted_wrt (\<lambda>a b. fst a \<le> fst b) (sort_key fst us)"
    using sorted_sort_key [of fst us] by (simp add: sorted_map)
  then show "slot_sorted (sort_key fst us)" by (simp add: slot_sorted_def)
qed (simp add: with_newest_def)

lemma good_db_reachable:
  assumes "\<And>rows. x_final ext rows = newest rows" and "slot_sorted chain"
    and "(world_step ext chain)\<^sup>*\<^sup>* (start, Down db) (holes, ph)"
    and "good_db ext chain start db" and "\<And>h. h \<in> set start \<Longrightarrow> accounted ext db h"
  shows "good_db ext chain holes (phase_db ph)"
proof -
  have d: "delivery ext chain"
    by (rule delivery.intro) (simp_all add: assms)
  have "told_world ext (start, Down db)"
    using assms(5) by (simp add: told_world_def)
  from delivery.good_reachable [OF d assms(3) this] assms(4)
  have "good_phase ext chain holes ph" by (simp add: good_world_def)
  then show ?thesis by (rule delivery.good_phase_db [OF d])
qed

section \<open>A run with a crash inside a slot and a replay that starts late\<close>

definition demo_info :: "nat \<Rightarrow> account_info" where
  "demo_info wv = \<lparr>ai_pubkey = replicate 32 1, ai_owner = replicate 32 2, ai_lamports = 5, ai_write_version = of_nat wv, ai_data = [7]\<rparr>"

definition demo_chain :: "update list" where
  "demo_chain = [(10, demo_info 1), (12, demo_info 2), (12, demo_info 3), (2000, demo_info 4)]"

definition demo_ext :: external where
  "demo_ext = \<lparr>x_digest = (\<lambda>_. []), x_cast = (\<lambda>_. True), x_spl = (\<lambda>_. []), x_final = newest, x_ins = (\<lambda>_. Acked)\<rparr>"

definition demo_input :: session_input where
  "demo_input = \<lparr>si_query_err = None, si_connect_err = None, si_subscribe_err = None, si_events = []\<rparr>"

definition demo_deliver :: "u64 option \<Rightarrow> update \<Rightarrow> indexer \<Rightarrow> indexer" where
  "demo_deliver r u ix =
     step_state (session_step demo_ext None r (Message None (Account_Update (fst u) (Some (snd u)))) ix)"

definition demo_flush :: "u64 option \<Rightarrow> indexer \<Rightarrow> indexer" where
  "demo_flush r ix = step_state (session_step demo_ext None r Flush_Tick ix)"

text \<open>
  First life: two updates from the tip, a flush, a kill. Second life: a replay from slot 12,
  inclusive, and a kill before any flush. Third life: the server replays from slot 2000 only.
\<close>

definition demo1 :: indexer where "demo1 = session_start (indexer_new True empty_db)"
definition demo2 :: indexer where "demo2 = demo_deliver None (10, demo_info 1) demo1"
definition demo3 :: indexer where "demo3 = demo_deliver None (12, demo_info 2) demo2"
definition demo4 :: indexer where "demo4 = demo_flush None demo3"
definition demo5 :: indexer where "demo5 = session_start (indexer_new True (ix_db demo4))"
definition demo6 :: indexer where "demo6 = demo_deliver (Some 12) (12, demo_info 2) demo5"
definition demo7 :: indexer where "demo7 = demo_deliver (Some 12) (2000, demo_info 4) demo5"
definition demo8 :: indexer where "demo8 = demo_flush (Some 12) demo7"

text \<open>Evaluation by rewriting: an account of an unknown kind only goes into the raw buffer.\<close>

lemma demo_kind: "account_kind_from (x_digest demo_ext) (ai_data (demo_info n)) = Untagged 1"
  by (simp add: account_kind_from_def demo_info_def)

lemma demo_buffer: "buffer_update demo_ext slot (demo_info n) w = push_update (update_row slot (Untagged 1) (demo_info n)) w"
  by (simp add: buffer_update_def demo_kind Let_def buffer_obligation_def buffer_reserve_def buffer_market_def)

lemma demo_ext_simps:
  "x_ins demo_ext n = Acked" "x_final demo_ext rows = newest rows"
  by (simp_all add: demo_ext_def)

lemma demo_judge:
  "classify_resume None s = Not_Applicable" "classify_resume (Some 12) 12 = Clean 0"
  "classify_resume (Some 12) 2000 = Gap 12 2000 1987"
  by (simp_all add: classify_resume_def saturating_sub_def const_defs)

lemmas demo_rules = session_step_def handle_message_def handle_account_def account_stats_def judge_resume_def
  demo_kind demo_buffer demo_ext_simps demo_judge note_produced_def budget_reached_def push_update_def
  batch_full_def const_defs get_or_insert_def split_beta Let_def try_record_gap_def record_gap_def insert_block_def

lemmas demo_flush_rules = session_step_def flush_writer_step_def flush_def insert_nonempty_def insert_block_def
  with_timeout_def and_then_def writer_is_empty_def checkpoint_of_def high_water_def demo_ext_simps Let_def

abbreviation demo_raw :: "u64 \<Rightarrow> nat \<Rightarrow> account_update_row" where
  "demo_raw slot n \<equiv> update_row slot (Untagged 1) (demo_info n)"

definition demo_ck :: "u64 \<Rightarrow> nat \<Rightarrow> checkpoint_row" where
  "demo_ck slot n = \<lparr>ck_stream = STREAM, ck_last_slot = slot, ck_last_write_version = of_nat n\<rparr>"

text \<open>A state of the run: what is buffered, the database, and whether the seam has been judged.\<close>

definition demo_at :: "account_update_row list \<Rightarrow> db \<Rightarrow> bool \<Rightarrow> indexer \<Rightarrow> bool" where
  "demo_at buf db started ix \<longleftrightarrow>
     ix_writer ix = Some \<lparr>w_buf = buf, w_snap_buf = [], w_reserve_buf = [], w_lm_buf = []\<rparr> \<and> ix_db ix = db
     \<and> (if started then ix_resume_judged ix else \<not> ix_resume_judged ix \<and> ix_session_first_slot ix = None)"

definition demo_db1 :: db where
  "demo_db1 = empty_db\<lparr>t_updates := [demo_raw 10 1, demo_raw 12 2], t_checkpoint := [demo_ck 12 2], op_count := Suc (Suc 0)\<rparr>"

definition demo_db2 :: db where
  "demo_db2 = demo_db1\<lparr>t_gaps := [gap_of 12 2000 (startup_gap_reason 1988)], op_count := Suc (Suc (Suc 0))\<rparr>"

definition demo_db3 :: db where
  "demo_db3 = demo_db2\<lparr>t_updates := t_updates demo_db2 @ [demo_raw 2000 4],
     t_checkpoint := t_checkpoint demo_db2 @ [demo_ck 2000 4], op_count := Suc (Suc (op_count demo_db2))\<rparr>"

lemma demo_take:
  assumes "demo_at buf db started ix" and "length buf < 100" and "r = None \<or> r = Some 12 \<and> (started \<or> slot = 12)"
  shows "session_step demo_ext None r (Message None (Account_Update slot (Some (demo_info n)))) ix =
      Continue (demo_deliver r (slot, demo_info n) ix)"
    and "demo_at (buf @ [demo_raw slot n]) db True (demo_deliver r (slot, demo_info n) ix)"
  using assms by (cases started; auto simp: demo_at_def demo_rules demo_deliver_def split: option.split)+

lemma demo_take_late:
  assumes "demo_at [] demo_db1 False ix"
  shows "session_step demo_ext None (Some 12) (Message None (Account_Update 2000 (Some (demo_info n)))) ix =
      Continue (demo_deliver (Some 12) (2000, demo_info n) ix)"
    and "demo_at [demo_raw 2000 n] demo_db2 True (demo_deliver (Some 12) (2000, demo_info n) ix)"
  using assms
  by (simp_all add: demo_at_def demo_rules demo_deliver_def demo_db1_def demo_db2_def empty_db_def gap_of_def)

lemma demo_flushed:
  assumes "demo_at (buf @ [demo_raw slot n]) db True ix"
  shows "session_step demo_ext None r Flush_Tick ix = Continue (demo_flush r ix)"
    and "demo_at [] (db\<lparr>t_updates := t_updates db @ buf @ [demo_raw slot n],
        t_checkpoint := t_checkpoint db @ [demo_ck slot n], op_count := Suc (Suc (op_count db))\<rparr>) True (demo_flush r ix)"
  using assms
  by (simp_all add: demo_at_def demo_flush_def demo_flush_rules demo_ck_def update_row_def demo_info_def writer_new_def)

lemma demo_opened: "demo_at [] db False (session_start (indexer_new True db))"
  by (simp add: demo_at_def start_session_def indexer_new_def writer_new_def)

lemma demo_at_2: "demo_at [demo_raw 10 1] empty_db True demo2"
  using demo_take(2) [OF demo_opened [of empty_db], of None 10 1] by (simp add: demo2_def demo1_def)

lemma demo_at_3: "demo_at [demo_raw 10 1, demo_raw 12 2] empty_db True demo3"
  using demo_take(2) [OF demo_at_2, of None 12 2] by (simp add: demo3_def)

lemma demo_at_4: "demo_at [] demo_db1 True demo4"
  using demo_flushed(2) [of "[demo_raw 10 1]" 12 2 empty_db demo3 None] demo_at_3
  by (simp add: demo4_def demo_db1_def empty_db_def)

lemma demo_db_4: "ix_db demo4 = demo_db1"
  using demo_at_4 by (simp add: demo_at_def)

lemma demo_at_5: "demo_at [] demo_db1 False demo5"
  using demo_opened [of demo_db1] by (simp add: demo5_def demo_db_4)

lemma demo_at_7: "demo_at [demo_raw 2000 4] demo_db2 True demo7"
  using demo_take_late(2) [OF demo_at_5] by (simp add: demo7_def)

lemma demo_at_8: "demo_at [] demo_db3 True demo8"
  using demo_flushed(2) [of "[]" 2000 4 demo_db2 demo7 "Some 12"] demo_at_7
  by (simp add: demo8_def demo_db3_def demo_db2_def demo_db1_def empty_db_def)

lemma demo_eval_1: "session_step demo_ext None None (Message None (Account_Update 10 (Some (demo_info 1)))) demo1 = Continue demo2"
  using demo_take(1) [OF demo_opened [of empty_db], of None 10 1] by (simp add: demo2_def demo1_def)

lemma demo_eval_2: "session_step demo_ext None None (Message None (Account_Update 12 (Some (demo_info 2)))) demo2 = Continue demo3"
  using demo_take(1) [OF demo_at_2, of None 12 2] by (simp add: demo3_def)

lemma demo_eval_3: "session_step demo_ext None None Flush_Tick demo3 = Continue demo4"
  using demo_flushed(1) [of "[demo_raw 10 1]" 12 2 empty_db demo3 None] demo_at_3 by (simp add: demo4_def)

lemma demo_eval_4: "resume_point demo_ext demo_input (indexer_new True (ix_db demo4)) = Inr (Some 12)"
  by (simp add: demo_db_4 demo_db1_def resume_point_def indexer_new_def read_resume_slot_def demo_input_def
      demo_ext_simps stream_rows_def newest_def demo_ck_def)

lemma demo_eval_5: "session_step demo_ext None (Some 12) (Message None (Account_Update 12 (Some (demo_info 2)))) demo5 = Continue demo6"
  using demo_take(1) [OF demo_at_5, of "Some 12" 12 2] by (simp add: demo6_def)

lemma demo_eval_6: "session_step demo_ext None (Some 12) (Message None (Account_Update 2000 (Some (demo_info 4)))) demo5 = Continue demo7"
  using demo_take_late(1) [OF demo_at_5] by (simp add: demo7_def)

lemma demo_eval_7: "session_step demo_ext None (Some 12) Flush_Tick demo7 = Continue demo8"
  using demo_flushed(1) [of "[]" 2000 4 demo_db2 demo7 "Some 12"] demo_at_7 by (simp add: demo8_def)

lemma demo_eval_8: "resume_slot demo_ext (ix_db demo8) = Some 2000"
  using demo_at_8 by (simp add: demo_at_def demo_db3_def demo_db2_def demo_db1_def resume_slot_def demo_ext_simps
      stream_rows_def newest_def demo_ck_def)

lemma demo_eval_9: "ix_db demo6 = ix_db demo4"
  using demo_take(2) [OF demo_at_5, of "Some 12" 12 2] by (simp add: demo6_def demo_at_def demo_db_4)

lemmas demo_steps = demo_eval_1 demo_eval_2 demo_eval_3 demo_eval_4 demo_eval_5 demo_eval_6 demo_eval_7

lemma demo_step_deliver:
  assumes "session_step demo_ext None r (Message None (Account_Update slot (Some info))) ix = Continue ix'"
  shows "world_step demo_ext demo_chain (holes, Streaming r pend ((slot, info) # rest) ix)
    (opened pend holes, Streaming r None rest ix')"
  using deliver [OF refl, of demo_ext demo_chain holes r pend slot info rest ix None] assms
  by (simp add: after_step_def enter_def)

lemma demo_step_flush:
  assumes "session_step demo_ext None r Flush_Tick ix = Continue ix'"
  shows "world_step demo_ext demo_chain (holes, Streaming r pend rest ix) (holes, Streaming r pend rest ix')"
  using other_event [of Flush_Tick demo_ext demo_chain holes r pend rest ix] assms
  by (simp add: after_step_def account_event_def)

lemma demo_tip:
  "world_step demo_ext demo_chain ([], Idle None (indexer_new True empty_db))
     ([], Streaming None (Some (Before_Start 10)) ((10, demo_info 1) # tl demo_chain) demo1)"
  using from_tip [of demo_ext demo_input "indexer_new True empty_db" demo_chain "[]" "demo_chain" 10 "[]" None]
  by (simp add: demo1_def demo_chain_def tip_hole_def demo_ext_def demo_input_def resume_point_def
      read_resume_slot_def stream_rows_def newest_def indexer_new_def empty_db_def)

lemma demo_replay:
  "world_step demo_ext demo_chain (holes, Idle None (indexer_new True (ix_db demo4)))
     (holes, Streaming (Some 12) None ((12, demo_info 2) # drop 2 demo_chain) demo5)"
  using resume [OF demo_eval_4, of demo_chain "[(10, demo_info 1)]" "(12, demo_info 2) # drop 2 demo_chain"]
  by (simp add: demo5_def demo_chain_def)

lemma demo_late:
  "world_step demo_ext demo_chain (holes, Idle None (indexer_new True (ix_db demo4)))
     (holes, Streaming (Some 12) (Some (Skipped 12 2000 (op_count (ix_db demo4)))) [(2000, demo_info 4)] demo5)"
  using late [OF demo_eval_4, of demo_chain "take 3 demo_chain" 2000 "demo_info 4" "[]"]
  by (simp add: demo5_def demo_chain_def indexer_new_def)

definition demo_holes :: "hole list" where
  "demo_holes = [Skipped 12 2000 (op_count (ix_db demo4)), Before_Start 10]"

text \<open>The first life, up to its kill after the flush; then the other two.\<close>

lemma demo_first_life:
  "(world_step demo_ext demo_chain)\<^sup>*\<^sup>* ([], Down empty_db) ([Before_Start 10], Down (ix_db demo4))"
proof -
  let ?W = "world_step demo_ext demo_chain" and ?B = "[Before_Start 10]" and ?rest = "drop 2 demo_chain"
  have tail: "tl demo_chain = (12, demo_info 2) # ?rest"
    by (simp add: demo_chain_def)
  note opened = opened_def option.case
  have s1: "?W ([], Down empty_db) ([], Idle None (indexer_new True empty_db))" by (rule boot)
  note s2 = demo_tip [unfolded tail]
    and s3 = demo_step_deliver [OF demo_eval_1, of "[]" "Some (Before_Start 10)" "(12, demo_info 2) # ?rest", unfolded opened]
    and s4 = demo_step_deliver [OF demo_eval_2, of ?B None ?rest, unfolded opened]
    and s5 = demo_step_flush [OF demo_eval_3, of ?B None ?rest]
  have s6: "?W (?B, Streaming None None ?rest demo4) (?B, Down (ix_db demo4))"
    using kill [of demo_ext demo_chain ?B "Streaming None None ?rest demo4"] by simp
  note step = rtranclp.rtrancl_into_rtrancl [where r = ?W]
  show ?thesis
    by (rule step [OF step [OF step [OF step [OF step [OF step
      [OF rtranclp.rtrancl_refl s1] s2] s3] s4] s5] s6])
qed

lemma demo_run:
  "(world_step demo_ext demo_chain)\<^sup>*\<^sup>* ([], Down empty_db) (demo_holes, Streaming (Some 12) None [] demo8)"
proof -
  let ?W = "world_step demo_ext demo_chain" and ?B = "[Before_Start 10]"
  let ?rest = "drop 2 demo_chain" and ?late = "Skipped 12 2000 (op_count (ix_db demo4))"
  note opened = opened_def option.case demo_holes_def [symmetric]
  have s7: "?W (?B, Down (ix_db demo4)) (?B, Idle None (indexer_new True (ix_db demo4)))" by (rule boot)
  note s8 = demo_replay [of ?B]
    and s9 = demo_step_deliver [OF demo_eval_5, of ?B None ?rest, unfolded opened]
  have s10: "?W (?B, Streaming (Some 12) None ?rest demo6) (?B, Down (ix_db demo4))"
    using kill [of demo_ext demo_chain ?B "Streaming (Some 12) None ?rest demo6"] by (simp add: demo_eval_9)
  note s11 = demo_late [of ?B]
    and s12 = demo_step_deliver [OF demo_eval_6, of ?B "Some ?late" "[]", unfolded opened]
    and s13 = demo_step_flush [OF demo_eval_7, of demo_holes None "[]"]
  note step = rtranclp.rtrancl_into_rtrancl [where r = ?W]
  show ?thesis
    by (rule step [OF step [OF step [OF step [OF step [OF step [OF step [OF step
      [OF demo_first_life s7] s8] s9] s10] s7] s11] s12] s13])
qed

section \<open>Properties\<close>

text \<open>
  C1 Every loss is accounted for, end to end. Start the process on a good database, let it be
  killed and restarted any number of times, let every insert fail, partly land or hang, and let
  the server refuse replays or start them late. In every reachable world each update of the chain
  below the newest checkpoint has all its rows stored, the raw one and, when its kind decodes,
  the decoded one, or its slot lies in a hole; every hole is accounted for: it lies before the
  first checkpoint, it is at most 600 slots wide, its gap insert was rejected, or it is in the gap
  table, a late replay with its exact bounds and a checkpoint that was given up with its slot;
  and every row of the four data tables is a row of some update of the chain. The one assumption
  on ClickHouse is that \<open>FINAL\<close> returns the newest checkpoint row.
\<close>

theorem no_hole_across_restarts:
  assumes "\<And>rows. x_final ext rows = newest rows" and "slot_sorted chain"
    and "(world_step ext chain)\<^sup>*\<^sup>* (start, Down db) (holes, ph)"
    and "good_db ext chain start db" and "\<And>h. h \<in> set start \<Longrightarrow> accounted ext db h"
  shows "(case resume_slot ext (phase_db ph) of
            None \<Rightarrow> True
          | Some c \<Rightarrow> \<forall>u \<in> set chain. fst u < c \<longrightarrow>
              rows_of ext u \<subseteq> rows_in (phase_db ph) \<or> (\<exists>h \<in> set holes. in_hole h (fst u)))
         \<and> (\<forall>h \<in> set holes. accounted ext (phase_db ph) h)
         \<and> rows_in (phase_db ph) \<subseteq> \<Union> (rows_of ext ` set chain)"
  using good_db_reachable [OF assms] told_reachable [OF assms(3)] assms(5)
  by (simp add: good_db_def covered_def kept_def told_world_def split: option.splits)

theorem no_hole_across_restarts_witness:
  "resume_slot demo_ext (ix_db demo8) = Some 2000
   \<and> Raw (row_of demo_ext (10, demo_info 1)) \<in> rows_in (ix_db demo8)
   \<and> gap_of 12 2000 (startup_gap_reason 1988) \<in> set (t_gaps (ix_db demo8))
   \<and> rows_in (ix_db demo8) \<subseteq> \<Union> (rows_of demo_ext ` set demo_chain)"
proof -
  have r: "resume_slot demo_ext (ix_db demo8) = Some 2000"
    by (rule demo_eval_8)
  have "good_db demo_ext demo_chain [] empty_db"
    by (simp add: good_db_def resume_slot_def stream_rows_def empty_db_def demo_ext_def newest_def
        rows_in_def data_rows_def)
  moreover have "slot_sorted demo_chain"
    by (simp add: slot_sorted_def demo_chain_def)
  moreover have "Raw (row_of demo_ext u) \<in> rows_of demo_ext u" for u
    by (simp add: rows_of_def Let_def split_beta)
  moreover have "\<not> rejected demo_ext n" for n
    by (simp add: rejected_def demo_ext_def)
  ultimately show ?thesis
    using no_hole_across_restarts [OF _ _ demo_run] r
    by (simp add: demo_ext_def [THEN arg_cong, of x_final])
      (auto simp: demo_chain_def demo_holes_def)
qed

end
