(* ===== verification/Text.thy ===== *)
theory Text
  imports Prelude
begin

text \<open>
  The text functions of Rust's standard library that the program uses: parsing unsigned
  integers, \<open>rsplit_once\<close>, \<open>trim_end_matches\<close> and \<open>replace\<close>. A \<open>string\<close> is the bytes of the
  UTF-8 text; every character the program searches for is ASCII.
\<close>

section \<open>Digits\<close>

lemma decimal_value_Cons: "decimal_value (c # s) = digit_value c * 10 ^ length s + decimal_value s"
proof -
  have "foldl (\<lambda>a c. 10 * a + digit_value c) k s = k * 10 ^ length s + decimal_value s" for k
  proof (induction s rule: rev_induct)
    case Nil
    then show ?case by simp
  next
    case (snoc x s)
    then show ?case by (simp add: algebra_simps)
  qed
  from this [of "digit_value c"] show ?thesis by (simp add: decimal_value_def)
qed

lemma decimal_value_less: "list_all is_digit s \<Longrightarrow> decimal_value s < 10 ^ length s"
proof (induction s)
  case Nil
  then show ?case by simp
next
  case (Cons c s)
  then have "digit_value c \<le> 9" and "decimal_value s < 10 ^ length s"
    by (auto simp: is_digit_def digit_value_def)
  then have "digit_value c * 10 ^ length s + decimal_value s < 9 * 10 ^ length s + 10 ^ length s"
    by (intro add_le_less_mono mult_right_mono) auto
  then show ?case by (simp add: decimal_value_Cons)
qed

section \<open>Parsing unsigned integers\<close>

text \<open>
  \<open>str::parse\<close> for an unsigned type of \<open>w\<close> bits: an optional plus sign, then at least one digit
  and nothing else, each step with checked arithmetic.
\<close>

fun checked_digits :: "nat \<Rightarrow> nat \<Rightarrow> string \<Rightarrow> nat option" where
  "checked_digits w acc [] = Some acc"
| "checked_digits w acc (c # s) =
     (if is_digit c \<and> 10 * acc + digit_value c < 2 ^ w
      then checked_digits w (10 * acc + digit_value c) s else None)"

definition parse_unsigned :: "nat \<Rightarrow> string \<Rightarrow> nat option" where
  "parse_unsigned w text =
     (case text of
        [] \<Rightarrow> None
      | c # s \<Rightarrow>
          (let digits = (if c = CHR ''+'' \<and> s \<noteq> [] then s else text)
           in checked_digits w 0 digits))"

lemma checked_digits_iff:
  "checked_digits w acc s = Some n \<longleftrightarrow>
     list_all is_digit s \<and> n = acc * 10 ^ length s + decimal_value s \<and> (s = [] \<or> n < 2 ^ w)"
proof (induction s arbitrary: acc)
  case Nil
  then show ?case by auto
next
  case (Cons c s)
  define acc' where "acc' = 10 * acc + digit_value c"
  have val: "acc' * 10 ^ length s + decimal_value s
    = acc * 10 ^ length (c # s) + decimal_value (c # s)"
    by (simp add: acc'_def decimal_value_Cons algebra_simps)
  have "acc' * 1 \<le> acc' * 10 ^ length s" by (intro mult_left_mono) auto
  then have small: "acc' * 10 ^ length s + decimal_value s < 2 ^ w \<Longrightarrow> acc' < 2 ^ w"
    by linarith
  have "checked_digits w acc (c # s) = Some n \<longleftrightarrow>
     is_digit c \<and> acc' < 2 ^ w \<and> checked_digits w acc' s = Some n"
    by (auto simp: acc'_def split: if_splits)
  also have "\<dots> \<longleftrightarrow> is_digit c \<and> list_all is_digit s
     \<and> n = acc' * 10 ^ length s + decimal_value s \<and> n < 2 ^ w"
    unfolding Cons.IH using small by auto
  finally show ?case by (simp add: val)
qed

text \<open>The digits a number's text has after its optional sign.\<close>

definition unsigned_part :: "string \<Rightarrow> string" where
  "unsigned_part text = (case text of c # s \<Rightarrow> (if c = CHR ''+'' \<and> s \<noteq> [] then s else text) | [] \<Rightarrow> [])"

lemma parse_unsigned_iff:
  "parse_unsigned w s = Some n \<longleftrightarrow>
     unsigned_part s \<noteq> [] \<and> list_all is_digit (unsigned_part s)
     \<and> n = decimal_value (unsigned_part s) \<and> n < 2 ^ w"
  by (cases s) (auto simp: parse_unsigned_def unsigned_part_def checked_digits_iff Let_def)

lemma plus_not_digit: "\<not> is_digit (CHR ''+'')"
  by (simp add: is_digit_def)

lemma unsigned_part_decimal [simp]: "unsigned_part (decimal n) = decimal n"
  using decimal_digits [of n] plus_not_digit
  by (cases "decimal n") (auto simp: unsigned_part_def)

lemma parse_unsigned_decimal: "parse_unsigned w (decimal n) = (if n < 2 ^ w then Some n else None)"
  using parse_unsigned_iff [of w "decimal n"] decimal_digits [of n]
  by (cases "parse_unsigned w (decimal n)") auto

section \<open>Splitting and trimming\<close>

text \<open>\<open>str::rsplit_once\<close>: the text before and after the last occurrence of a character.\<close>

definition rsplit_once :: "char \<Rightarrow> string \<Rightarrow> (string \<times> string) option" where
  "rsplit_once c s =
     (if c \<in> set s
      then Some (rev (tl (dropWhile (\<lambda>x. x \<noteq> c) (rev s))), rev (takeWhile (\<lambda>x. x \<noteq> c) (rev s)))
      else None)"

lemma rsplit_once_last:
  "c \<notin> set b \<Longrightarrow> rsplit_once c (a @ c # b) = Some (a, b)"
proof -
  assume c: "c \<notin> set b"
  then have "dropWhile (\<lambda>x. x \<noteq> c) (rev b @ c # rev a) = c # rev a"
    by (subst dropWhile_append2) auto
  moreover from c have "takeWhile (\<lambda>x. x \<noteq> c) (rev b @ c # rev a) = rev b"
    by (subst takeWhile_append2) auto
  ultimately show ?thesis by (simp add: rsplit_once_def)
qed

definition trim_end_matches :: "char \<Rightarrow> string \<Rightarrow> string" where
  "trim_end_matches c s = rev (dropWhile (\<lambda>x. x = c) (rev s))"

section \<open>Replacing\<close>

text \<open>\<open>str::replace\<close> for a non-empty pattern.\<close>

function str_replace :: "string \<Rightarrow> string \<Rightarrow> string \<Rightarrow> string" where
  "str_replace pat rep s =
     (if s = [] \<or> pat = [] then s
      else if take (length pat) s = pat then rep @ str_replace pat rep (drop (length pat) s)
      else hd s # str_replace pat rep (tl s))"
  by pat_completeness auto
termination
  by (relation "measure (\<lambda>(pat, rep, s). length s)") auto

declare str_replace.simps [simp del]

lemma str_replace_skip:
  "c \<notin> set xs \<Longrightarrow> str_replace (c # pat) rep (xs @ ys) = xs @ str_replace (c # pat) rep ys"
  by (induction xs) (auto simp: str_replace.simps [of _ _ "x # zs" for x zs])

lemma str_replace_absent: "c \<notin> set xs \<Longrightarrow> str_replace (c # pat) rep xs = xs"
  using str_replace_skip [of c xs pat rep "[]"] by (simp add: str_replace.simps [of _ _ "[]"])

lemma str_replace_here:
  "str_replace (c # pat) rep ((c # pat) @ ys) = rep @ str_replace (c # pat) rep ys"
  by (subst str_replace.simps) simp

end
