(* ===== verification/Coldpath.thy ===== *)
theory Coldpath
  imports Text Schema "HOL-Library.List_Lexorder" "HOL-Library.Char_ord"
begin

text \<open>
  The layout of the cold copy, \<open>src/coldpath.rs\<close>: partition width and directory names, the
  two Arrow schemas, and the bound of the fixed-point columns. Exporter and query tool share
  it. Object stores list keys in lexical order, so the main lemma here is that directory
  names are ordered as their slots are.
\<close>

section \<open>Constants and schemas\<close>

definition SLOTS_PER_PARTITION :: u64 where [const_defs]:
  "SLOTS_PER_PARTITION = 1000000"

definition PARTITION_COL :: string where
  "PARTITION_COL = ''slot_bucket''"

definition partition_start :: "u64 \<Rightarrow> u64" where
  "partition_start slot = (slot div SLOTS_PER_PARTITION) * SLOTS_PER_PARTITION"

definition partition_dir :: "u64 \<Rightarrow> string" where
  "partition_dir slot = PARTITION_COL @ ''='' @ zero_pad 12 (decimal (unat (partition_start slot)))"

datatype data_type =
    UInt64
  | UInt32
  | UInt8
  | Utf8
  | Binary
  | FixedSizeBinary nat
  | Decimal128 nat nat \<comment> \<open>precision and scale\<close>
  | Timestamp_Millisecond

record field =
  fld_name :: string
  fld_type :: data_type
  fld_nullable :: bool

type_synonym schema = "field list"

definition field_new :: "string \<Rightarrow> data_type \<Rightarrow> bool \<Rightarrow> field" where
  "field_new name type nullable = \<lparr>fld_name = name, fld_type = type, fld_nullable = nullable\<rparr>"

definition SF_DECIMAL_PRECISION :: nat where [const_defs]:
  "SF_DECIMAL_PRECISION = 38"

definition MAX_SF_VALUE :: int where [const_defs]:
  "MAX_SF_VALUE = 99999999999999999999999999999999999999"

definition account_updates_schema :: schema where
  "account_updates_schema =
     [field_new ''slot'' UInt64 False,
      field_new ''write_version'' UInt64 False,
      field_new ''pubkey'' (FixedSizeBinary 32) False,
      field_new ''kind'' Utf8 False,
      field_new ''owner'' (FixedSizeBinary 32) False,
      field_new ''lamports'' UInt64 False,
      field_new ''data'' Binary False,
      field_new ''data_len'' UInt32 False,
      field_new ''ingested_at'' Timestamp_Millisecond False]"

definition sf_field :: "string \<Rightarrow> field" where
  "sf_field name = field_new name (Decimal128 SF_DECIMAL_PRECISION 0) False"

definition obligation_snapshots_schema :: schema where
  "obligation_snapshots_schema =
     [field_new ''slot'' UInt64 False,
      field_new ''write_version'' UInt64 False,
      field_new ''pubkey'' (FixedSizeBinary 32) False,
      field_new ''owner'' (FixedSizeBinary 32) False,
      field_new ''lending_market'' (FixedSizeBinary 32) False,
      field_new ''num_deposits'' UInt8 False,
      field_new ''num_borrows'' UInt8 False,
      field_new ''health_factor_bps'' UInt64 False,
      field_new ''flags'' UInt8 False,
      field_new ''elevation_group'' UInt8 False,
      field_new ''referrer'' (FixedSizeBinary 32) False,
      field_new ''ingested_at'' Timestamp_Millisecond False,
      sf_field ''deposited_value_sf'',
      sf_field ''borrowed_value_sf'',
      sf_field ''borrow_factor_adjusted_debt_sf'',
      sf_field ''allowed_borrow_value_sf'',
      sf_field ''unhealthy_borrow_value_sf'',
      field_new ''lowest_deposit_liquidation_ltv'' UInt64 False]"

lemma MAX_SF_VALUE_bound: "MAX_SF_VALUE = 10 ^ SF_DECIMAL_PRECISION - 1"
  by (simp add: const_defs)

section \<open>Partitions\<close>

lemma unat_partition_start: "unat (partition_start s) = unat s div 1000000 * 1000000"
proof -
  have "unat s < 2 ^ 64"
    using unsigned_less [of s] by simp
  then have "unat s div 1000000 * 1000000 < 2 ^ 64"
    using div_times_less_eq_dividend [of "unat s" 1000000] by (rule le_less_trans [rotated])
  then show ?thesis
    by (simp add: partition_start_def const_defs unat_div unat_word_ariths mod_less del: mult.commute)
qed

lemma partition_start_le: "unat (partition_start s) \<le> unat s"
  by (simp add: unat_partition_start)

lemma partition_start_bucket:
  "partition_start s = partition_start t \<longleftrightarrow> unat s div 1000000 = unat t div 1000000"
  by (simp add: word_unat_eq_iff unat_partition_start)

section \<open>Lexical order\<close>

lemma digit_order:
  "is_digit c \<Longrightarrow> is_digit d \<Longrightarrow> c < d \<longleftrightarrow> digit_value c < digit_value d"
  "is_digit c \<Longrightarrow> is_digit d \<Longrightarrow> c = d \<longleftrightarrow> digit_value c = digit_value d"
proof -
  assume c: "is_digit c" and d: "is_digit d"
  then show "c < d \<longleftrightarrow> digit_value c < digit_value d"
    unfolding less_char_def is_digit_def digit_value_def by linarith
  have "of_char c = (of_char d :: nat) \<longleftrightarrow> c = d" by simp
  with c d show "c = d \<longleftrightarrow> digit_value c = digit_value d"
    unfolding is_digit_def digit_value_def by linarith
qed

lemma leading_digit_less:
  fixes a b m x y :: nat
  assumes "x < m" and "y < m"
  shows "a * m + x < b * m + y \<longleftrightarrow> a < b \<or> a = b \<and> x < y"
proof -
  have step: "a * m + x < b * m + y" if "a < b" "x < m" for a b x y :: nat
  proof -
    have "a * m + x < Suc a * m" using that by simp
    also have "\<dots> \<le> b * m" using that by (intro mult_right_mono) auto
    finally show ?thesis by simp
  qed
  show ?thesis
    using step [of a b x y] step [of b a y x] assms by (cases a b rule: linorder_cases) auto
qed

text \<open>Digit strings of one length are ordered as the numbers they write.\<close>

lemma digits_lexical:
  "list_all is_digit s \<Longrightarrow> list_all is_digit t \<Longrightarrow> length s = length t \<Longrightarrow>
     s < t \<longleftrightarrow> decimal_value s < decimal_value t"
proof (induction s arbitrary: t)
  case Nil
  then show ?case by simp
next
  case (Cons c s)
  then obtain d t' where t: "t = d # t'" by (cases t) auto
  with Cons.prems have c: "is_digit c" and d: "is_digit d" and s: "list_all is_digit s"
    and t': "list_all is_digit t'" and len: "length s = length t'" by auto
  have IH: "s < t' \<longleftrightarrow> decimal_value s < decimal_value t'"
    using Cons.IH s t' len by simp
  have "decimal_value s < 10 ^ length s" and "decimal_value t' < 10 ^ length s"
    using decimal_value_less [OF s] decimal_value_less [OF t'] len by simp_all
  then have lex: "a * 10 ^ length s + decimal_value s < b * 10 ^ length s + decimal_value t'
      \<longleftrightarrow> a < b \<or> a = b \<and> decimal_value s < decimal_value t'" for a b :: nat
    by (rule leading_digit_less)
  show ?case
    using lex [of "digit_value c" "digit_value d"] IH len c d
    by (simp add: t decimal_value_Cons digit_order)
qed

lemma common_prefix_less: "p @ s < p @ t \<longleftrightarrow> s < t" for s t :: "'a::linorder list"
  by (induction p) auto

lemma decimal_length_12: "n < 10 ^ 12 \<Longrightarrow> length (decimal n) \<le> 12"
  by (rule length_decimal_le) auto

lemma zero_pad_less:
  assumes "a < 10 ^ 12" and "b < 10 ^ 12"
  shows "zero_pad 12 (decimal a) < zero_pad 12 (decimal b) \<longleftrightarrow> a < b"
  using decimal_length_12 [OF assms(1)] decimal_length_12 [OF assms(2)]
  by (subst digits_lexical) (simp_all add: zero_pad_digits length_zero_pad)

lemma partition_dir_less_iff:
  assumes "unat s < 10 ^ 12" and "unat t < 10 ^ 12"
  shows "partition_dir s < partition_dir t \<longleftrightarrow> unat s div 1000000 < unat t div 1000000"
proof -
  have "unat (partition_start s) < 10 ^ 12" and "unat (partition_start t) < 10 ^ 12"
    using partition_start_le [of s] partition_start_le [of t] assms by simp_all
  then show ?thesis
    by (simp add: partition_dir_def common_prefix_less zero_pad_less unat_partition_start)
qed

lemma partition_dir_eq_iff: "partition_dir s = partition_dir t \<longleftrightarrow> partition_start s = partition_start t"
proof
  assume "partition_dir s = partition_dir t"
  then have "decimal_value (zero_pad 12 (decimal (unat (partition_start s))))
    = decimal_value (zero_pad 12 (decimal (unat (partition_start t))))"
    by (simp add: partition_dir_def)
  then show "partition_start s = partition_start t" by (simp add: word_unat_eq_iff)
qed (simp add: partition_dir_def)

section \<open>Properties\<close>

text \<open>
  For slots below \<open>10^12\<close> the lexical order of the partition directories is the numeric order
  of their partitions, so an object-store listing walks them in slot order; two slots share a
  directory exactly when they share a bucket of a million slots, for all 64-bit slots.
\<close>

lemma partition_dir_order:
  assumes "unat s < 10 ^ 12" and "unat t < 10 ^ 12"
  shows "(partition_dir s < partition_dir t \<longleftrightarrow> unat s div 1000000 < unat t div 1000000)
    \<and> (partition_dir s = partition_dir t \<longleftrightarrow> unat s div 1000000 = unat t div 1000000)"
  using assms by (simp add: partition_dir_less_iff partition_dir_eq_iff partition_start_bucket)

text \<open>Beyond that bound the padding no longer aligns the digits: the bound is needed.\<close>

lemma partition_dir_order_fails_beyond:
  "partition_dir 1000000000000 < partition_dir 999999000000"
proof -
  have "decimal 1000000000000 = ''1000000000000''" and "decimal 999999000000 = ''999999000000''"
    by (simp_all add: decimal_small decimal_large digit_char_def char_of_def bit_0)
  then show ?thesis
    by (simp add: partition_dir_def common_prefix_less zero_pad_def partition_start_def const_defs
        less_char_def)
qed

end
