(* ===== verification/Export_Rows.thy ===== *)
theory Export_Rows
  imports Coldpath
begin

text \<open>
  The row level of \<open>src/bin/parquet_export.rs\<close>: the two strict decoders of the text columns,
  the row structs, and the two column builders with their \<open>push\<close> and \<open>finish\<close>. Text is its
  UTF-8 bytes (\<open>string\<close>). An Arrow array is the list of its values with its type; assembling
  a \<open>RecordBatch\<close> belongs to the Arrow crate and is the parameter \<open>try_new\<close> of \<open>finish\<close>.
\<close>

section \<open>Errors\<close>

datatype export_error =
    Hex_Length string u64 nat \<comment> \<open>column, slot, characters found\<close>
  | Non_Hex_Digit string u64
  | Not_A_U128 string u64 string
  | Exceeds_Decimal string u64 string
  | Append_Width string
  | Assemble string
  | Query_Failed u64 u64 \<comment> \<open>slot range\<close>
  | Deserialize string
  | Io_Failed string \<comment> \<open>operation\<close>
  | Bounds_Failed string
  | Missing_Env string
  | Connect_Failed string

section \<open>The decoders\<close>

text \<open>\<open>char::to_digit(16)\<close>\<close>

definition to_digit_16 :: "char \<Rightarrow> nat option" where
  "to_digit_16 c =
     (let n = of_char c in
      if 48 \<le> n \<and> n \<le> 57 then Some (n - 48)
      else if 97 \<le> n \<and> n \<le> 102 then Some (n - 87)
      else if 65 \<le> n \<and> n \<le> 70 then Some (n - 55)
      else None)"

text \<open>The loop over \<open>chunks_exact(2)\<close>; \<open>out[i]\<close> is filled from the front.\<close>

fun decode_pairs :: "string \<Rightarrow> u64 \<Rightarrow> string \<Rightarrow> export_error + bytes" where
  "decode_pairs what slot (h # l # rest) =
     (case to_digit_16 h of
        None \<Rightarrow> Inl (Non_Hex_Digit what slot)
      | Some hi \<Rightarrow>
          (case to_digit_16 l of
             None \<Rightarrow> Inl (Non_Hex_Digit what slot)
           | Some lo \<Rightarrow>
               (case decode_pairs what slot rest of
                  Inl e \<Rightarrow> Inl e
                | Inr out \<Rightarrow> Inr (of_nat (hi * 16 + lo) # out))))"
| "decode_pairs what slot _ = Inr []"

definition decode_pubkey_hex :: "string \<Rightarrow> string \<Rightarrow> u64 \<Rightarrow> export_error + bytes" where
  "decode_pubkey_hex hex what slot =
     (if length hex \<noteq> 64 then Inl (Hex_Length what slot (length hex))
      else decode_pairs what slot hex)"

definition parse_sf :: "string \<Rightarrow> string \<Rightarrow> u64 \<Rightarrow> export_error + int" where
  "parse_sf text what slot =
     (case parse_unsigned 128 text of
        None \<Rightarrow> Inl (Not_A_U128 what slot text)
      | Some v \<Rightarrow>
          let v = (if v < 2 ^ 127 then int v else 2 ^ 127 - 1)
          in if MAX_SF_VALUE < v then Inl (Exceeds_Decimal what slot text) else Inr v)"

section \<open>What the decoders accept\<close>

lemma parse_sf_of_u128:
  "parse_sf text what slot =
     (case parse_unsigned 128 text of
        None \<Rightarrow> Inl (Not_A_U128 what slot text)
      | Some v \<Rightarrow> if v < 10 ^ 38 then Inr (int v) else Inl (Exceeds_Decimal what slot text))"
  by (auto simp: parse_sf_def const_defs Let_def split: option.splits)

lemma to_digit_16_bound: "to_digit_16 c = Some d \<Longrightarrow> d < 16"
  by (auto simp: to_digit_16_def Let_def split: if_splits)

lemma to_digit_16_hex_char: "d < 16 \<Longrightarrow> to_digit_16 (hex_char d) = Some d"
  by (simp add: to_digit_16_def of_char_hex_char Let_def)

lemma decode_pairs_length:
  "decode_pairs what slot s = Inr out \<Longrightarrow> length out = length s div 2"
  by (induction what slot s arbitrary: out rule: decode_pairs.induct)
    (auto split: option.splits sum.splits)

lemma decode_pubkey_hex_length: "decode_pubkey_hex hex what slot = Inr out \<Longrightarrow> length out = 32"
  by (auto simp: decode_pubkey_hex_def dest: decode_pairs_length split: if_splits)

text \<open>The texts that write a byte string: each byte as two hexadecimal digits of either case.\<close>

definition writes_hex :: "string \<Rightarrow> bytes \<Rightarrow> bool" where
  "writes_hex s bs \<longleftrightarrow>
     map to_digit_16 s = concat (map (\<lambda>b. [Some (unat b div 16), Some (unat b mod 16)]) bs)"

lemma unat_u8_split: "(of_nat (hi * 16 + lo) :: u8) = b \<longleftrightarrow> hi = unat b div 16 \<and> lo = unat b mod 16"
  if "hi < 16" "lo < 16" for b :: u8
proof -
  have "hi * 16 + lo < 256" and "(hi * 16 + lo) div 16 = hi" and "(hi * 16 + lo) mod 16 = lo"
    using that by simp_all
  moreover from this have "unat (of_nat (hi * 16 + lo) :: u8) = hi * 16 + lo"
    by (simp add: unat_of_nat take_bit_eq_mod del: of_nat_add of_nat_mult)
  ultimately show ?thesis
    by (metis div_mult_mod_eq word_unat_eq_iff)
qed

lemma decode_pairs_iff:
  "even (length s) \<Longrightarrow> decode_pairs what slot s = Inr bs \<longleftrightarrow> writes_hex s bs"
proof (induction what slot s arbitrary: bs rule: decode_pairs.induct)
  case (1 what slot h l rest)
  show ?case
  proof (cases "to_digit_16 h")
    case None
    then show ?thesis by (cases bs) (auto simp: writes_hex_def)
  next
    case hi: (Some hi)
    show ?thesis
    proof (cases "to_digit_16 l")
      case None
      with hi show ?thesis by (cases bs) (auto simp: writes_hex_def)
    next
      case lo: (Some lo)
      have IH: "decode_pairs what slot rest = Inr bs' \<longleftrightarrow> writes_hex rest bs'" for bs'
        using 1 hi lo by simp
      show ?thesis
        using hi lo to_digit_16_bound [OF hi] to_digit_16_bound [OF lo] IH
        by (cases bs; cases "decode_pairs what slot rest")
          (auto simp: writes_hex_def unat_u8_split simp del: of_nat_add of_nat_mult)
    qed
  qed
qed (auto simp: writes_hex_def)

lemma writes_hex_bytes: "writes_hex (concat (map hex_byte bs)) bs"
proof (induction bs)
  case Nil
  then show ?case by (simp add: writes_hex_def)
next
  case (Cons b bs)
  have "unat b < 256" using unsigned_less [of b] by simp
  then show ?case
    using Cons by (simp add: writes_hex_def hex_byte_def to_digit_16_hex_char less_mult_imp_div_less)
qed

lemma writes_hex_length: "writes_hex s bs \<Longrightarrow> length s = 2 * length bs"
  unfolding writes_hex_def by (drule arg_cong [where f = length]) (simp add: length_concat_map_const [where w = 2])

lemma decode_pubkey_hex_iff:
  "decode_pubkey_hex hex what slot = Inr bs \<longleftrightarrow> length bs = 32 \<and> writes_hex hex bs"
  using decode_pairs_iff [of hex what slot bs] writes_hex_length [of hex bs]
    decode_pubkey_hex_length [of hex what slot bs]
  by (auto simp: decode_pubkey_hex_def)

section \<open>Arrow arrays and batches\<close>

datatype column =
    Col_U64 "u64 list"
  | Col_U32 "u32 list"
  | Col_U8 "u8 list"
  | Col_Utf8 "string list"
  | Col_Binary "bytes list"
  | Col_Fixed nat "bytes list"
  | Col_Decimal nat nat "int list"
  | Col_Millis "i64 list"

fun column_type :: "column \<Rightarrow> data_type" where
  "column_type (Col_U64 xs) = UInt64"
| "column_type (Col_U32 xs) = UInt32"
| "column_type (Col_U8 xs) = UInt8"
| "column_type (Col_Utf8 xs) = Utf8"
| "column_type (Col_Binary xs) = Binary"
| "column_type (Col_Fixed n xs) = FixedSizeBinary n"
| "column_type (Col_Decimal p k xs) = Decimal128 p k"
| "column_type (Col_Millis xs) = Timestamp_Millisecond"

fun column_length :: "column \<Rightarrow> nat" where
  "column_length (Col_U64 xs) = length xs"
| "column_length (Col_U32 xs) = length xs"
| "column_length (Col_U8 xs) = length xs"
| "column_length (Col_Utf8 xs) = length xs"
| "column_length (Col_Binary xs) = length xs"
| "column_length (Col_Fixed n xs) = length xs"
| "column_length (Col_Decimal p k xs) = length xs"
| "column_length (Col_Millis xs) = length xs"

text \<open>The values a column may hold: fixed widths, and integers its precision can write.\<close>

fun column_fits :: "column \<Rightarrow> bool" where
  "column_fits (Col_Fixed n xs) = list_all (\<lambda>x. length x = n) xs"
| "column_fits (Col_Decimal p k xs) = list_all (\<lambda>x. 0 \<le> x \<and> x < 10 ^ p) xs"
| "column_fits c = True"

record record_batch =
  rb_schema :: schema
  rb_columns :: "column list"

text \<open>\<open>num_rows\<close>: every column of a batch has that length.\<close>

definition num_rows :: "record_batch \<Rightarrow> nat" where
  "num_rows b = (case rb_columns b of [] \<Rightarrow> 0 | c # cs \<Rightarrow> column_length c)"

text \<open>What a batch of \<open>n\<close> rows has to be for its schema.\<close>

definition well_typed :: "nat \<Rightarrow> schema \<Rightarrow> column list \<Rightarrow> bool" where
  "well_typed n sch cols \<longleftrightarrow>
     map column_type cols = map fld_type sch
     \<and> list_all (\<lambda>c. column_length c = n \<and> column_fits c) cols"

text \<open>
  \<open>RecordBatch::try_new\<close>, given which schema and columns it accepts. It is documented to check the types of the
  columns against the fields and their lengths against each other; that it takes what passes that check
  is \<open>takes_well_typed\<close>, the one thing the exporter relies on, and \<open>type_check\<close> is a function that does so.
\<close>

type_synonym try_new = "schema \<Rightarrow> column list \<Rightarrow> bool"

definition assemble :: "try_new \<Rightarrow> string \<Rightarrow> schema \<Rightarrow> column list \<Rightarrow> export_error + record_batch" where
  "assemble accepts msg sch cols =
     (if accepts sch cols then Inr \<lparr>rb_schema = sch, rb_columns = cols\<rparr> else Inl (Assemble msg))"

definition takes_well_typed :: "try_new \<Rightarrow> bool" where
  "takes_well_typed accepts \<longleftrightarrow> (\<forall>n sch cols. well_typed n sch cols \<longrightarrow> accepts sch cols)"

definition type_check :: try_new where
  "type_check sch cols \<longleftrightarrow>
     map column_type cols = map fld_type sch
     \<and> (case map column_length cols of [] \<Rightarrow> True | n # ns \<Rightarrow> list_all (\<lambda>m. m = n) ns)"

lemma takes_well_typedD: "takes_well_typed accepts \<Longrightarrow> well_typed n sch cols \<Longrightarrow> accepts sch cols"
  by (auto simp: takes_well_typed_def)

lemma type_check_takes: "takes_well_typed type_check"
  by (auto simp: takes_well_typed_def type_check_def well_typed_def list_all_iff split: list.split)

text \<open>\<open>FixedSizeBinaryBuilder::append_value\<close> fails on another width.\<close>

definition append_fixed :: "nat \<Rightarrow> string \<Rightarrow> bytes \<Rightarrow> bytes list \<Rightarrow> export_error + bytes list" where
  "append_fixed n what v xs = (if length v = n then Inr (xs @ [v]) else Inl (Append_Width what))"

section \<open>\<open>account_updates\<close>\<close>

record export_row =
  er_slot :: u64
  er_write_version :: u64
  er_pubkey_hex :: string
  er_kind :: string
  er_owner_hex :: string
  er_lamports :: u64
  er_data :: bytes
  er_data_len :: u32
  er_ingested_at_ms :: i64

record batch_builder =
  bb_slot :: "u64 list"
  bb_write_version :: "u64 list"
  bb_pubkey :: "bytes list"
  bb_kind :: "string list"
  bb_owner :: "bytes list"
  bb_lamports :: "u64 list"
  bb_data :: "bytes list"
  bb_data_len :: "u32 list"
  bb_ingested_at :: "i64 list"
  bb_rows :: nat

definition batch_builder_new :: batch_builder where
  "batch_builder_new =
     \<lparr>bb_slot = [], bb_write_version = [], bb_pubkey = [], bb_kind = [], bb_owner = [],
      bb_lamports = [], bb_data = [], bb_data_len = [], bb_ingested_at = [], bb_rows = 0\<rparr>"

definition batch_push :: "export_row \<Rightarrow> batch_builder \<Rightarrow> batch_builder \<times> (export_error + unit)" where
  "batch_push row b =
     (case decode_pubkey_hex (er_pubkey_hex row) ''pubkey'' (er_slot row) of
        Inl e \<Rightarrow> (b, Inl e)
      | Inr pubkey \<Rightarrow>
     (case decode_pubkey_hex (er_owner_hex row) ''owner'' (er_slot row) of
        Inl e \<Rightarrow> (b, Inl e)
      | Inr owner \<Rightarrow>
     (case append_fixed 32 ''append pubkey'' pubkey (bb_pubkey b) of
        Inl e \<Rightarrow> (b, Inl e)
      | Inr pubkeys \<Rightarrow>
          let b = b\<lparr>bb_pubkey := pubkeys\<rparr> in
     (case append_fixed 32 ''append owner'' owner (bb_owner b) of
        Inl e \<Rightarrow> (b, Inl e)
      | Inr owners \<Rightarrow>
          (b\<lparr>bb_owner := owners,
             bb_slot := bb_slot b @ [er_slot row],
             bb_write_version := bb_write_version b @ [er_write_version row],
             bb_kind := bb_kind b @ [er_kind row],
             bb_lamports := bb_lamports b @ [er_lamports row],
             bb_data := bb_data b @ [er_data row],
             bb_data_len := bb_data_len b @ [er_data_len row],
             bb_ingested_at := bb_ingested_at b @ [er_ingested_at_ms row],
             bb_rows := bb_rows b + 1\<rparr>, Inr ())))))"

definition batch_finish :: "try_new \<Rightarrow> batch_builder \<Rightarrow> batch_builder \<times> (export_error + record_batch)" where
  "batch_finish accepts b =
     (batch_builder_new,
      assemble accepts ''assemble RecordBatch (schema/column mismatch)'' account_updates_schema
        [Col_U64 (bb_slot b), Col_U64 (bb_write_version b), Col_Fixed 32 (bb_pubkey b),
         Col_Utf8 (bb_kind b), Col_Fixed 32 (bb_owner b), Col_U64 (bb_lamports b),
         Col_Binary (bb_data b), Col_U32 (bb_data_len b), Col_Millis (bb_ingested_at b)])"

text \<open>A row of the cold copy, and the one an exported row stands for.\<close>

record cold_update =
  cu_slot :: u64
  cu_write_version :: u64
  cu_pubkey :: bytes
  cu_kind :: string
  cu_owner :: bytes
  cu_lamports :: u64
  cu_data :: bytes
  cu_data_len :: u32
  cu_ingested_at :: i64

definition cold_update_of :: "export_row \<Rightarrow> export_error + cold_update" where
  "cold_update_of row =
     (case decode_pubkey_hex (er_pubkey_hex row) ''pubkey'' (er_slot row) of
        Inl e \<Rightarrow> Inl e
      | Inr pubkey \<Rightarrow>
          (case decode_pubkey_hex (er_owner_hex row) ''owner'' (er_slot row) of
             Inl e \<Rightarrow> Inl e
           | Inr owner \<Rightarrow>
               Inr \<lparr>cu_slot = er_slot row, cu_write_version = er_write_version row,
                    cu_pubkey = pubkey, cu_kind = er_kind row, cu_owner = owner,
                    cu_lamports = er_lamports row, cu_data = er_data row,
                    cu_data_len = er_data_len row, cu_ingested_at = er_ingested_at_ms row\<rparr>))"

definition update_columns :: "cold_update list \<Rightarrow> column list" where
  "update_columns rows =
     [Col_U64 (map cu_slot rows), Col_U64 (map cu_write_version rows), Col_Fixed 32 (map cu_pubkey rows),
      Col_Utf8 (map cu_kind rows), Col_Fixed 32 (map cu_owner rows), Col_U64 (map cu_lamports rows),
      Col_Binary (map cu_data rows), Col_U32 (map cu_data_len rows), Col_Millis (map cu_ingested_at rows)]"

text \<open>The builder that holds the given rows.\<close>

definition update_builder :: "cold_update list \<Rightarrow> batch_builder" where
  "update_builder rows =
     \<lparr>bb_slot = map cu_slot rows, bb_write_version = map cu_write_version rows,
      bb_pubkey = map cu_pubkey rows, bb_kind = map cu_kind rows, bb_owner = map cu_owner rows,
      bb_lamports = map cu_lamports rows, bb_data = map cu_data rows,
      bb_data_len = map cu_data_len rows, bb_ingested_at = map cu_ingested_at rows,
      bb_rows = length rows\<rparr>"

definition update_ok :: "cold_update \<Rightarrow> bool" where
  "update_ok r \<longleftrightarrow> length (cu_pubkey r) = 32 \<and> length (cu_owner r) = 32"

lemma batch_push_update_builder:
  "batch_push row (update_builder rows) =
     (case cold_update_of row of
        Inl e \<Rightarrow> (update_builder rows, Inl e)
      | Inr r \<Rightarrow> (update_builder (rows @ [r]), Inr ()))"
  by (auto simp: batch_push_def cold_update_of_def update_builder_def append_fixed_def Let_def
      dest: decode_pubkey_hex_length split: sum.splits)

lemma cold_update_of_ok: "cold_update_of row = Inr r \<Longrightarrow> update_ok r"
  by (auto simp: cold_update_of_def update_ok_def dest: decode_pubkey_hex_length split: sum.splits)

lemma batch_finish_update_builder:
  "batch_finish accepts (update_builder rows) =
     (update_builder [],
      assemble accepts ''assemble RecordBatch (schema/column mismatch)'' account_updates_schema
        (update_columns rows))"
  by (simp add: batch_finish_def update_builder_def update_columns_def batch_builder_new_def)

lemma update_columns_typed:
  "list_all update_ok rows \<Longrightarrow> well_typed (length rows) account_updates_schema (update_columns rows)"
  by (auto simp: well_typed_def update_columns_def account_updates_schema_def field_new_def
      update_ok_def list_all_iff)

section \<open>\<open>obligation_snapshots\<close>\<close>

record snapshot_row =
  xs_slot :: u64
  xs_write_version :: u64
  xs_pubkey_hex :: string
  xs_owner_hex :: string
  xs_lending_market_hex :: string
  xs_num_deposits :: u8
  xs_num_borrows :: u8
  xs_health_factor_bps :: u64
  xs_flags :: u8
  xs_elevation_group :: u8
  xs_referrer_hex :: string
  xs_ingested_at_ms :: i64
  xs_deposited_value_sf :: string
  xs_borrowed_value_sf :: string
  xs_borrow_factor_adjusted_debt_sf :: string
  xs_allowed_borrow_value_sf :: string
  xs_unhealthy_borrow_value_sf :: string
  xs_lowest_deposit_liquidation_ltv :: u64

record snapshot_builder =
  sb_slot :: "u64 list"
  sb_write_version :: "u64 list"
  sb_pubkey :: "bytes list"
  sb_owner :: "bytes list"
  sb_lending_market :: "bytes list"
  sb_num_deposits :: "u8 list"
  sb_num_borrows :: "u8 list"
  sb_health_factor_bps :: "u64 list"
  sb_flags :: "u8 list"
  sb_elevation_group :: "u8 list"
  sb_referrer :: "bytes list"
  sb_ingested_at :: "i64 list"
  sb_deposited_value_sf :: "int list"
  sb_borrowed_value_sf :: "int list"
  sb_borrow_factor_adjusted_debt_sf :: "int list"
  sb_allowed_borrow_value_sf :: "int list"
  sb_unhealthy_borrow_value_sf :: "int list"
  sb_lowest_deposit_liquidation_ltv :: "u64 list"
  sb_rows :: nat

definition snapshot_builder_new :: snapshot_builder where
  "snapshot_builder_new =
     \<lparr>sb_slot = [], sb_write_version = [], sb_pubkey = [], sb_owner = [],
      sb_lending_market = [], sb_num_deposits = [], sb_num_borrows = [], sb_health_factor_bps = [],
      sb_flags = [], sb_elevation_group = [], sb_referrer = [], sb_ingested_at = [],
      sb_deposited_value_sf = [], sb_borrowed_value_sf = [], sb_borrow_factor_adjusted_debt_sf = [], sb_allowed_borrow_value_sf = [],
      sb_unhealthy_borrow_value_sf = [], sb_lowest_deposit_liquidation_ltv = [], sb_rows = 0\<rparr>"

text \<open>\<open>?\<close> between the steps of a push; the columns already appended stay appended.\<close>

definition then_push ::
  "'b \<times> (export_error + unit) \<Rightarrow> ('b \<Rightarrow> 'b \<times> (export_error + unit)) \<Rightarrow> 'b \<times> (export_error + unit)" where
  "then_push r k = (case r of (b, Inl e) \<Rightarrow> (b, Inl e) | (b, Inr _) \<Rightarrow> k b)"

definition push_key ::
  "('b \<Rightarrow> bytes list) \<Rightarrow> ((bytes list \<Rightarrow> bytes list) \<Rightarrow> 'b \<Rightarrow> 'b) \<Rightarrow> string \<Rightarrow> string \<Rightarrow> u64 \<Rightarrow> 'b
     \<Rightarrow> 'b \<times> (export_error + unit)" where
  "push_key get upd hex what slot b =
     (case decode_pubkey_hex hex what slot of
        Inl e \<Rightarrow> (b, Inl e)
      | Inr key \<Rightarrow>
          (case append_fixed 32 (''append '' @ what) key (get b) of
             Inl e \<Rightarrow> (b, Inl e)
           | Inr keys \<Rightarrow> (upd (\<lambda>_. keys) b, Inr ())))"

definition push_sf ::
  "((int list \<Rightarrow> int list) \<Rightarrow> 'b \<Rightarrow> 'b) \<Rightarrow> string \<Rightarrow> string \<Rightarrow> u64 \<Rightarrow> 'b \<Rightarrow> 'b \<times> (export_error + unit)" where
  "push_sf upd sf what slot b =
     (case parse_sf sf what slot of
        Inl e \<Rightarrow> (b, Inl e)
      | Inr v \<Rightarrow> (upd (\<lambda>xs. xs @ [v]) b, Inr ()))"

definition snapshot_push :: "snapshot_row \<Rightarrow> snapshot_builder \<Rightarrow> snapshot_builder \<times> (export_error + unit)" where
  "snapshot_push row b =
     (let slot = xs_slot row in
      then_push (push_key sb_pubkey sb_pubkey_update (xs_pubkey_hex row) ''pubkey'' slot b) (\<lambda>b.
      then_push (push_key sb_owner sb_owner_update (xs_owner_hex row) ''owner'' slot b) (\<lambda>b.
      then_push (push_key sb_lending_market sb_lending_market_update (xs_lending_market_hex row) ''lending_market'' slot b) (\<lambda>b.
      then_push (push_key sb_referrer sb_referrer_update (xs_referrer_hex row) ''referrer'' slot b) (\<lambda>b.
      then_push (push_sf sb_deposited_value_sf_update (xs_deposited_value_sf row) ''deposited_value_sf'' slot b) (\<lambda>b.
      then_push (push_sf sb_borrowed_value_sf_update (xs_borrowed_value_sf row) ''borrowed_value_sf'' slot b) (\<lambda>b.
      then_push (push_sf sb_borrow_factor_adjusted_debt_sf_update (xs_borrow_factor_adjusted_debt_sf row) ''borrow_factor_adjusted_debt_sf'' slot b) (\<lambda>b.
      then_push (push_sf sb_allowed_borrow_value_sf_update (xs_allowed_borrow_value_sf row) ''allowed_borrow_value_sf'' slot b) (\<lambda>b.
      then_push (push_sf sb_unhealthy_borrow_value_sf_update (xs_unhealthy_borrow_value_sf row) ''unhealthy_borrow_value_sf'' slot b) (\<lambda>b.
      (b\<lparr>sb_slot := sb_slot b @ [slot],
         sb_write_version := sb_write_version b @ [xs_write_version row],
         sb_num_deposits := sb_num_deposits b @ [xs_num_deposits row],
         sb_num_borrows := sb_num_borrows b @ [xs_num_borrows row],
         sb_health_factor_bps := sb_health_factor_bps b @ [xs_health_factor_bps row],
         sb_flags := sb_flags b @ [xs_flags row],
         sb_elevation_group := sb_elevation_group b @ [xs_elevation_group row],
         sb_ingested_at := sb_ingested_at b @ [xs_ingested_at_ms row],
         sb_lowest_deposit_liquidation_ltv := sb_lowest_deposit_liquidation_ltv b @ [xs_lowest_deposit_liquidation_ltv row],
         sb_rows := sb_rows b + 1\<rparr>, Inr ())))))))))))"

definition snapshot_finish :: "try_new \<Rightarrow> snapshot_builder \<Rightarrow> snapshot_builder \<times> (export_error + record_batch)" where
  "snapshot_finish accepts b =
     (snapshot_builder_new,
      assemble accepts ''assemble snapshot RecordBatch (schema/column mismatch)''
        obligation_snapshots_schema
        [Col_U64 (sb_slot b),
         Col_U64 (sb_write_version b),
         Col_Fixed 32 (sb_pubkey b),
         Col_Fixed 32 (sb_owner b),
         Col_Fixed 32 (sb_lending_market b),
         Col_U8 (sb_num_deposits b),
         Col_U8 (sb_num_borrows b),
         Col_U64 (sb_health_factor_bps b),
         Col_U8 (sb_flags b),
         Col_U8 (sb_elevation_group b),
         Col_Fixed 32 (sb_referrer b),
         Col_Millis (sb_ingested_at b),
         Col_Decimal SF_DECIMAL_PRECISION 0 (sb_deposited_value_sf b),
         Col_Decimal SF_DECIMAL_PRECISION 0 (sb_borrowed_value_sf b),
         Col_Decimal SF_DECIMAL_PRECISION 0 (sb_borrow_factor_adjusted_debt_sf b),
         Col_Decimal SF_DECIMAL_PRECISION 0 (sb_allowed_borrow_value_sf b),
         Col_Decimal SF_DECIMAL_PRECISION 0 (sb_unhealthy_borrow_value_sf b),
         Col_U64 (sb_lowest_deposit_liquidation_ltv b)])"

record cold_snapshot =
  cs_slot :: u64
  cs_write_version :: u64
  cs_pubkey :: bytes
  cs_owner :: bytes
  cs_lending_market :: bytes
  cs_num_deposits :: u8
  cs_num_borrows :: u8
  cs_health_factor_bps :: u64
  cs_flags :: u8
  cs_elevation_group :: u8
  cs_referrer :: bytes
  cs_ingested_at :: i64
  cs_deposited_value_sf :: int
  cs_borrowed_value_sf :: int
  cs_borrow_factor_adjusted_debt_sf :: int
  cs_allowed_borrow_value_sf :: int
  cs_unhealthy_borrow_value_sf :: int
  cs_lowest_deposit_liquidation_ltv :: u64

definition cold_snapshot_of :: "snapshot_row \<Rightarrow> export_error + cold_snapshot" where
  "cold_snapshot_of row =
     (let slot = xs_slot row in
      (case decode_pubkey_hex (xs_pubkey_hex row) ''pubkey'' slot of Inl e \<Rightarrow> Inl e | Inr k_pubkey \<Rightarrow>
      (case decode_pubkey_hex (xs_owner_hex row) ''owner'' slot of Inl e \<Rightarrow> Inl e | Inr k_owner \<Rightarrow>
      (case decode_pubkey_hex (xs_lending_market_hex row) ''lending_market'' slot of Inl e \<Rightarrow> Inl e | Inr k_lending_market \<Rightarrow>
      (case decode_pubkey_hex (xs_referrer_hex row) ''referrer'' slot of Inl e \<Rightarrow> Inl e | Inr k_referrer \<Rightarrow>
      (case parse_sf (xs_deposited_value_sf row) ''deposited_value_sf'' slot of Inl e \<Rightarrow> Inl e | Inr v_deposited_value_sf \<Rightarrow>
      (case parse_sf (xs_borrowed_value_sf row) ''borrowed_value_sf'' slot of Inl e \<Rightarrow> Inl e | Inr v_borrowed_value_sf \<Rightarrow>
      (case parse_sf (xs_borrow_factor_adjusted_debt_sf row) ''borrow_factor_adjusted_debt_sf'' slot of Inl e \<Rightarrow> Inl e | Inr v_borrow_factor_adjusted_debt_sf \<Rightarrow>
      (case parse_sf (xs_allowed_borrow_value_sf row) ''allowed_borrow_value_sf'' slot of Inl e \<Rightarrow> Inl e | Inr v_allowed_borrow_value_sf \<Rightarrow>
      (case parse_sf (xs_unhealthy_borrow_value_sf row) ''unhealthy_borrow_value_sf'' slot of Inl e \<Rightarrow> Inl e | Inr v_unhealthy_borrow_value_sf \<Rightarrow>
        Inr \<lparr>cs_slot = slot,
             cs_write_version = xs_write_version row,
             cs_pubkey = k_pubkey,
             cs_owner = k_owner,
             cs_lending_market = k_lending_market,
             cs_num_deposits = xs_num_deposits row,
             cs_num_borrows = xs_num_borrows row,
             cs_health_factor_bps = xs_health_factor_bps row,
             cs_flags = xs_flags row,
             cs_elevation_group = xs_elevation_group row,
             cs_referrer = k_referrer,
             cs_ingested_at = xs_ingested_at_ms row,
             cs_deposited_value_sf = v_deposited_value_sf,
             cs_borrowed_value_sf = v_borrowed_value_sf,
             cs_borrow_factor_adjusted_debt_sf = v_borrow_factor_adjusted_debt_sf,
             cs_allowed_borrow_value_sf = v_allowed_borrow_value_sf,
             cs_unhealthy_borrow_value_sf = v_unhealthy_borrow_value_sf,
             cs_lowest_deposit_liquidation_ltv = xs_lowest_deposit_liquidation_ltv row\<rparr>))))))))))"

definition snapshot_columns :: "cold_snapshot list \<Rightarrow> column list" where
  "snapshot_columns rows =
     [Col_U64 (map cs_slot rows),
      Col_U64 (map cs_write_version rows),
      Col_Fixed 32 (map cs_pubkey rows),
      Col_Fixed 32 (map cs_owner rows),
      Col_Fixed 32 (map cs_lending_market rows),
      Col_U8 (map cs_num_deposits rows),
      Col_U8 (map cs_num_borrows rows),
      Col_U64 (map cs_health_factor_bps rows),
      Col_U8 (map cs_flags rows),
      Col_U8 (map cs_elevation_group rows),
      Col_Fixed 32 (map cs_referrer rows),
      Col_Millis (map cs_ingested_at rows),
      Col_Decimal SF_DECIMAL_PRECISION 0 (map cs_deposited_value_sf rows),
      Col_Decimal SF_DECIMAL_PRECISION 0 (map cs_borrowed_value_sf rows),
      Col_Decimal SF_DECIMAL_PRECISION 0 (map cs_borrow_factor_adjusted_debt_sf rows),
      Col_Decimal SF_DECIMAL_PRECISION 0 (map cs_allowed_borrow_value_sf rows),
      Col_Decimal SF_DECIMAL_PRECISION 0 (map cs_unhealthy_borrow_value_sf rows),
      Col_U64 (map cs_lowest_deposit_liquidation_ltv rows)]"

definition snapshot_builder_of :: "cold_snapshot list \<Rightarrow> snapshot_builder" where
  "snapshot_builder_of rows =
     \<lparr>sb_slot = map cs_slot rows,
      sb_write_version = map cs_write_version rows,
      sb_pubkey = map cs_pubkey rows,
      sb_owner = map cs_owner rows,
      sb_lending_market = map cs_lending_market rows,
      sb_num_deposits = map cs_num_deposits rows,
      sb_num_borrows = map cs_num_borrows rows,
      sb_health_factor_bps = map cs_health_factor_bps rows,
      sb_flags = map cs_flags rows,
      sb_elevation_group = map cs_elevation_group rows,
      sb_referrer = map cs_referrer rows,
      sb_ingested_at = map cs_ingested_at rows,
      sb_deposited_value_sf = map cs_deposited_value_sf rows,
      sb_borrowed_value_sf = map cs_borrowed_value_sf rows,
      sb_borrow_factor_adjusted_debt_sf = map cs_borrow_factor_adjusted_debt_sf rows,
      sb_allowed_borrow_value_sf = map cs_allowed_borrow_value_sf rows,
      sb_unhealthy_borrow_value_sf = map cs_unhealthy_borrow_value_sf rows,
      sb_lowest_deposit_liquidation_ltv = map cs_lowest_deposit_liquidation_ltv rows,
      sb_rows = length rows\<rparr>"

definition snapshot_ok :: "cold_snapshot \<Rightarrow> bool" where
  "snapshot_ok r \<longleftrightarrow>
     length (cs_pubkey r) = 32
     \<and> length (cs_owner r) = 32
     \<and> length (cs_lending_market r) = 32
     \<and> length (cs_referrer r) = 32
     \<and> list_all (\<lambda>v. 0 \<le> v \<and> v < 10 ^ SF_DECIMAL_PRECISION)
          [cs_deposited_value_sf r, cs_borrowed_value_sf r, cs_borrow_factor_adjusted_debt_sf r, cs_allowed_borrow_value_sf r, cs_unhealthy_borrow_value_sf r]"

lemma parse_sf_bound: "parse_sf sf what slot = Inr v \<Longrightarrow> 0 \<le> v \<and> v < 10 ^ SF_DECIMAL_PRECISION"
  by (auto simp: parse_sf_of_u128 SF_DECIMAL_PRECISION_def simp flip: of_nat_power split: option.splits if_splits)

lemma then_push_simps [simp]:
  "then_push (b, Inr u) k = k b" "then_push (b, Inl e) k = (b, Inl e)"
  by (simp_all add: then_push_def)

lemma push_key_of:
  "decode_pubkey_hex hex what slot = Inr key \<Longrightarrow>
     push_key get upd hex what slot b = (upd (\<lambda>_. get b @ [key]) b, Inr ())"
  "decode_pubkey_hex hex what slot = Inl e \<Longrightarrow> push_key get upd hex what slot b = (b, Inl e)"
  by (auto simp: push_key_def append_fixed_def dest: decode_pubkey_hex_length)

lemma push_sf_of:
  "parse_sf sf what slot = Inr v \<Longrightarrow> push_sf upd sf what slot b = (upd (\<lambda>xs. xs @ [v]) b, Inr ())"
  "parse_sf sf what slot = Inl e \<Longrightarrow> push_sf upd sf what slot b = (b, Inl e)"
  by (simp_all add: push_sf_def)

lemma snapshot_push_builder:
  assumes "cold_snapshot_of row = Inr r"
  shows "snapshot_push row (snapshot_builder_of rows) = (snapshot_builder_of (rows @ [r]), Inr ())"
proof -
  obtain k1 k2 k3 k4 v1 v2 v3 v4 v5 where parsed:
    "decode_pubkey_hex (xs_pubkey_hex row) ''pubkey'' (xs_slot row) = Inr k1"
    "decode_pubkey_hex (xs_owner_hex row) ''owner'' (xs_slot row) = Inr k2"
    "decode_pubkey_hex (xs_lending_market_hex row) ''lending_market'' (xs_slot row) = Inr k3"
    "decode_pubkey_hex (xs_referrer_hex row) ''referrer'' (xs_slot row) = Inr k4"
    "parse_sf (xs_deposited_value_sf row) ''deposited_value_sf'' (xs_slot row) = Inr v1"
    "parse_sf (xs_borrowed_value_sf row) ''borrowed_value_sf'' (xs_slot row) = Inr v2"
    "parse_sf (xs_borrow_factor_adjusted_debt_sf row) ''borrow_factor_adjusted_debt_sf'' (xs_slot row) = Inr v3"
    "parse_sf (xs_allowed_borrow_value_sf row) ''allowed_borrow_value_sf'' (xs_slot row) = Inr v4"
    "parse_sf (xs_unhealthy_borrow_value_sf row) ''unhealthy_borrow_value_sf'' (xs_slot row) = Inr v5"
    using assms by (auto simp: cold_snapshot_of_def Let_def split: sum.splits)
  from assms show ?thesis
    by (simp add: snapshot_push_def cold_snapshot_of_def Let_def parsed push_key_of push_sf_of)
      (auto simp: snapshot_builder_of_def)
qed

lemma snapshot_push_error:
  assumes "cold_snapshot_of row = Inl e"
  shows "snd (snapshot_push row b) = Inl e"
  using assms unfolding cold_snapshot_of_def snapshot_push_def Let_def
  by (auto simp: push_key_of push_sf_of split: sum.splits)

lemma cold_snapshot_of_ok: "cold_snapshot_of row = Inr r \<Longrightarrow> snapshot_ok r"
  by (auto simp: cold_snapshot_of_def snapshot_ok_def Let_def
      dest: decode_pubkey_hex_length parse_sf_bound split: sum.splits)

lemma snapshot_finish_builder:
  "snapshot_finish accepts (snapshot_builder_of rows) =
     (snapshot_builder_of [],
      assemble accepts ''assemble snapshot RecordBatch (schema/column mismatch)''
        obligation_snapshots_schema (snapshot_columns rows))"
  by (simp add: snapshot_finish_def snapshot_builder_of_def snapshot_columns_def snapshot_builder_new_def)

lemma snapshot_columns_typed:
  "list_all snapshot_ok rows \<Longrightarrow> well_typed (length rows) obligation_snapshots_schema (snapshot_columns rows)"
  by (auto simp: well_typed_def snapshot_columns_def obligation_snapshots_schema_def field_new_def
      sf_field_def snapshot_ok_def list_all_iff)

section \<open>Properties\<close>

text \<open>
  C37 \<open>parse_sf\<close> accepts exactly the texts that write a number below \<open>10^38\<close> (an optional plus
  sign, then digits) and returns that number; a number's own decimal text comes back as the
  number, is refused as too large from \<open>10^38\<close> on, and is no \<open>u128\<close> from \<open>2^128\<close> on. It never
  saturates, wraps or returns a negative value.
\<close>

theorem parse_sf_exact:
  "(parse_sf sf what slot = Inr v \<longleftrightarrow>
      unsigned_part sf \<noteq> [] \<and> list_all is_digit (unsigned_part sf)
      \<and> v = int (decimal_value (unsigned_part sf)) \<and> decimal_value (unsigned_part sf) < 10 ^ 38)
   \<and> parse_sf (decimal n) what slot =
      (if n < 10 ^ 38 then Inr (int n)
       else if n < 2 ^ 128 then Inl (Exceeds_Decimal what slot (decimal n))
       else Inl (Not_A_U128 what slot (decimal n)))"
proof -
  have accepted: "parse_sf sf what slot = Inr v \<longleftrightarrow>
      (\<exists>m. parse_unsigned 128 sf = Some m \<and> m < 10 ^ 38 \<and> v = int m)"
    by (auto simp: parse_sf_of_u128 split: option.splits)
  have "(10 :: nat) ^ 38 < 2 ^ 128" by simp
  then have "m < 2 ^ 128" if "m < 10 ^ 38" for m :: nat
    using that by (rule less_trans [rotated])
  then show ?thesis
    unfolding accepted parse_unsigned_iff by (auto simp: parse_sf_of_u128 parse_unsigned_decimal)
qed

text \<open>
  \<open>decode_pubkey_hex\<close> accepts exactly the 64-character texts of hexadecimal digits of either
  case and returns the 32 bytes they write, zero bytes included; the hexadecimal text of a key
  decodes to that key, and of any other length it is refused with the length found.
\<close>

lemma decode_pubkey_hex_exact:
  "(decode_pubkey_hex hex what slot = Inr bs \<longleftrightarrow> length bs = 32 \<and> writes_hex hex bs)
   \<and> decode_pubkey_hex (concat (map hex_byte key)) what slot =
      (if length key = 32 then Inr key else Inl (Hex_Length what slot (2 * length key)))"
proof -
  have len: "length (concat (map hex_byte key)) = 2 * length key"
    by (simp add: length_concat_map_const [where w = 2])
  have "decode_pubkey_hex (concat (map hex_byte key)) what slot = Inr key" if "length key = 32"
    using that by (simp add: decode_pubkey_hex_iff writes_hex_bytes)
  then show ?thesis
    using len by (auto simp: decode_pubkey_hex_iff) (auto simp: decode_pubkey_hex_def)
qed

end
