(* ===== verification/Export.thy ===== *)
theory Export
  imports Export_Rows
begin

text \<open>
  The exporter of \<open>src/bin/parquet_export.rs\<close>: one partition (stream the rows of a slot
  range into a temporary file and rename it into place), the loop over the partitions of a
  table, and \<open>main\<close>. The disk maps paths to Parquet files; a file without its footer is
  \<open>Partial\<close>. Whether the \<open>n\<close>th file operation of a run succeeds is the parameter \<open>io n\<close>, so a
  statement for all \<open>io\<close> covers a failure, and a crash, before any of them. What a
  \<open>SELECT\<close> returns is a parameter too. Slot arithmetic wraps, as in a release build.

  \<open>export_partition\<close> and \<open>export_snapshot_partition\<close> differ in schema, row type and builder
  only; those are the fields of \<open>table_export\<close>, and the locale \<open>column_builder\<close> states the
  laws of a builder under which a published file holds exactly the rows of the query.
\<close>

section \<open>The disk\<close>

type_synonym path = "string list"

datatype parquet_file = Partial | Complete schema "record_batch list"

type_synonym io = "nat \<Rightarrow> bool"

record disk =
  dk_files :: "path \<rightharpoonup> parquet_file"
  dk_io :: nat

definition try_io :: "io \<Rightarrow> string \<Rightarrow> 'a disk_scheme \<Rightarrow> 'a disk_scheme \<times> (export_error + unit)" where
  "try_io io what d =
     (d\<lparr>dk_io := Suc (dk_io d)\<rparr>, if io (dk_io d) then Inr () else Inl (Io_Failed what))"

text \<open>\<open>Path::with_extension\<close> on a file name.\<close>

definition file_stem :: "string \<Rightarrow> string" where
  "file_stem name =
     (if CHR ''.'' \<in> set name then rev (tl (dropWhile (\<lambda>c. c \<noteq> CHR ''.'') (rev name))) else name)"

definition with_extension :: "string \<Rightarrow> string \<Rightarrow> string" where
  "with_extension ext name = file_stem name @ ''.'' @ ext"

section \<open>One partition\<close>

definition BATCH_ROWS :: nat where [const_defs]:
  "BATCH_ROWS = 8192"

record ('src, 'b) table_export =
  te_new :: 'b
  te_push :: "'src \<Rightarrow> 'b \<Rightarrow> 'b \<times> (export_error + unit)"
  te_finish :: "'b \<Rightarrow> 'b \<times> (export_error + record_batch)"
  te_rows :: "'b \<Rightarrow> nat"
  te_schema :: schema
  te_file :: string

record 'b exporter = disk +
  ex_builder :: 'b
  ex_writer :: "record_batch list option" \<comment> \<open>row groups of the open file\<close>
  ex_written :: u64

definition then_do ::
  "'s \<times> (export_error + unit) \<Rightarrow> ('s \<Rightarrow> 's \<times> (export_error + 'a)) \<Rightarrow> 's \<times> (export_error + 'a)" where
  "then_do r k = (case r of (s, Inl e) \<Rightarrow> (s, Inl e) | (s, Inr _) \<Rightarrow> k s)"

text \<open>The directory, the file and the writer are only created once a row has arrived.\<close>

definition open_writer :: "io \<Rightarrow> path \<Rightarrow> 'b exporter \<Rightarrow> 'b exporter \<times> (export_error + unit)" where
  "open_writer io tmp st =
     (if ex_writer st \<noteq> None then (st, Inr ())
      else then_do (try_io io ''create dir'' st) (\<lambda>st.
           then_do (try_io io ''create'' st) (\<lambda>st.
           let st = st\<lparr>dk_files := (dk_files st)(tmp \<mapsto> Partial)\<rparr> in
           then_do (try_io io ''open parquet writer'' st) (\<lambda>st.
           (st\<lparr>ex_writer := Some []\<rparr>, Inr ())))))"

text \<open>\<open>builder.finish()?\<close>, the count, and \<open>writer.write(&batch)?\<close>\<close>

definition write_group ::
  "('src, 'b) table_export \<Rightarrow> io \<Rightarrow> string \<Rightarrow> 'b exporter \<Rightarrow> 'b exporter \<times> (export_error + unit)" where
  "write_group te io what st =
     (case te_finish te (ex_builder st) of
        (b, Inl e) \<Rightarrow> (st\<lparr>ex_builder := b\<rparr>, Inl e)
      | (b, Inr batch) \<Rightarrow>
          let st = st\<lparr>ex_builder := b, ex_written := ex_written st + of_nat (num_rows batch)\<rparr> in
          then_do (try_io io what st) (\<lambda>st.
            (st\<lparr>ex_writer := map_option (\<lambda>groups. groups @ [batch]) (ex_writer st)\<rparr>, Inr ())))"

definition export_row_step ::
  "('src, 'b) table_export \<Rightarrow> io \<Rightarrow> path \<Rightarrow> 'src \<Rightarrow> 'b exporter \<Rightarrow> 'b exporter \<times> (export_error + unit)" where
  "export_row_step te io tmp row st =
     then_do (open_writer io tmp st) (\<lambda>st.
       case te_push te row (ex_builder st) of
         (b, Inl e) \<Rightarrow> (st\<lparr>ex_builder := b\<rparr>, Inl e)
       | (b, Inr _) \<Rightarrow>
           let st = st\<lparr>ex_builder := b\<rparr> in
           if BATCH_ROWS \<le> te_rows te b then write_group te io ''write row group'' st
           else (st, Inr ()))"

text \<open>The \<open>while let\<close> over the query's stream, whose items may fail to deserialize.\<close>

fun export_stream ::
  "('src, 'b) table_export \<Rightarrow> io \<Rightarrow> path \<Rightarrow> (string + 'src) list \<Rightarrow> 'b exporter
     \<Rightarrow> 'b exporter \<times> (export_error + unit)" where
  "export_stream te io tmp [] st = (st, Inr ())"
| "export_stream te io tmp (Inl e # items) st = (st, Inl (Deserialize e))"
| "export_stream te io tmp (Inr row # items) st =
     then_do (export_row_step te io tmp row st) (export_stream te io tmp items)"

text \<open>The footer, and the rename that publishes the file.\<close>

definition close_and_rename ::
  "('src, 'b) table_export \<Rightarrow> io \<Rightarrow> path \<Rightarrow> path \<Rightarrow> 'b exporter \<Rightarrow> 'b exporter \<times> (export_error + unit)" where
  "close_and_rename te io tmp final st =
     then_do (try_io io ''close parquet writer (footer)'' st) (\<lambda>st.
     let st = st\<lparr>dk_files := (dk_files st)(tmp := map_option (Complete (te_schema te)) (ex_writer st))\<rparr> in
     then_do (try_io io ''publish'' st) (\<lambda>st.
     (st\<lparr>dk_files := (dk_files st)(final := dk_files st tmp, tmp := None)\<rparr>, Inr ())))"

text \<open>\<open>if let Some(mut w) = writer\<close>: the last row group, then the file.\<close>

definition publish ::
  "('src, 'b) table_export \<Rightarrow> io \<Rightarrow> path \<Rightarrow> path \<Rightarrow> 'b exporter \<Rightarrow> 'b exporter \<times> (export_error + unit)" where
  "publish te io tmp final st =
     (case ex_writer st of
        None \<Rightarrow> (st, Inr ())
      | Some _ \<Rightarrow>
          then_do (if 0 < te_rows te (ex_builder st) then write_group te io ''write final row group'' st
                   else (st, Inr ()))
            (close_and_rename te io tmp final))"

type_synonym 'src slot_query = "u64 \<Rightarrow> u64 \<Rightarrow> string + (string + 'src) list"

definition final_path :: "path \<Rightarrow> u64 \<Rightarrow> string \<Rightarrow> path" where
  "final_path table_dir lo file = table_dir @ [partition_dir lo, file]"

definition tmp_path :: "path \<Rightarrow> u64 \<Rightarrow> string \<Rightarrow> path" where
  "tmp_path table_dir lo file = table_dir @ [partition_dir lo, with_extension ''parquet.tmp'' file]"

definition export_one ::
  "('src, 'b) table_export \<Rightarrow> io \<Rightarrow> 'src slot_query \<Rightarrow> u64 \<Rightarrow> u64 \<Rightarrow> path \<Rightarrow> disk
     \<Rightarrow> disk \<times> (export_error + u64)" where
  "export_one te io query lo hi table_dir d =
     (case query lo hi of
        Inl e \<Rightarrow> (d, Inl (Query_Failed lo hi))
      | Inr items \<Rightarrow>
          let tmp = tmp_path table_dir lo (te_file te);
              final = final_path table_dir lo (te_file te);
              st = disk.extend d (exporter.fields (te_new te) None 0);
              (st, r) = then_do (export_stream te io tmp items st) (publish te io tmp final)
          in (disk.truncate st, case r of Inl e \<Rightarrow> Inl e | Inr _ \<Rightarrow> Inr (ex_written st)))"

definition updates_export :: "try_new \<Rightarrow> (export_row, batch_builder) table_export" where
  "updates_export accepts =
     \<lparr>te_new = batch_builder_new, te_push = batch_push, te_finish = batch_finish accepts,
      te_rows = bb_rows, te_schema = account_updates_schema, te_file = ''account_updates.parquet''\<rparr>"

definition snapshots_export :: "try_new \<Rightarrow> (snapshot_row, snapshot_builder) table_export" where
  "snapshots_export accepts =
     \<lparr>te_new = snapshot_builder_new, te_push = snapshot_push, te_finish = snapshot_finish accepts,
      te_rows = sb_rows, te_schema = obligation_snapshots_schema,
      te_file = ''obligation_snapshots.parquet''\<rparr>"

definition export_partition ::
  "try_new \<Rightarrow> io \<Rightarrow> export_row slot_query \<Rightarrow> u64 \<Rightarrow> u64 \<Rightarrow> path \<Rightarrow> disk \<Rightarrow> disk \<times> (export_error + u64)" where
  "export_partition accepts = export_one (updates_export accepts)"

definition export_snapshot_partition ::
  "try_new \<Rightarrow> io \<Rightarrow> snapshot_row slot_query \<Rightarrow> u64 \<Rightarrow> u64 \<Rightarrow> path \<Rightarrow> disk \<Rightarrow> disk \<times> (export_error + u64)" where
  "export_snapshot_partition accepts = export_one (snapshots_export accepts)"

section \<open>The loop over partitions, and \<open>main\<close>\<close>

text \<open>A closed partition that exists is skipped; the loop ends when it passes the last one.\<close>

definition skips :: "bool \<Rightarrow> u64 \<Rightarrow> u64 \<Rightarrow> path \<Rightarrow> disk \<Rightarrow> bool" where
  "skips full part last_part path d \<longleftrightarrow> \<not> full \<and> part \<noteq> last_part \<and> dk_files d path \<noteq> None"

partial_function (option) export_parts ::
  "(u64 \<Rightarrow> u64 \<Rightarrow> disk \<Rightarrow> disk \<times> (export_error + u64)) \<Rightarrow> bool \<Rightarrow> path \<Rightarrow> string \<Rightarrow> u64 \<Rightarrow> u64 \<Rightarrow> u64 \<Rightarrow> disk
     \<Rightarrow> (disk \<times> (export_error + u64)) option" where
  "export_parts one full table_dir file last_part part exported d =
     (if part \<le> last_part then
        if skips full part last_part (final_path table_dir part file) d then
          export_parts one full table_dir file last_part (part + SLOTS_PER_PARTITION) exported d
        else
          (case one part (part + SLOTS_PER_PARTITION) d of
             (d, Inl e) \<Rightarrow> Some (d, Inl e)
           | (d, Inr n) \<Rightarrow>
               export_parts one full table_dir file last_part (part + SLOTS_PER_PARTITION) (exported + n) d)
      else Some (d, Inr exported))"

record bounds =
  bd_lo :: u64
  bd_hi :: u64
  bd_rows :: u64

text \<open>What \<open>main\<close> prints about the row count of a table.\<close>

datatype verdict = Table_Empty | Defect u64 u64 | Note_Fewer u64 u64 | Exact_Count u64

definition count_verdict :: "u64 \<Rightarrow> u64 \<Rightarrow> verdict" where
  "count_verdict exported rows =
     (if rows < exported then Defect rows exported
      else if exported < rows then Note_Fewer rows exported
      else Exact_Count exported)"

definition export_table ::
  "string \<Rightarrow> (u64 \<Rightarrow> u64 \<Rightarrow> disk \<Rightarrow> disk \<times> (export_error + u64)) \<Rightarrow> bool \<Rightarrow> path \<Rightarrow> string \<Rightarrow> string + bounds
     \<Rightarrow> disk \<Rightarrow> (disk \<times> (export_error + verdict)) option" where
  "export_table tbl one full table_dir file bnds d =
     (case bnds of
        Inl e \<Rightarrow> Some (d, Inl (Bounds_Failed tbl))
      | Inr b \<Rightarrow>
          if bd_rows b = 0 then Some (d, Inr Table_Empty)
          else let first_part = partition_start (bd_lo b);
                   last_part = partition_start (bd_hi b)
            in map_option (\<lambda>(d, r). (d, case r of Inl e \<Rightarrow> Inl e
                                               | Inr exported \<Rightarrow> Inr (count_verdict exported (bd_rows b))))
                 (export_parts one full table_dir file last_part first_part 0 d))"

record export_env =
  ee_dir :: "path option" \<comment> \<open>\<open>KLEND_PARQUET_DIR\<close>\<close>
  ee_full :: bool \<comment> \<open>\<open>KLEND_PARQUET_FULL\<close> is set\<close>
  ee_url :: "string option" \<comment> \<open>\<open>CLICKHOUSE_URL\<close>\<close>
  ee_connect_err :: "string option"
  ee_updates_bounds :: "string + bounds"
  ee_updates_query :: "export_row slot_query"
  ee_snapshots_bounds :: "string + bounds"
  ee_snapshots_query :: "snapshot_row slot_query"

definition export_main ::
  "try_new \<Rightarrow> io \<Rightarrow> export_env \<Rightarrow> disk \<Rightarrow> (disk \<times> (export_error + verdict list)) option" where
  "export_main accepts io env d =
     (let out_dir = (case ee_dir env of Some dir \<Rightarrow> dir | None \<Rightarrow> [''.'', ''parquet'']);
          full = ee_full env
      in case ee_url env of
           None \<Rightarrow> Some (d, Inl (Missing_Env ''CLICKHOUSE_URL is required''))
         | Some url \<Rightarrow>
      (case ee_connect_err env of
           Some e \<Rightarrow> Some (d, Inl (Connect_Failed ''connect ClickHouse source''))
         | None \<Rightarrow>
             let updates_dir = out_dir @ [''account_updates''];
                 snapshots_dir = out_dir @ [''obligation_snapshots'']
             in Option.bind (export_table ''account_updates''
                      (\<lambda>lo hi. export_partition accepts io (ee_updates_query env) lo hi updates_dir)
                      full updates_dir ''account_updates.parquet'' (ee_updates_bounds env) d)
                 (\<lambda>(d, r). case r of
                    Inl e \<Rightarrow> Some (d, Inl e)
                  | Inr v \<Rightarrow>
                      map_option (\<lambda>(d, r). (d, case r of Inl e \<Rightarrow> Inl e | Inr w \<Rightarrow> Inr [v, w]))
                        (export_table ''obligation_snapshots''
                           (\<lambda>lo hi. export_snapshot_partition accepts io (ee_snapshots_query env) lo hi snapshots_dir)
                           full snapshots_dir ''obligation_snapshots.parquet'' (ee_snapshots_bounds env) d))))"

end
