(* ===== verification/Export_Facts.thy ===== *)
theory Export_Facts
  imports Export
begin

text \<open>
  What one exported partition leaves behind. The locale \<open>column_builder\<close> is the contract of a
  builder (\<open>push\<close> appends the row it parses, \<open>finish\<close> drains everything into one batch); under
  it the file a partition publishes holds exactly the parsed rows of the query, in row groups
  of at most \<open>BATCH_ROWS\<close>, and nothing is published on any failure.
\<close>

section \<open>Which files change\<close>

lemma try_io_files [simp]: "dk_files (fst (try_io io what d)) = dk_files d"
  by (simp add: try_io_def)

lemma then_do_Inr:
  "then_do r k = (s, Inr x) \<longleftrightarrow> (\<exists>s'. r = (s', Inr ()) \<and> k s' = (s, Inr x))"
  by (cases r) (auto simp: then_do_def split: sum.splits)

lemma fst_then_do: "fst (then_do r k) = (case snd r of Inl e \<Rightarrow> fst r | Inr _ \<Rightarrow> fst (k (fst r)))"
  by (cases r) (auto simp: then_do_def split: sum.splits)

lemma snd_then_do: "snd (then_do r k) = (case snd r of Inl e \<Rightarrow> Inl e | Inr _ \<Rightarrow> snd (k (fst r)))"
  by (cases r) (auto simp: then_do_def split: sum.splits)

text \<open>The files after a step agree with those before it outside the given path.\<close>

definition only_at :: "path \<Rightarrow> (path \<rightharpoonup> parquet_file) \<Rightarrow> (path \<rightharpoonup> parquet_file) \<Rightarrow> bool" where
  "only_at p fs fs' \<longleftrightarrow> (\<forall>q. q \<noteq> p \<longrightarrow> fs' q = fs q)"

lemma only_at_refl [simp]: "only_at p fs fs"
  by (simp add: only_at_def)

lemma only_at_upd [simp]: "only_at p fs (fs(p := v))"
  by (simp add: only_at_def)

lemma only_at_trans: "only_at p fs fs' \<Longrightarrow> only_at p fs' fs'' \<Longrightarrow> only_at p fs fs''"
  by (simp add: only_at_def)

lemma only_at_other: "only_at p fs fs' \<Longrightarrow> q \<noteq> p \<Longrightarrow> fs' q = fs q"
  by (simp add: only_at_def)

lemma open_writer_files: "only_at tmp (dk_files st) (dk_files (fst (open_writer io tmp st)))"
  by (auto simp: open_writer_def fst_then_do Let_def split: sum.splits)

lemma write_group_files [simp]: "dk_files (fst (write_group te io what st)) = dk_files st"
  by (auto simp: write_group_def fst_then_do Let_def split: sum.splits prod.splits)

lemma row_step_files: "only_at tmp (dk_files st) (dk_files (fst (export_row_step te io tmp row st)))"
  using open_writer_files [of tmp st io]
  by (auto simp: export_row_step_def fst_then_do Let_def split: sum.splits prod.splits)

lemma stream_files: "only_at tmp (dk_files st) (dk_files (fst (export_stream te io tmp items st)))"
proof (induction te io tmp items st rule: export_stream.induct)
  case (3 te io tmp row items st)
  show ?case
    using row_step_files [of tmp st te io row] 3
    by (auto simp: fst_then_do intro: only_at_trans split: sum.splits)
qed simp_all

lemma publish_files:
  assumes "final \<noteq> tmp"
  shows "dk_files (fst (publish te io tmp final st)) =
      (dk_files st)(tmp := dk_files (fst (publish te io tmp final st)) tmp,
                    final := dk_files (fst (publish te io tmp final st)) final)"
    and "snd (publish te io tmp final st) = Inl e \<Longrightarrow>
      dk_files (fst (publish te io tmp final st)) final = dk_files st final"
  using assms
  by (auto simp: publish_def close_and_rename_def fst_then_do snd_then_do Let_def fun_eq_iff split: option.splits sum.splits)

section \<open>The contract of a builder\<close>

definition batch_of :: "schema \<Rightarrow> ('row list \<Rightarrow> column list) \<Rightarrow> 'row list \<Rightarrow> record_batch" where
  "batch_of sch columns rows = \<lparr>rb_schema = sch, rb_columns = columns rows\<rparr>"

text \<open>A complete file with exactly the given rows, in row groups of bounded size.\<close>

definition holds_rows :: "schema \<Rightarrow> ('row list \<Rightarrow> column list) \<Rightarrow> 'row list \<Rightarrow> parquet_file option \<Rightarrow> bool" where
  "holds_rows sch columns rows f \<longleftrightarrow>
     (\<exists>groups. concat groups = rows \<and> list_all (\<lambda>g. g \<noteq> [] \<and> length g \<le> BATCH_ROWS) groups
        \<and> f = Some (Complete sch (map (batch_of sch columns) groups)))"

text \<open>What the items of a query's stream read as.\<close>

definition reads :: "('src \<Rightarrow> export_error + 'row) \<Rightarrow> string + 'src \<Rightarrow> 'row \<Rightarrow> bool" where
  "reads parse item r \<longleftrightarrow> (case item of Inl e \<Rightarrow> False | Inr src \<Rightarrow> parse src = Inr r)"

lemma reads_simps [simp]:
  "reads parse (Inl e) r = False" "reads parse (Inr src) r = (parse src = Inr r)"
  by (simp_all add: reads_def)

text \<open>
  A stream that has taken \<open>seen\<close>: full groups went to the writer, the rest is in the builder,
  and the temporary file exists once there is a row.
\<close>

definition streaming ::
  "('src, 'b) table_export \<Rightarrow> ('row list \<Rightarrow> 'b) \<Rightarrow> ('row list \<Rightarrow> column list) \<Rightarrow> 'row list \<Rightarrow> 'b exporter \<Rightarrow> bool"
  where
  "streaming te holding columns seen st \<longleftrightarrow>
     (\<exists>groups cur. seen = concat groups @ cur
        \<and> list_all (\<lambda>g. length g = BATCH_ROWS) groups \<and> length cur < BATCH_ROWS
        \<and> ex_builder st = holding cur
        \<and> ex_written st = of_nat (length (concat groups))
        \<and> ex_writer st = (if seen = [] then None
                          else Some (map (batch_of (te_schema te) columns) groups)))"

locale column_builder =
  fixes te :: "('src, 'b) table_export"
    and holding :: "'row list \<Rightarrow> 'b"
    and parse :: "'src \<Rightarrow> export_error + 'row"
    and columns :: "'row list \<Rightarrow> column list"
    and valid :: "'row \<Rightarrow> bool"
    and accepts :: try_new
    and msg :: string
  assumes new: "te_new te = holding []"
    and rows: "te_rows te (holding rs) = length rs"
    and push_ok: "parse row = Inr r \<Longrightarrow> te_push te row (holding rs) = (holding (rs @ [r]), Inr ())"
    and push_err: "parse row = Inl e \<Longrightarrow> snd (te_push te row (holding rs)) = Inl e"
    and finish: "te_finish te (holding rs) = (holding [], assemble accepts msg (te_schema te) (columns rs))"
    and num: "num_rows (batch_of (te_schema te) columns rs) = length rs"
    and parse_valid: "parse row = Inr r \<Longrightarrow> valid r"
    and typed: "list_all valid rs \<Longrightarrow> well_typed (length rs) (te_schema te) (columns rs)"
    and file_name: "with_extension ''parquet.tmp'' (te_file te) \<noteq> te_file te"
begin

lemma finish_Inr:
  "te_finish te (holding rs) = (b, Inr batch) \<Longrightarrow>
     b = holding [] \<and> batch = batch_of (te_schema te) columns rs"
  by (auto simp: finish assemble_def batch_of_def split: if_splits)

lemma write_group_Inr:
  assumes "write_group te io what st = (st', Inr ())" and "ex_builder st = holding cur"
  shows "ex_builder st' = holding []"
    and "ex_written st' = ex_written st + of_nat (length cur)"
    and "ex_writer st' = map_option (\<lambda>gs. gs @ [batch_of (te_schema te) columns cur]) (ex_writer st)"
    and "dk_files st' = dk_files st"
  using assms
  by (auto simp: write_group_def finish then_do_Inr try_io_def Let_def num assemble_def
      simp flip: batch_of_def split: prod.splits sum.splits if_splits)

lemma open_writer_Inr:
  assumes "open_writer io tmp st = (st', Inr ())"
  shows "ex_builder st' = ex_builder st" and "ex_written st' = ex_written st"
    and "ex_writer st' = (case ex_writer st of None \<Rightarrow> Some [] | Some gs \<Rightarrow> Some gs)"
  using assms
  by (auto simp: open_writer_def then_do_Inr try_io_def Let_def split: if_splits option.splits)

lemma streaming_start:
  "ex_builder st = te_new te \<Longrightarrow> ex_writer st = None \<Longrightarrow> ex_written st = 0 \<Longrightarrow>
     streaming te holding columns [] st"
  unfolding streaming_def
  by (rule exI [of _ "[]"], rule exI [of _ "[]"]) (simp add: new const_defs)

lemma row_step_Inr:
  assumes stream: "streaming te holding columns seen st"
    and step: "export_row_step te io tmp row st = (st', Inr ())"
  shows "\<exists>r. parse row = Inr r \<and> streaming te holding columns (seen @ [r]) st'"
proof -
  obtain groups cur where seen: "seen = concat groups @ cur"
    and full: "list_all (\<lambda>g. length g = BATCH_ROWS) groups" and short: "length cur < BATCH_ROWS"
    and builder: "ex_builder st = holding cur"
    and written: "ex_written st = of_nat (length (concat groups))"
    and writer: "ex_writer st = (if seen = [] then None
      else Some (map (batch_of (te_schema te) columns) groups))"
    using stream unfolding streaming_def by blast
  obtain st1 where opened: "open_writer io tmp st = (st1, Inr ())"
    using step by (auto simp: export_row_step_def then_do_Inr)
  have "seen = [] \<Longrightarrow> groups = []"
    using seen full by (cases groups) (auto simp: const_defs)
  then have st1: "ex_builder st1 = holding cur" "ex_written st1 = of_nat (length (concat groups))"
    "ex_writer st1 = Some (map (batch_of (te_schema te) columns) groups)"
    using open_writer_Inr [OF opened] builder written writer by auto
  obtain r where r: "parse row = Inr r"
  proof (cases "parse row")
    case (Inl e)
    then have "snd (te_push te row (holding cur)) = Inl e" by (rule push_err)
    then show ?thesis
      using step opened st1 by (auto simp: export_row_step_def then_do_def split: prod.splits)
  qed
  define st2 where "st2 = st1\<lparr>ex_builder := holding (cur @ [r])\<rparr>"
  have st': "(if BATCH_ROWS \<le> length (cur @ [r]) then write_group te io ''write row group'' st2
      else (st2, Inr ())) = (st', Inr ())"
    using step by (simp add: export_row_step_def then_do_def opened st1 push_ok [OF r] rows st2_def Let_def split: if_splits)
  have st2: "ex_builder st2 = holding (cur @ [r])" "ex_written st2 = ex_written st1"
    "ex_writer st2 = ex_writer st1"
    by (simp_all add: st2_def)
  show ?thesis
  proof (cases "BATCH_ROWS \<le> length (cur @ [r])")
    case True
    then have len: "length (cur @ [r]) = BATCH_ROWS" using short by simp
    have group: "write_group te io ''write row group'' st2 = (st', Inr ())"
      using st' True by simp
    have "streaming te holding columns (seen @ [r]) st'"
      unfolding streaming_def
      by (rule exI [of _ "groups @ [cur @ [r]]"], rule exI [of _ "[]"])
        (use write_group_Inr [OF group st2(1)] st2 st1 seen full len in \<open>simp add: const_defs\<close>)
    with r show ?thesis by blast
  next
    case False
    then have "streaming te holding columns (seen @ [r]) st'"
      unfolding streaming_def
      by (intro exI [of _ groups] exI [of _ "cur @ [r]"]) (use st' st2 st1 seen full in auto)
    with r show ?thesis by blast
  qed
qed

lemma stream_Inr:
  "streaming te holding columns seen st \<Longrightarrow> export_stream te io tmp items st = (st', Inr ()) \<Longrightarrow>
     \<exists>rs. list_all2 (reads parse) items rs \<and> streaming te holding columns (seen @ rs) st'"
proof (induction items arbitrary: seen st)
  case Nil
  then show ?case by auto
next
  case (Cons item items)
  then obtain row where item: "item = Inr row" by (cases item) auto
  with Cons.prems obtain st1 where st1: "export_row_step te io tmp row st = (st1, Inr ())"
    and rest: "export_stream te io tmp items st1 = (st', Inr ())"
    by (auto simp: then_do_Inr)
  obtain r where r: "parse row = Inr r" "streaming te holding columns (seen @ [r]) st1"
    using row_step_Inr [OF Cons.prems(1) st1] by blast
  obtain rs where "list_all2 (reads parse) items rs" "streaming te holding columns (seen @ r # rs) st'"
    using Cons.IH [OF r(2) rest] by auto
  with r item show ?case by (intro exI [of _ "r # rs"]) simp
qed

lemma publish_Inr:
  assumes stream: "streaming te holding columns rs st" and "final \<noteq> tmp"
    and pub: "publish te io tmp final st = (st', Inr ())"
  shows "ex_written st' = of_nat (length rs)"
    and "rs = [] \<Longrightarrow> dk_files st' = dk_files st"
    and "rs \<noteq> [] \<Longrightarrow> holds_rows (te_schema te) columns rs (dk_files st' final)
      \<and> dk_files st' tmp = None"
proof -
  obtain groups cur where seen: "rs = concat groups @ cur"
    and full: "list_all (\<lambda>g. length g = BATCH_ROWS) groups" and short: "length cur < BATCH_ROWS"
    and builder: "ex_builder st = holding cur"
    and written: "ex_written st = of_nat (length (concat groups))"
    and writer: "ex_writer st = (if rs = [] then None
      else Some (map (batch_of (te_schema te) columns) groups))"
    using stream unfolding streaming_def by blast
  have bounded: "list_all (\<lambda>g. g \<noteq> [] \<and> length g \<le> BATCH_ROWS) groups"
    using full by (auto simp: list_all_iff const_defs)
  show "rs = [] \<Longrightarrow> dk_files st' = dk_files st"
    using pub writer by (simp add: publish_def)
  define gs where "gs = (if cur = [] then groups else groups @ [cur])"
  have gs: "concat gs = rs" "list_all (\<lambda>g. g \<noteq> [] \<and> length g \<le> BATCH_ROWS) gs"
    using seen bounded short by (auto simp: gs_def)
  have done_file: "ex_written st' = of_nat (length rs)
      \<and> dk_files st' final = Some (Complete (te_schema te) (map (batch_of (te_schema te) columns) gs))
      \<and> dk_files st' tmp = None" if ne: "rs \<noteq> []"
  proof -
    obtain st1 where last: "(if 0 < te_rows te (ex_builder st)
        then write_group te io ''write final row group'' st else (st, Inr ())) = (st1, Inr ())"
      and final: "close_and_rename te io tmp final st1 = (st', Inr ())"
      using pub writer ne by (auto simp: publish_def then_do_Inr)
    have st1: "ex_written st1 = of_nat (length rs)"
      "ex_writer st1 = Some (map (batch_of (te_schema te) columns) gs)"
      using last writer written seen ne builder
        write_group_Inr [of io "''write final row group''" st st1 cur]
      by (auto simp: rows gs_def split: if_splits)
    show ?thesis
      using final st1 \<open>final \<noteq> tmp\<close>
      by (auto simp: close_and_rename_def then_do_Inr try_io_def Let_def split: if_splits)
  qed
  show "ex_written st' = of_nat (length rs)"
  proof (cases "rs = []")
    case True
    then have cg: "concat groups = []" using seen by simp
    have "ex_written st = 0" unfolding written cg by simp
    with True show ?thesis using pub writer by (simp add: publish_def)
  qed (use done_file in blast)
  show "rs \<noteq> [] \<Longrightarrow> holds_rows (te_schema te) columns rs (dk_files st' final) \<and> dk_files st' tmp = None"
    using done_file gs unfolding holds_rows_def by blast
qed

text \<open>
  With every file operation succeeding and every row parsing, nothing fails: the columns of rows that parse
  have the types of the schema, so the batches are accepted.
\<close>

lemma reads_valid: "list_all2 (reads parse) items rs \<Longrightarrow> list_all valid rs"
  by (induction items rs rule: list_all2_induct) (auto simp: reads_def dest: parse_valid split: sum.splits)

lemma assemble_valid:
  "takes_well_typed accepts \<Longrightarrow> list_all valid rs \<Longrightarrow>
     assemble accepts msg (te_schema te) (columns rs) = Inr (batch_of (te_schema te) columns rs)"
  by (simp add: assemble_def batch_of_def takes_well_typedD [OF _ typed])

lemma streaming_cur:
  assumes "streaming te holding columns seen st" and "list_all valid seen"
  obtains cur where "ex_builder st = holding cur" and "list_all valid cur"
  using assms unfolding streaming_def by auto

lemma row_step_succeeds:
  assumes stream: "streaming te holding columns seen st" "list_all valid seen" and io: "\<And>k. io k"
    and acc: "takes_well_typed accepts" and r: "parse row = Inr r"
  shows "snd (export_row_step te io tmp row st) = Inr ()"
proof -
  obtain cur where builder: "ex_builder st = holding cur" and cur: "list_all valid cur"
    using stream by (rule streaming_cur)
  have ok: "assemble accepts msg (te_schema te) (columns (cur @ [r])) = Inr (batch_of (te_schema te) columns (cur @ [r]))"
    using cur parse_valid [OF r] by (intro assemble_valid [OF acc]) simp
  have opened: "snd (open_writer io tmp st) = Inr ()" "ex_builder (fst (open_writer io tmp st)) = holding cur"
    by (auto simp: open_writer_def snd_then_do fst_then_do try_io_def io Let_def builder)
  show ?thesis
    by (auto simp: export_row_step_def snd_then_do opened push_ok [OF r] write_group_def finish
        ok try_io_def io Let_def)
qed

lemma publish_succeeds:
  assumes stream: "streaming te holding columns rs st" "list_all valid rs" and io: "\<And>k. io k"
    and acc: "takes_well_typed accepts"
  shows "snd (publish te io tmp final st) = Inr ()"
proof -
  obtain cur where builder: "ex_builder st = holding cur" and cur: "list_all valid cur"
    using stream by (rule streaming_cur)
  have "snd (close_and_rename te io tmp final st1) = Inr ()" for st1
    by (simp add: close_and_rename_def snd_then_do try_io_def io Let_def)
  then show ?thesis
    by (auto simp: publish_def snd_then_do builder write_group_def finish assemble_valid [OF acc cur]
        try_io_def io Let_def split: option.splits)
qed

lemma stream_succeeds:
  "streaming te holding columns seen st \<Longrightarrow> list_all valid seen \<Longrightarrow> (\<And>k. io k) \<Longrightarrow>
     takes_well_typed accepts \<Longrightarrow> list_all2 (reads parse) items rs \<Longrightarrow>
     snd (export_stream te io tmp items st) = Inr ()"
proof (induction items arbitrary: seen st rs)
  case Nil
  then show ?case by simp
next
  case (Cons item items)
  then obtain r rs' where rs: "reads parse item r" "list_all2 (reads parse) items rs'"
    by (auto simp: list_all2_Cons1)
  then obtain row where item: "item = Inr row" "parse row = Inr r" by (cases item) auto
  have ok: "snd (export_row_step te io tmp row st) = Inr ()"
    using row_step_succeeds [OF Cons.prems(1-4) item(2)] by simp
  then have "export_row_step te io tmp row st = (fst (export_row_step te io tmp row st), Inr ())"
    by (simp add: prod_eq_iff)
  from row_step_Inr [OF Cons.prems(1) this] item
  have "streaming te holding columns (seen @ [r]) (fst (export_row_step te io tmp row st))"
    by auto
  moreover have "list_all valid (seen @ [r])" using Cons.prems(2) parse_valid [OF item(2)] by simp
  ultimately have "snd (export_stream te io tmp items (fst (export_row_step te io tmp row st))) = Inr ()"
    using Cons.IH Cons.prems(3,4) rs(2) by blast
  with ok item show ?case by (simp add: snd_then_do)
qed

section \<open>One partition\<close>

lemma paths_differ: "final_path dir lo (te_file te) \<noteq> tmp_path dir lo (te_file te)"
  using file_name by (simp add: final_path_def tmp_path_def)

lemma export_one_Inr:
  assumes "export_one te io query lo hi dir d = (d', Inr n)"
  shows "\<exists>items rs. query lo hi = Inr items \<and> list_all2 (reads parse) items rs
    \<and> n = of_nat (length rs)
    \<and> (if rs = [] then dk_files d' = dk_files d
       else dk_files d' (tmp_path dir lo (te_file te)) = None
         \<and> holds_rows (te_schema te) columns rs (dk_files d' (final_path dir lo (te_file te))))"
proof -
  define tmp where "tmp = tmp_path dir lo (te_file te)"
  define final where "final = final_path dir lo (te_file te)"
  define st where "st = disk.extend d (exporter.fields (te_new te) None 0)"
  have st: "dk_files st = dk_files d" "streaming te holding columns [] st"
    by (auto simp: st_def disk.defs exporter.defs intro: streaming_start)
  obtain items where items: "query lo hi = Inr items"
    using assms by (auto simp: export_one_def split: sum.splits)
  obtain st' where st': "then_do (export_stream te io tmp items st) (publish te io tmp final) = (st', Inr ())"
    and d': "d' = disk.truncate st'" "n = ex_written st'"
    using assms items
    by (auto simp: export_one_def Let_def tmp_def final_def st_def split: prod.splits sum.splits)
  then obtain st1 where st1: "export_stream te io tmp items st = (st1, Inr ())"
    and pub: "publish te io tmp final st1 = (st', Inr ())"
    by (auto simp: then_do_Inr)
  obtain rs where rs: "list_all2 (reads parse) items rs" and done1: "streaming te holding columns rs st1"
    using stream_Inr [OF st(2) st1] by auto
  have ne: "final \<noteq> tmp"
    unfolding final_def tmp_def by (rule paths_differ)
  have "dk_files st1 = dk_files st" if "rs = []"
    using rs that st1 by auto
  with publish_Inr [OF done1 ne pub] items rs d' st show ?thesis
    by (intro exI [of _ items] exI [of _ rs])
      (auto simp: disk.defs simp flip: tmp_def final_def)
qed

lemma export_one_files:
  "dk_files (fst (export_one te io query lo hi dir d)) =
     (dk_files d)(tmp_path dir lo (te_file te) :=
                    dk_files (fst (export_one te io query lo hi dir d)) (tmp_path dir lo (te_file te)),
                  final_path dir lo (te_file te) :=
                    dk_files (fst (export_one te io query lo hi dir d)) (final_path dir lo (te_file te)))"
  (is "?files")
  and export_one_Inl: "snd (export_one te io query lo hi dir d) = Inl e \<Longrightarrow>
     dk_files (fst (export_one te io query lo hi dir d)) (final_path dir lo (te_file te))
       = dk_files d (final_path dir lo (te_file te))"
proof -
  define tmp where "tmp = tmp_path dir lo (te_file te)"
  define final where "final = final_path dir lo (te_file te)"
  define st where "st = disk.extend d (exporter.fields (te_new te) None 0)"
  have st: "dk_files st = dk_files d"
    by (simp add: st_def disk.defs exporter.defs)
  have ne: "final \<noteq> tmp"
    unfolding final_def tmp_def by (rule paths_differ)
  have frame: "only_at tmp (dk_files d) (dk_files (fst (export_stream te io tmp items st)))" for items
    using stream_files [of tmp st te io items] by (simp add: st)
  have one: "export_one te io query lo hi dir d = (case query lo hi of
        Inl e \<Rightarrow> (d, Inl (Query_Failed lo hi))
      | Inr items \<Rightarrow>
         (let (st, r) = then_do (export_stream te io tmp items st) (publish te io tmp final)
          in (disk.truncate st, case r of Inl e \<Rightarrow> Inl e | Inr _ \<Rightarrow> Inr (ex_written st))))"
    unfolding export_one_def Let_def tmp_def final_def st_def by (rule refl)
  have pub: "p \<noteq> tmp \<Longrightarrow> p \<noteq> final \<Longrightarrow> dk_files (fst (publish te io tmp final st1)) p = dk_files st1 p" for p st1
    using publish_files(1) [OF ne, of te io st1] by (metis fun_upd_other)
  have other: "p \<noteq> tmp \<Longrightarrow> p \<noteq> final \<Longrightarrow> dk_files (fst (export_one te io query lo hi dir d)) p = dk_files d p" for p
    using frame pub
    by (auto simp: one fst_then_do disk.defs Let_def only_at_def case_prod_beta split: sum.splits)
  show ?files
    using other by (auto simp: fun_eq_iff simp flip: tmp_def final_def)
  show "dk_files (fst (export_one te io query lo hi dir d)) (final_path dir lo (te_file te))
       = dk_files d (final_path dir lo (te_file te))"
    if err: "snd (export_one te io query lo hi dir d) = Inl e" for e
  proof (cases "query lo hi")
    case (Inr items)
    have stay: "dk_files (fst (export_stream te io tmp items st)) final = dk_files d final"
      using frame ne by (simp add: only_at_def)
    have "snd (then_do (export_stream te io tmp items st) (publish te io tmp final)) = Inl e"
      using err Inr by (auto simp: one Let_def split: prod.splits sum.splits)
    then have "dk_files (fst (then_do (export_stream te io tmp items st) (publish te io tmp final))) final
        = dk_files d final"
      using stay
      by (auto simp: fst_then_do snd_then_do dest: publish_files(2) [OF ne] split: sum.splits)
    then show ?thesis
      using Inr by (auto simp: one Let_def disk.defs simp flip: final_def split: prod.splits)
  qed (simp add: one)
qed

lemma export_one_succeeds:
  assumes "query lo hi = Inr items" and "list_all2 (reads parse) items rs"
    and "\<And>k. io k" and "takes_well_typed accepts"
  shows "snd (export_one te io query lo hi dir d) = Inr (of_nat (length rs))"
proof -
  define st where "st = disk.extend d (exporter.fields (te_new te) None 0)"
  define tmp where "tmp = tmp_path dir lo (te_file te)"
  have start: "streaming te holding columns [] st"
    by (auto simp: st_def disk.defs exporter.defs intro: streaming_start)
  have ok: "snd (export_stream te io tmp items st) = Inr ()"
    using stream_succeeds [OF start _ assms(3,4,2)] by simp
  then have "export_stream te io tmp items st = (fst (export_stream te io tmp items st), Inr ())"
    by (simp add: prod_eq_iff)
  from stream_Inr [OF start this] obtain rs' where
    "streaming te holding columns rs' (fst (export_stream te io tmp items st))" "list_all valid rs'"
    by (auto dest: reads_valid)
  from publish_succeeds [OF this assms(3,4)] ok
  have "snd (then_do (export_stream te io tmp items st) (publish te io tmp (final_path dir lo (te_file te)))) = Inr ()"
    by (simp add: snd_then_do)
  then obtain n where n: "snd (export_one te io query lo hi dir d) = Inr n"
    by (auto simp: export_one_def assms(1) Let_def st_def tmp_def case_prod_beta)
  then have "export_one te io query lo hi dir d = (fst (export_one te io query lo hi dir d), Inr n)"
    by (simp add: prod_eq_iff)
  from export_one_Inr [OF this] obtain rs'' where "list_all2 (reads parse) items rs''" "n = of_nat (length rs'')"
    using assms(1) by auto
  with assms(2) n show ?thesis
    by (simp add: list_all2_lengthD [symmetric])
qed

end

section \<open>The two tables\<close>

lemma updates_num: "num_rows (batch_of sch update_columns rs) = length rs"
  by (simp add: num_rows_def batch_of_def update_columns_def)

lemma snapshots_num: "num_rows (batch_of sch snapshot_columns rs) = length rs"
  by (simp add: num_rows_def batch_of_def snapshot_columns_def)

lemma export_file_names:
  "with_extension ''parquet.tmp'' ''account_updates.parquet'' = ''account_updates.parquet.tmp''"
  "with_extension ''parquet.tmp'' ''obligation_snapshots.parquet'' = ''obligation_snapshots.parquet.tmp''"
  by (simp_all add: with_extension_def file_stem_def)

interpretation cold_updates: column_builder "updates_export accepts" update_builder cold_update_of
  update_columns update_ok accepts "''assemble RecordBatch (schema/column mismatch)''"
  by unfold_locales
    (simp_all add: updates_export_def batch_push_update_builder batch_finish_update_builder
      updates_num export_file_names cold_update_of_ok update_columns_typed,
     simp_all add: update_builder_def batch_builder_new_def)

interpretation cold_snapshots: column_builder "snapshots_export accepts" snapshot_builder_of cold_snapshot_of
  snapshot_columns snapshot_ok accepts "''assemble snapshot RecordBatch (schema/column mismatch)''"
  by unfold_locales
    (simp_all add: snapshots_export_def snapshot_push_builder snapshot_push_error
      snapshot_finish_builder snapshots_num export_file_names prod_eq_iff cold_snapshot_of_ok
      snapshot_columns_typed,
     simp_all add: snapshot_builder_of_def snapshot_builder_new_def)

end
