(* ===== verification/Export_Run.thy ===== *)
theory Export_Run
  imports Export_Facts
begin

text \<open>
  A whole run of the exporter: the loop over partitions terminates and visits exactly the
  partitions between the bounds, each slot belongs to one of them, what a completed run leaves
  on the disk, and which partitions it leaves alone.
\<close>

section \<open>The loop as a list traversal\<close>

definition partitions :: "u64 \<Rightarrow> nat \<Rightarrow> u64 list" where
  "partitions part n = map (\<lambda>k. part + of_nat k * SLOTS_PER_PARTITION) [0..<Suc n]"

fun export_list ::
  "(u64 \<Rightarrow> u64 \<Rightarrow> disk \<Rightarrow> disk \<times> (export_error + u64)) \<Rightarrow> bool \<Rightarrow> path \<Rightarrow> string \<Rightarrow> u64 \<Rightarrow> u64 list \<Rightarrow> u64 \<Rightarrow> disk
     \<Rightarrow> disk \<times> (export_error + u64)" where
  "export_list one full dir file last_part [] n d = (d, Inr n)"
| "export_list one full dir file last_part (p # ps) n d =
     (if skips full p last_part (final_path dir p file) d then export_list one full dir file last_part ps n d
      else case one p (p + SLOTS_PER_PARTITION) d of
             (d, Inl e) \<Rightarrow> (d, Inl e)
           | (d, Inr m) \<Rightarrow> export_list one full dir file last_part ps (n + m) d)"

lemma partitions_0 [simp]: "partitions part 0 = [part]"
  by (simp add: partitions_def)

lemma partitions_Suc: "partitions part (Suc n) = part # partitions (part + SLOTS_PER_PARTITION) n"
  unfolding partitions_def
  by (subst upt_conv_Cons, simp, simp only: map_Suc_upt [symmetric] list.map map_map)
    (simp add: algebra_simps)

lemma set_partitions:
  "p \<in> set (partitions part n) \<longleftrightarrow> (\<exists>k\<le>n. p = part + of_nat k * SLOTS_PER_PARTITION)"
  unfolding partitions_def set_map set_upt by (auto simp: less_Suc_eq_le)

lemma unat_next_partition:
  "unat part + 1000000 < 2 ^ 64 \<Longrightarrow> unat (part + SLOTS_PER_PARTITION) = unat part + 1000000"
  by (simp add: const_defs unat_word_ariths)

lemma export_parts_exit:
  "last_part < part \<Longrightarrow> export_parts one full dir file last_part part n d = Some (d, Inr n)"
  by (subst export_parts.simps) (simp add: not_le [symmetric])

lemma export_parts_list:
  "unat last_part = unat part + n * 1000000 \<Longrightarrow> unat last_part + 1000000 < 2 ^ 64 \<Longrightarrow>
     export_parts one full dir file last_part part tot d =
       Some (export_list one full dir file last_part (partitions part n) tot d)"
proof (induction n arbitrary: part tot d)
  case 0
  then have last: "last_part = part" and nxt: "last_part < part + SLOTS_PER_PARTITION"
    by (simp_all add: word_unat_eq_iff word_less_nat_alt unat_next_partition)
  show ?case
    by (subst export_parts.simps)
      (use nxt in \<open>auto simp: last export_parts_exit split: prod.splits sum.splits\<close>)
next
  case (Suc n)
  then have "unat part + 1000000 < 2 ^ 64" by simp
  then have nxt: "unat last_part = unat (part + SLOTS_PER_PARTITION) + n * 1000000"
    using Suc.prems by (simp add: unat_next_partition)
  have le: "part \<le> last_part"
    using Suc.prems by (simp add: word_le_nat_alt)
  show ?case
    by (subst export_parts.simps)
      (use le in \<open>auto simp: partitions_Suc Suc.IH [OF nxt Suc.prems(2)] split: prod.splits sum.splits\<close>)
qed

section \<open>Each slot has one partition\<close>

lemma unat_partition_nth:
  assumes "unat part + n * 1000000 < 2 ^ 64" and "k \<le> n"
  shows "unat (part + of_nat k * SLOTS_PER_PARTITION) = unat part + k * 1000000"
proof -
  have small: "unat part + k * 1000000 < 2 ^ 64"
    using assms by (intro le_less_trans [OF _ assms(1)] add_left_mono mult_right_mono) auto
  have "part + of_nat k * SLOTS_PER_PARTITION = of_nat (unat part + k * 1000000)"
    by (simp add: const_defs)
  also have "unat \<dots> = unat part + k * 1000000"
    using small by (simp only: unat_of_nat take_bit_eq_mod len_of_numeral_defs) simp
  finally show ?thesis .
qed

definition in_partition :: "u64 \<Rightarrow> u64 \<Rightarrow> bool" where
  "in_partition part slot \<longleftrightarrow> part \<le> slot \<and> slot < part + SLOTS_PER_PARTITION"

lemma bucket_iff: "0 < d \<Longrightarrow> s div d = j \<longleftrightarrow> j * d \<le> s \<and> s < j * d + d" for d j s :: nat
  using dividend_less_div_times [of d s]
  by (auto intro: div_nat_eqI simp: mult.commute)

lemma in_partition_iff:
  assumes "unat part + 1000000 < 2 ^ 64" and "unat part mod 1000000 = 0"
  shows "in_partition part slot \<longleftrightarrow> partition_start slot = part"
proof -
  obtain j where j: "unat part = j * 1000000"
    using assms(2) div_mult_mod_eq [of "unat part" 1000000] by (metis add_0_right)
  have "unat slot div 1000000 * 1000000 = j * 1000000
      \<longleftrightarrow> j * 1000000 \<le> unat slot \<and> unat slot < j * 1000000 + 1000000"
    using bucket_iff [of 1000000 "unat slot" j] by simp
  then show ?thesis
    using assms(1) j
    by (simp add: in_partition_def word_le_nat_alt word_less_nat_alt unat_next_partition
        word_unat_eq_iff unat_partition_start)
qed

text \<open>The partitions a run visits for the bounds \<open>lo\<close> and \<open>hi\<close>.\<close>

definition partition_list :: "u64 \<Rightarrow> u64 \<Rightarrow> u64 list" where
  "partition_list lo hi =
     partitions (partition_start lo) (unat hi div 1000000 - unat lo div 1000000)"

definition slots_fit :: "u64 \<Rightarrow> bool" where
  "slots_fit hi \<longleftrightarrow> unat hi + 1000000 < 2 ^ 64"

lemma slots_fit_start: "slots_fit hi \<Longrightarrow> unat (partition_start hi) + 1000000 < 2 ^ 64"
  using partition_start_le [of hi] by (simp add: slots_fit_def)

lemma last_partition:
  "lo \<le> hi \<Longrightarrow> unat (partition_start hi) =
     unat (partition_start lo) + (unat hi div 1000000 - unat lo div 1000000) * 1000000"
  by (simp add: unat_partition_start word_le_nat_alt div_le_mono flip: add_mult_distrib)

lemma partition_list_nth:
  assumes "slots_fit hi" and "lo \<le> hi" and "p \<in> set (partition_list lo hi)"
  obtains k where "k \<le> unat hi div 1000000 - unat lo div 1000000"
    and "unat p = (unat lo div 1000000 + k) * 1000000"
proof -
  have fit: "unat (partition_start lo) + (unat hi div 1000000 - unat lo div 1000000) * 1000000 < 2 ^ 64"
    using slots_fit_start [OF assms(1)] last_partition [OF assms(2)] by simp
  obtain k where k: "k \<le> unat hi div 1000000 - unat lo div 1000000"
    "p = partition_start lo + of_nat k * SLOTS_PER_PARTITION"
    using assms(3) by (auto simp: partition_list_def set_partitions)
  then have "unat p = unat (partition_start lo) + k * 1000000"
    using unat_partition_nth [OF fit] by simp
  with k that show ?thesis by (simp add: unat_partition_start algebra_simps)
qed

lemma partition_list_aligned:
  assumes "slots_fit hi" and "lo \<le> hi" and "p \<in> set (partition_list lo hi)"
  shows "unat p mod 1000000 = 0" and "unat p \<le> unat hi" and "unat p + 1000000 < 2 ^ 64"
    and "partition_start p = p"
proof -
  obtain k where k: "k \<le> unat hi div 1000000 - unat lo div 1000000"
    "unat p = (unat lo div 1000000 + k) * 1000000"
    by (rule partition_list_nth [OF assms])
  show "unat p mod 1000000 = 0" by (simp add: k(2))
  have "unat lo div 1000000 \<le> unat hi div 1000000"
    using assms(2) by (simp add: word_le_nat_alt div_le_mono)
  then have "unat lo div 1000000 + k \<le> unat hi div 1000000" using k(1) by linarith
  then have "unat p \<le> unat hi div 1000000 * 1000000" unfolding k(2) by (rule mult_right_mono) simp
  then show le: "unat p \<le> unat hi" using div_times_less_eq_dividend [of "unat hi" 1000000] by linarith
  show "unat p + 1000000 < 2 ^ 64" using le assms(1) by (simp add: slots_fit_def)
  show "partition_start p = p" by (simp add: word_unat_eq_iff unat_partition_start k(2))
qed

lemma filter_step:
  "sorted (map f xs) \<Longrightarrow> a \<le> b \<Longrightarrow>
     filter (\<lambda>r. a \<le> f r \<and> f r < b) xs @ filter (\<lambda>r. f r = b) xs = filter (\<lambda>r. a \<le> f r \<and> f r < Suc b) xs"
proof (induction xs)
  case Nil
  then show ?case by simp
next
  case (Cons x xs)
  consider "f x < b" | "f x = b" | "b < f x" by linarith
  then show ?case
  proof cases
    case 2
    then have none: "filter (\<lambda>r. a \<le> f r \<and> f r < b) xs = []"
      using Cons.prems by (auto simp: filter_empty_conv)
    with 2 Cons show ?thesis by simp
  next
    case 3
    then have "filter (\<lambda>r. a \<le> f r \<and> f r < b) xs = []" and "filter (\<lambda>r. f r = b) xs = []"
      and "filter (\<lambda>r. a \<le> f r \<and> f r < Suc b) xs = []"
      using Cons.prems by (auto simp: filter_empty_conv)
    with 3 show ?thesis by simp
  qed (use Cons in auto)
qed

text \<open>A list sorted by a key is the concatenation of its key classes, in key order.\<close>

lemma concat_key_classes:
  "sorted (map f xs) \<Longrightarrow> a \<le> b \<Longrightarrow>
     concat (map (\<lambda>k. filter (\<lambda>r. f r = k) xs) [a..<b]) = filter (\<lambda>r. a \<le> f r \<and> f r < b) xs"
  by (induction b) (auto simp: filter_step le_Suc_eq filter_empty_conv)

definition partition_rows :: "('row \<Rightarrow> u64) \<Rightarrow> 'row list \<Rightarrow> u64 \<Rightarrow> 'row list" where
  "partition_rows slot_of src p = filter (\<lambda>r. in_partition p (slot_of r)) src"

lemma concat_partition_rows:
  assumes fit: "slots_fit hi" and le: "lo \<le> hi"
    and srt: "sorted (map (unat \<circ> slot_of) src)"
    and within: "list_all (\<lambda>r. lo \<le> slot_of r \<and> slot_of r \<le> hi) src"
  shows "concat (map (partition_rows slot_of src) (partition_list lo hi)) = src"
proof -
  define a where "a = unat lo div 1000000"
  define n where "n = unat hi div 1000000 - a"
  define f where "f = (\<lambda>r. unat (slot_of r) div 1000000)"
  have an: "a + n = unat hi div 1000000"
    using le by (simp add: a_def n_def word_le_nat_alt div_le_mono)
  have fits: "unat (partition_start lo) + n * 1000000 < 2 ^ 64"
    using slots_fit_start [OF fit] last_partition [OF le] by (simp add: n_def a_def)
  have rows: "partition_rows slot_of src (partition_start lo + of_nat k * SLOTS_PER_PARTITION)
      = filter (\<lambda>r. f r = a + k) src" if k: "k \<le> n" for k
  proof -
    define p where "p = partition_start lo + of_nat k * SLOTS_PER_PARTITION"
    have p: "unat p = (a + k) * 1000000"
      using unat_partition_nth [OF fits k] by (simp add: p_def a_def unat_partition_start algebra_simps)
    have "p \<in> set (partition_list lo hi)"
      using k by (auto simp: partition_list_def set_partitions p_def n_def a_def)
    note al = partition_list_aligned [OF fit le this]
    have "in_partition p s \<longleftrightarrow> unat s div 1000000 = a + k" for s
      by (simp add: in_partition_iff [OF al(3,1)] word_unat_eq_iff unat_partition_start p
          del: distrib_right_numeral)
    then show ?thesis by (simp add: partition_rows_def p_def f_def)
  qed
  have "concat (map (partition_rows slot_of src) (partition_list lo hi))
      = concat (map (\<lambda>k. filter (\<lambda>r. f r = a + k) src) [0..<Suc n])"
    unfolding partition_list_def partitions_def map_map
    by (intro arg_cong [where f = concat] map_cong) (auto simp: rows n_def a_def)
  also have "\<dots> = concat (map (\<lambda>k. filter (\<lambda>r. f r = k) src) (map (\<lambda>k. k + a) [0..<Suc n]))"
    by (simp only: map_map comp_def add.commute [of a])
  also have "map (\<lambda>k. k + a) [0..<Suc n] = [a..<a + Suc n]"
    by (simp only: map_add_upt add.commute)
  also have "concat (map (\<lambda>k. filter (\<lambda>r. f r = k) src) [a..<a + Suc n])
      = filter (\<lambda>r. a \<le> f r \<and> f r < a + Suc n) src"
  proof (rule concat_key_classes)
    show "sorted (map f src)"
      using srt by (auto simp: f_def sorted_iff_nth_mono div_le_mono)
  qed simp
  also have "\<dots> = src"
    using within an by (intro filter_True)
      (auto simp: f_def list_all_iff a_def word_le_nat_alt less_Suc_eq_le div_le_mono)
  finally show ?thesis .
qed

lemma list_all2_unique:
  assumes "\<And>x y z. P x y \<Longrightarrow> P x z \<Longrightarrow> y = z"
  shows "list_all2 P xs ys \<Longrightarrow> list_all2 P xs zs \<Longrightarrow> ys = zs"
proof (induction xs arbitrary: ys zs)
  case Nil
  then show ?case by simp
next
  case (Cons x xs)
  then obtain y ys' z zs' where "ys = y # ys'" "zs = z # zs'" "P x y" "P x z"
    "list_all2 P xs ys'" "list_all2 P xs zs'"
    by (auto simp: list_all2_Cons1)
  with Cons.IH assms show ?case by blast
qed

section \<open>A table as its partitions\<close>

lemma export_table_list:
  assumes "slots_fit (bd_hi b)" and "bd_lo b \<le> bd_hi b" and "bd_rows b \<noteq> 0"
  shows "export_table tbl one full dir file (Inr b) d =
    (let (d', r) = export_list one full dir file (partition_start (bd_hi b))
                     (partition_list (bd_lo b) (bd_hi b)) 0 d
     in Some (d', case r of Inl e \<Rightarrow> Inl e | Inr n \<Rightarrow> Inr (count_verdict n (bd_rows b))))"
  using export_parts_list [OF last_partition [OF assms(2)] slots_fit_start [OF assms(1)]] assms(3)
  by (simp add: export_table_def partition_list_def split: prod.splits)

lemma partition_list_facts:
  assumes "slots_fit hi" and "lo \<le> hi"
  shows "list_all (\<lambda>p. partition_start p = p) (partition_list lo hi)" and "distinct (partition_list lo hi)"
proof -
  show "list_all (\<lambda>p. partition_start p = p) (partition_list lo hi)"
    using partition_list_aligned(4) [OF assms] by (auto simp: list_all_iff)
  define n where "n = unat hi div 1000000 - unat lo div 1000000"
  have fits: "unat (partition_start lo) + n * 1000000 < 2 ^ 64"
    using slots_fit_start [OF assms(1)] last_partition [OF assms(2)] by (simp add: n_def)
  have "inj_on (\<lambda>k. partition_start lo + of_nat k * SLOTS_PER_PARTITION) (set [0..<Suc n])"
  proof (rule inj_onI)
    fix i j
    assume "i \<in> set [0..<Suc n]" and "j \<in> set [0..<Suc n]"
      and eq: "partition_start lo + of_nat i * SLOTS_PER_PARTITION = partition_start lo + of_nat j * SLOTS_PER_PARTITION"
    then have i: "i \<le> n" and j: "j \<le> n" by auto
    have "unat (partition_start lo) + i * 1000000 = unat (partition_start lo) + j * 1000000"
      using eq unat_partition_nth [OF fits i] unat_partition_nth [OF fits j] by metis
    then show "i = j" by simp
  qed
  then show "distinct (partition_list lo hi)"
    unfolding partition_list_def partitions_def n_def distinct_map by simp
qed

section \<open>What the loop leaves on the disk\<close>

text \<open>Exporting a partition only touches files of its own directory.\<close>

locale partition_exporter =
  fixes one :: "u64 \<Rightarrow> u64 \<Rightarrow> disk \<Rightarrow> disk \<times> (export_error + u64)" and dir :: path and fname :: string
  assumes frame: "(\<And>x. q \<noteq> dir @ [partition_dir lo, x]) \<Longrightarrow> dk_files (fst (one lo hi d)) q = dk_files d q"
begin

lemma other_partition:
  "partition_start p = p \<Longrightarrow> partition_start q = q \<Longrightarrow> p \<noteq> q \<Longrightarrow>
     dk_files (fst (one p hi d)) (final_path dir q fname) = dk_files d (final_path dir q fname)"
  using partition_dir_eq_iff [of q p] by (intro frame) (simp add: final_path_def)

lemma list_other:
  "list_all (\<lambda>p. partition_start p = p) ps \<Longrightarrow> partition_start q = q \<Longrightarrow> q \<notin> set ps \<Longrightarrow>
     dk_files (fst (export_list one full dir fname last_part ps n d)) (final_path dir q fname)
       = dk_files d (final_path dir q fname)"
proof (induction ps arbitrary: n d)
  case Nil
  then show ?case by simp
next
  case (Cons p ps)
  then have "dk_files (fst (one p hi d)) (final_path dir q fname) = dk_files d (final_path dir q fname)" for hi d
    by (intro other_partition) auto
  then show ?case
    using Cons by (auto split: prod.splits sum.splits) (metis fst_conv)+
qed

lemma list_frame:
  "(\<And>p x. q \<noteq> dir @ [partition_dir p, x]) \<Longrightarrow>
     dk_files (fst (export_list one full dir fname last_part ps n d)) q = dk_files d q"
proof (induction ps arbitrary: n d)
  case (Cons p ps)
  then have "dk_files (fst (one p hi d)) q = dk_files d q" for hi d
    by (intro frame)
  with Cons show ?case by (auto split: prod.splits sum.splits) (metis fst_conv)+
qed simp

lemma list_skips:
  "list_all (\<lambda>p. partition_start p = p) ps \<Longrightarrow> partition_start q = q \<Longrightarrow> q \<noteq> last_part \<Longrightarrow>
     dk_files d (final_path dir q fname) \<noteq> None \<Longrightarrow>
     dk_files (fst (export_list one False dir fname last_part ps n d)) (final_path dir q fname)
       = dk_files d (final_path dir q fname)"
proof (induction ps arbitrary: n d)
  case Nil
  then show ?case by simp
next
  case (Cons p ps)
  show ?case
  proof (cases "p = q")
    case True
    with Cons show ?thesis by (simp add: skips_def)
  next
    case False
    obtain d1 r where one: "one p (p + SLOTS_PER_PARTITION) d = (d1, r)" by fastforce
    have "dk_files d1 (final_path dir q fname) = dk_files d (final_path dir q fname)"
      using other_partition [of p q "p + SLOTS_PER_PARTITION" d] Cons.prems False by (simp add: one)
    with Cons.IH [of d1] Cons.IH [of d] Cons.prems show ?thesis
      by (auto simp: one split: sum.splits)
  qed
qed

end

context column_builder
begin

lemma export_one_frame:
  assumes "\<And>x. q \<noteq> dir @ [partition_dir lo, x]"
  shows "dk_files (fst (export_one te io query lo hi dir d)) q = dk_files d q"
  using assms by (subst export_one_files) (simp add: final_path_def tmp_path_def)

end

sublocale column_builder \<subseteq> parts: partition_exporter "\<lambda>lo hi. export_one te io query lo hi dir" dir "te_file te"
  for io query dir
  by unfold_locales (rule export_one_frame)

text \<open>Without failures and with nothing to skip, every partition's rows end up in its file.\<close>

context column_builder
begin

lemma list_complete:
  fixes dir :: path
  assumes io: "\<And>k. io k" and acc: "takes_well_typed accepts"
    and query: "\<And>p. \<exists>items. query p (p + SLOTS_PER_PARTITION) = Inr items \<and> list_all2 (reads parse) items (rows_in p)"
  defines "one \<equiv> \<lambda>lo hi. export_one te io query lo hi dir"
    and "final \<equiv> \<lambda>p. final_path dir p (te_file te)"
  shows "list_all (\<lambda>p. partition_start p = p) ps \<Longrightarrow> distinct ps \<Longrightarrow>
     full \<or> list_all (\<lambda>p. dk_files d (final p) = None) ps \<Longrightarrow>
     \<exists>d' n'. export_list one full dir (te_file te) last_part ps n d = (d', Inr n')
       \<and> n' = n + of_nat (length (concat (map rows_in ps)))
       \<and> (\<forall>p\<in>set ps. rows_in p \<noteq> [] \<longrightarrow> holds_rows (te_schema te) columns (rows_in p) (dk_files d' (final p)))"
proof (induction ps arbitrary: n d)
  case Nil
  then show ?case by simp
next
  case (Cons p ps)
  obtain items where items: "query p (p + SLOTS_PER_PARTITION) = Inr items"
    "list_all2 (reads parse) items (rows_in p)"
    using query by blast
  obtain d1 where d1: "one p (p + SLOTS_PER_PARTITION) d = (d1, Inr (of_nat (length (rows_in p))))"
    using export_one_succeeds [of query p "p + SLOTS_PER_PARTITION" items "rows_in p" io dir d] items io acc
    unfolding one_def by (metis prod.collapse)
  have file_p: "rows_in p \<noteq> [] \<Longrightarrow> holds_rows (te_schema te) columns (rows_in p) (dk_files d1 (final p))"
  proof -
    assume ne: "rows_in p \<noteq> []"
    obtain rs where rs: "list_all2 (reads parse) items rs"
      "rs \<noteq> [] \<Longrightarrow> holds_rows (te_schema te) columns rs (dk_files d1 (final p))"
      using export_one_Inr [OF d1 [unfolded one_def]] items(1) by (auto simp: final_def split: if_splits)
    have "rs = rows_in p"
      by (rule list_all2_unique [OF _ rs(1) items(2)]) (auto simp: reads_def split: sum.splits)
    with ne rs(2) show ?thesis by simp
  qed
  have others: "dk_files d1 (final q) = dk_files d (final q)" if "q \<in> set ps" for q
    using parts.other_partition [of p q io query "p + SLOTS_PER_PARTITION" dir d] d1 that Cons.prems
    by (auto simp: one_def final_def list_all_iff)
  have skip: "\<not> skips full p last_part (final p) d"
    using Cons.prems by (auto simp: skips_def)
  have "full \<or> list_all (\<lambda>p. dk_files d1 (final p) = None) ps"
    using Cons.prems others by (auto simp: list_all_iff)
  then obtain d' n' where d': "export_list one full dir (te_file te) last_part ps
      (n + of_nat (length (rows_in p))) d1 = (d', Inr n')"
    and total: "n' = n + of_nat (length (rows_in p)) + of_nat (length (concat (map rows_in ps)))"
    and rest: "\<forall>p\<in>set ps. rows_in p \<noteq> [] \<longrightarrow> holds_rows (te_schema te) columns (rows_in p) (dk_files d' (final p))"
    using Cons.IH [of d1 "n + of_nat (length (rows_in p))"] Cons.prems by auto
  have "dk_files d' (final p) = dk_files d1 (final p)"
  proof -
    have "list_all (\<lambda>p. partition_start p = p) ps" "partition_start p = p" "p \<notin> set ps"
      using Cons.prems by auto
    from parts.list_other [OF this, of io query dir full last_part "n + of_nat (length (rows_in p))" d1]
    show ?thesis using d' by (simp add: one_def final_def)
  qed
  with rest file_p d' d1 skip total show ?case
    by (auto simp: final_def)
qed

text \<open>Then a whole table is published, and nothing outside its directory is touched.\<close>

lemma table_complete:
  assumes "slots_fit (bd_hi b)" and "bd_lo b \<le> bd_hi b" and empty: "bd_rows b = 0 \<Longrightarrow> \<forall>p. rows_in p = []"
    and query: "\<And>p. \<exists>items. query p (p + SLOTS_PER_PARTITION) = Inr items \<and> list_all2 (reads parse) items (rows_in p)"
    and io: "\<And>k. io k" and acc: "takes_well_typed accepts"
    and free: "full \<or> list_all (\<lambda>p. dk_files d (final_path dir p (te_file te)) = None) (partition_list (bd_lo b) (bd_hi b))"
  shows "\<exists>d' v. export_table tbl (\<lambda>lo hi. export_one te io query lo hi dir) full dir (te_file te) (Inr b) d = Some (d', Inr v)
    \<and> v = (if bd_rows b = 0 then Table_Empty
         else count_verdict (of_nat (length (concat (map rows_in (partition_list (bd_lo b) (bd_hi b)))))) (bd_rows b))
    \<and> (\<forall>p \<in> set (partition_list (bd_lo b) (bd_hi b)). rows_in p \<noteq> [] \<longrightarrow>
         holds_rows (te_schema te) columns (rows_in p) (dk_files d' (final_path dir p (te_file te))))
    \<and> (\<forall>q. (\<forall>p x. q \<noteq> dir @ [partition_dir p, x]) \<longrightarrow> dk_files d' q = dk_files d q)"
proof (cases "bd_rows b = 0")
  case True
  with empty show ?thesis by (simp add: export_table_def)
next
  case False
  let ?ps = "partition_list (bd_lo b) (bd_hi b)" and ?last = "partition_start (bd_hi b)"
  let ?run = "export_list (\<lambda>lo hi. export_one te io query lo hi dir) full dir (te_file te) ?last ?ps 0 d"
  from list_complete [where io = io and query = query and rows_in = rows_in and n = 0 and last_part = ?last,
      OF io acc query partition_list_facts [OF assms(1,2)] free, unfolded add_0]
  obtain d' n where run: "?run = (d', Inr n)" and n: "n = of_nat (length (concat (map rows_in ?ps)))"
    and files: "\<forall>p \<in> set ?ps. rows_in p \<noteq> [] \<longrightarrow>
      holds_rows (te_schema te) columns (rows_in p) (dk_files d' (final_path dir p (te_file te)))" by blast
  have "dk_files d' q = dk_files d q" if "\<forall>p x. q \<noteq> dir @ [partition_dir p, x]" for q
    using parts.list_frame [of q dir io query full ?last ?ps 0 d] that run by simp
  with files show ?thesis
    by (simp add: export_table_list [OF assms(1,2) False] run n False)
qed

end

section \<open>Properties\<close>

lemma updates_file [simp]: "te_file (updates_export accepts) = ''account_updates.parquet''"
  and updates_schema [simp]: "te_schema (updates_export accepts) = account_updates_schema"
  by (simp_all add: updates_export_def)

lemma snapshots_file [simp]: "te_file (snapshots_export accepts) = ''obligation_snapshots.parquet''"
  and snapshots_schema [simp]: "te_schema (snapshots_export accepts) = obligation_snapshots_schema"
  by (simp_all add: snapshots_export_def)

lemmas updates_one = cold_updates.export_one_files [unfolded updates_file]
  cold_updates.export_one_Inl [unfolded updates_file]
  cold_updates.export_one_Inr [unfolded updates_file updates_schema]

lemmas snapshots_one_Inr = cold_snapshots.export_one_Inr [unfolded snapshots_file snapshots_schema]

lemma batch_of_columns [simp]: "rb_columns (batch_of sch columns rows) = columns rows"
  by (simp add: batch_of_def)

text \<open>
  C9 One exported partition is published atomically. Whatever file operation fails, no file but
  the partition's temporary and final one changes and on an error the final one is as before;
  on success the query's rows all decoded, the count is theirs, and the final file is complete
  and holds exactly them, in order, in row groups of at most 8192, with no temporary file left.
  An empty range leaves no file.
\<close>

theorem export_partition_publishes:
  "let final = final_path dir lo ''account_updates.parquet'';
       tmp = tmp_path dir lo ''account_updates.parquet'';
       (d', r) = export_partition accepts io query lo hi dir d
   in dk_files d' = (dk_files d)(tmp := dk_files d' tmp, final := dk_files d' final)
     \<and> (case r of
          Inl e \<Rightarrow> dk_files d' final = dk_files d final
        | Inr n \<Rightarrow> \<exists>items rows. query lo hi = Inr items \<and> list_all2 (reads cold_update_of) items rows
            \<and> n = of_nat (length rows)
            \<and> (if rows = [] then dk_files d' = dk_files d
               else dk_files d' tmp = None
                 \<and> holds_rows account_updates_schema update_columns rows (dk_files d' final)))"
proof -
  obtain d' r where one: "export_partition accepts io query lo hi dir d = (d', r)" by fastforce
  note facts = updates_one [where io = io and query = query and lo = lo and hi = hi
      and dir = dir and d = d and accepts = accepts]
  show ?thesis
    using one facts(1,2) facts(3) [of d'] by (cases r) (simp_all add: export_partition_def)
qed

text \<open>
  C22 Every row group of a published snapshot file is well typed for its schema: the columns
  have its types in its order and one length, keys are 32 bytes, and each fixed-point value is
  at least zero and fits 38 decimal digits.
\<close>

theorem snapshot_groups_typed:
  "case export_snapshot_partition accepts io query lo hi dir d of
     (d', Inl e) \<Rightarrow> True
   | (d', Inr n) \<Rightarrow>
       (if n = 0 then True
        else case dk_files d' (final_path dir lo ''obligation_snapshots.parquet'') of
          Some (Complete sch batches) \<Rightarrow>
            sch = obligation_snapshots_schema
            \<and> list_all (\<lambda>b. well_typed (num_rows b) sch (rb_columns b)) batches
            \<and> of_nat (sum_list (map num_rows batches)) = n
        | _ \<Rightarrow> False)"
proof -
  obtain d' r where one: "export_snapshot_partition accepts io query lo hi dir d = (d', r)" by fastforce
  show ?thesis
  proof (cases r)
    case (Inr n)
    obtain items rows where rows: "list_all2 (reads cold_snapshot_of) items rows" "n = of_nat (length rows)"
      and on_disk: "if rows = [] then dk_files d' = dk_files d
        else dk_files d' (tmp_path dir lo ''obligation_snapshots.parquet'') = None
          \<and> holds_rows obligation_snapshots_schema snapshot_columns rows
             (dk_files d' (final_path dir lo ''obligation_snapshots.parquet''))"
      using snapshots_one_Inr [where io = io and query = query and lo = lo and hi = hi
        and dir = dir and d = d and accepts = accepts and d' = d' and n = n] one Inr
      unfolding export_snapshot_partition_def by blast
    have ok: "list_all snapshot_ok rows"
      using rows(1) by (induction items rows rule: list_all2_induct)
        (auto simp: reads_def dest: cold_snapshot_of_ok split: sum.splits)
    show ?thesis
    proof (cases "rows = []")
      case False
      then obtain groups where groups: "concat groups = rows"
        and final: "dk_files d' (final_path dir lo ''obligation_snapshots.parquet'')
          = Some (Complete obligation_snapshots_schema (map (batch_of obligation_snapshots_schema snapshot_columns) groups))"
        using on_disk unfolding holds_rows_def by auto
      have "list_all snapshot_ok g" if "g \<in> set groups" for g
        using ok that groups by (auto simp: list_all_iff)
      then have "list_all (\<lambda>b. well_typed (num_rows b) obligation_snapshots_schema (rb_columns b))
          (map (batch_of obligation_snapshots_schema snapshot_columns) groups)"
        by (auto simp: list_all_iff [of _ "map f xs" for f xs] snapshots_num snapshot_columns_typed)
      moreover have "sum_list (map num_rows (map (batch_of obligation_snapshots_schema snapshot_columns) groups))
          = length rows"
        by (simp add: comp_def snapshots_num length_concat flip: groups)
      ultimately show ?thesis
        using one Inr final rows(2) by simp
    qed (use one Inr rows in simp)
  qed (simp add: one)
qed

text \<open>
  C18 The loop over partitions ends: with the newest slot at least a million below the end of the
  64-bit range, a table's export visits exactly the partitions from the oldest slot's to the
  newest slot's, in order, and then reports on the row count.
\<close>

theorem export_table_returns:
  assumes "slots_fit (bd_hi b)" and "bd_lo b \<le> bd_hi b" and "bd_rows b \<noteq> 0"
  shows "\<exists>d' r. export_list one full dir file (partition_start (bd_hi b))
                     (partition_list (bd_lo b) (bd_hi b)) 0 d = (d', r)
    \<and> export_table tbl one full dir file (Inr b) d =
        Some (d', case r of Inl e \<Rightarrow> Inl e | Inr n \<Rightarrow> Inr (count_verdict n (bd_rows b)))"
  using export_table_list [OF assms] by (cases "export_list one full dir file
    (partition_start (bd_hi b)) (partition_list (bd_lo b) (bd_hi b)) 0 d") simp

theorem export_table_returns_witness:
  "\<exists>d' r. export_list (\<lambda>lo hi d. (d, Inr 1)) True [] ''f'' 1000000 (partition_list 5 1000007) 0
            \<lparr>dk_files = Map.empty, dk_io = 0\<rparr> = (d', r)
    \<and> export_table ''t'' (\<lambda>lo hi d. (d, Inr 1)) True [] ''f'' (Inr \<lparr>bd_lo = 5, bd_hi = 1000007, bd_rows = 2\<rparr>)
        \<lparr>dk_files = Map.empty, dk_io = 0\<rparr> =
        Some (d', case r of Inl e \<Rightarrow> Inl e | Inr n \<Rightarrow> Inr (count_verdict n 2))"
proof -
  define b where "b = \<lparr>bd_lo = 5, bd_hi = 1000007, bd_rows = 2\<rparr>"
  have "slots_fit (bd_hi b)" "bd_lo b \<le> bd_hi b" "bd_rows b \<noteq> 0"
    by (simp_all add: b_def slots_fit_def)
  from export_table_returns [OF this] show ?thesis
    by (simp add: b_def partition_start_def const_defs cong: sum.case_cong)
qed

text \<open>A run with no failure and nothing to skip publishes every partition.\<close>

lemmas updates_complete = cold_updates.table_complete [unfolded updates_file updates_schema, folded export_partition_def]

lemmas snapshots_complete =
  cold_snapshots.table_complete [unfolded snapshots_file snapshots_schema, folded export_snapshot_partition_def]

text \<open>
  C7 With no failure and no partition to skip, the exported copy is complete: every partition
  with rows has a complete file holding exactly its rows in order, and the files read in
  partition order are the source table in slot order. The query is assumed to return the rows
  of its slot range in slot order, as its \<open>WHERE\<close> and \<open>ORDER BY\<close> say, and \<open>RecordBatch::try_new\<close> to take columns that
  have the types of the schema's fields and one length; that the columns of the rows have them is part of the proof.
\<close>

theorem cold_copy_complete:
  assumes "slots_fit (bd_hi b)" and "bd_lo b \<le> bd_hi b" and "bd_rows b \<noteq> 0"
    and "sorted (map (unat \<circ> cu_slot) src)"
    and "list_all (\<lambda>r. bd_lo b \<le> cu_slot r \<and> cu_slot r \<le> bd_hi b) src"
    and "\<And>p. \<exists>items. query p (p + SLOTS_PER_PARTITION) = Inr items
           \<and> list_all2 (reads cold_update_of) items (partition_rows cu_slot src p)"
    and "\<And>k. io k" and "takes_well_typed accepts"
    and "full \<or> list_all (\<lambda>p. dk_files d (final_path dir p ''account_updates.parquet'') = None)
                   (partition_list (bd_lo b) (bd_hi b))"
  shows "\<exists>d' v. export_table ''account_updates'' (\<lambda>lo hi. export_partition accepts io query lo hi dir) full
                   dir ''account_updates.parquet'' (Inr b) d = Some (d', Inr v)
    \<and> (\<forall>p\<in>set (partition_list (bd_lo b) (bd_hi b)). partition_rows cu_slot src p \<noteq> [] \<longrightarrow>
         holds_rows account_updates_schema update_columns (partition_rows cu_slot src p)
           (dk_files d' (final_path dir p ''account_updates.parquet'')))
    \<and> concat (map (partition_rows cu_slot src) (partition_list (bd_lo b) (bd_hi b))) = src"
proof -
  have "bd_rows b = 0 \<Longrightarrow> \<forall>p. partition_rows cu_slot src p = []"
    using assms(3) by simp
  from updates_complete [where dir = dir and tbl = "''account_updates''" and query = query and io = io
      and accepts = accepts and d = d and full = full and rows_in = "partition_rows cu_slot src", OF assms(1,2) this assms(6-9)]
    concat_partition_rows [OF assms(1,2,4,5)]
  show ?thesis by blast
qed

text \<open>
  C27 A run without \<open>KLEND_PARQUET_FULL\<close> leaves the file of every partition but the newest one's
  as it finds it, whatever rows the source has for it now: a partition first exported while it
  was the newest is skipped for good once the stream has moved past it.
\<close>

theorem closed_partition_stays:
  assumes "slots_fit (bd_hi b)" and "bd_lo b \<le> bd_hi b" and "bd_rows b \<noteq> 0"
    and "partition_start p = p" and "p \<noteq> partition_start (bd_hi b)"
    and "dk_files d (final_path dir p ''account_updates.parquet'') \<noteq> None"
  shows "map_option (\<lambda>(d', r). dk_files d' (final_path dir p ''account_updates.parquet''))
      (export_table ''account_updates'' (\<lambda>lo hi. export_partition accepts io query lo hi dir) False
         dir ''account_updates.parquet'' (Inr b) d)
    = Some (dk_files d (final_path dir p ''account_updates.parquet''))"
proof -
  have present: "dk_files d (final_path dir p (te_file (updates_export accepts))) \<noteq> None"
    using assms(6) by simp
  show ?thesis
    using cold_updates.parts.list_skips [OF partition_list_facts(1) [OF assms(1,2)] assms(4,5) present,
        of io query 0]
    by (auto simp: export_table_list [OF assms(1-3)] export_partition_def split: prod.splits)
qed

section \<open>The assumptions can hold\<close>

definition demo_row :: "u64 \<Rightarrow> export_row" where
  "demo_row slot =
     \<lparr>er_slot = slot, er_write_version = 1, er_pubkey_hex = concat (map hex_byte (replicate 32 0x11)),
      er_kind = ''Obligation'', er_owner_hex = concat (map hex_byte (replicate 32 0)),
      er_lamports = 1, er_data = [], er_data_len = 0, er_ingested_at_ms = 0\<rparr>"

definition demo_update :: "u64 \<Rightarrow> cold_update" where
  "demo_update slot =
     \<lparr>cu_slot = slot, cu_write_version = 1, cu_pubkey = replicate 32 0x11, cu_kind = ''Obligation'',
      cu_owner = replicate 32 0, cu_lamports = 1, cu_data = [], cu_data_len = 0, cu_ingested_at = 0\<rparr>"

definition demo_query :: "u64 list \<Rightarrow> export_row slot_query" where
  "demo_query slots lo hi = Inr (map (\<lambda>s. Inr (demo_row s)) (filter (\<lambda>s. lo \<le> s \<and> s < hi) slots))"

lemma demo_row_reads: "cold_update_of (demo_row s) = Inr (demo_update s)"
proof -
  have key: "decode_pubkey_hex (concat (map hex_byte key)) what slot = Inr key" if "length key = 32"
    for key what slot
    using that by (simp add: decode_pubkey_hex_iff writes_hex_bytes)
  show ?thesis
    unfolding cold_update_of_def demo_row_def demo_update_def
    by (simp add: key del: map_replicate)
qed

lemma demo_query_reads:
  "list_all2 (reads cold_update_of) (map (\<lambda>s. Inr (demo_row s)) slots) (map demo_update slots)"
  by (simp add: list.rel_map demo_row_reads list.rel_refl)

lemma demo_partition_rows:
  "partition_rows cu_slot (map demo_update slots) p =
     map demo_update (filter (\<lambda>s. p \<le> s \<and> s < p + SLOTS_PER_PARTITION) slots)"
  by (simp add: partition_rows_def filter_map comp_def in_partition_def demo_update_def)

theorem cold_copy_complete_witness:
  "\<exists>d' v. export_table ''account_updates''
       (\<lambda>lo hi. export_partition type_check (\<lambda>_. True) (demo_query [5, 1000007]) lo hi []) False
       [] ''account_updates.parquet'' (Inr \<lparr>bd_lo = 5, bd_hi = 1000007, bd_rows = 2\<rparr>)
       \<lparr>dk_files = Map.empty, dk_io = 0\<rparr> = Some (d', Inr v)"
proof -
  define b where "b = \<lparr>bd_lo = 5, bd_hi = 1000007, bd_rows = 2\<rparr>"
  define src where "src = map demo_update [5, 1000007]"
  have "slots_fit (bd_hi b)" "bd_lo b \<le> bd_hi b" "bd_rows b \<noteq> 0"
    "sorted (map (unat \<circ> cu_slot) src)" "list_all (\<lambda>r. bd_lo b \<le> cu_slot r \<and> cu_slot r \<le> bd_hi b) src"
    by (simp_all add: b_def slots_fit_def src_def demo_update_def)
  moreover have "\<exists>items. demo_query [5, 1000007] p (p + SLOTS_PER_PARTITION) = Inr items
      \<and> list_all2 (reads cold_update_of) items (partition_rows cu_slot src p)" for p
    unfolding src_def demo_partition_rows demo_query_def
    by (rule exI, rule conjI, rule refl, rule demo_query_reads)
  moreover have "False \<or> list_all (\<lambda>p. dk_files \<lparr>dk_files = Map.empty, dk_io = 0\<rparr>
      (final_path [] p ''account_updates.parquet'') = None) (partition_list (bd_lo b) (bd_hi b))"
    by (simp add: list_all_iff)
  ultimately show ?thesis
    using type_check_takes cold_copy_complete [of b src "demo_query [5, 1000007]" "\<lambda>_. True" type_check False
        "\<lparr>dk_files = Map.empty, dk_io = 0\<rparr>" "[]"]
    unfolding b_def by blast
qed

text \<open>
  The earlier run stored slot 5 while partition 0 was the newest; slot 9 arrived before the
  stream moved on, and the next run does not store it.
\<close>

theorem closed_partition_stays_witness:
  "let old = Complete account_updates_schema [batch_of account_updates_schema update_columns [demo_update 5]];
       src = map demo_update [5, 9, 1500000];
       run = export_table ''account_updates''
         (\<lambda>lo hi. export_partition type_check (\<lambda>_. True) (demo_query [5, 9, 1500000]) lo hi []) False
         [] ''account_updates.parquet'' (Inr \<lparr>bd_lo = 5, bd_hi = 1500000, bd_rows = 3\<rparr>)
         \<lparr>dk_files = [final_path [] 0 ''account_updates.parquet'' \<mapsto> old], dk_io = 0\<rparr>
   in map_option (\<lambda>(d, r). dk_files d (final_path [] 0 ''account_updates.parquet'')) run = Some (Some old)
      \<and> partition_rows cu_slot src 0 = [demo_update 5, demo_update 9]"
proof -
  define b where "b = \<lparr>bd_lo = 5, bd_hi = 1500000, bd_rows = 3\<rparr>"
  define d where "d = \<lparr>dk_files = [final_path [] 0 ''account_updates.parquet'' \<mapsto>
      Complete account_updates_schema [batch_of account_updates_schema update_columns [demo_update 5]]], dk_io = 0\<rparr>"
  have "slots_fit (bd_hi b)" "bd_lo b \<le> bd_hi b" "bd_rows b \<noteq> 0" "partition_start 0 = 0"
    "0 \<noteq> partition_start (bd_hi b)" "dk_files d (final_path [] 0 ''account_updates.parquet'') \<noteq> None"
    by (simp_all add: b_def d_def slots_fit_def partition_start_def const_defs)
  from closed_partition_stays [OF this, of type_check "\<lambda>_. True" "demo_query [5, 9, 1500000]"]
  moreover have "partition_rows cu_slot (map demo_update [5, 9, 1500000]) 0 = [demo_update 5, demo_update 9]"
    unfolding demo_partition_rows by (simp add: const_defs)
  ultimately show ?thesis
    by (simp add: Let_def b_def d_def)
qed

end
