(* ===== verification/Merge.thy ===== *)
theory Merge
  imports Export_Run Indexer_Facts "HOL-Library.Product_Lexorder" "HOL-Library.List_Lexorder"
begin

text \<open>
  The tables as the statements of the program see them. Every table is a \<open>ReplacingMergeTree\<close>
  (\<open>schema/*.sql\<close>): of the rows with equal \<open>ORDER BY\<close> key a query with \<open>FINAL\<close> sees the one ingested
  last. How the server merges is a parameter of the statements; \<open>replaces\<close> is what it is documented to
  do, and \<open>replacing\<close> one function that does it. \<open>select_updates\<close> and \<open>select_snapshots\<close> are the two statements of \<open>src/bin/parquet_export.rs\<close>
  that stream a slot range, \<open>table_bounds\<close> the one that reads the bounds of a table.
\<close>

section \<open>Merging\<close>

text \<open>
  \<open>ReplacingMergeTree(version)\<close>: of several rows with one key the one of the greatest version stays,
  and of those the one inserted last.
\<close>

fun replacing :: "('r \<Rightarrow> 'k) \<Rightarrow> ('r \<Rightarrow> 'v::linorder) \<Rightarrow> 'r list \<Rightarrow> 'r list" where
  "replacing key version [] = []"
| "replacing key version (r # rs) =
     (if \<exists>s \<in> set rs. key s = key r \<and> version r \<le> version s then replacing key version rs
      else r # filter (\<lambda>s. key s \<noteq> key r) (replacing key version rs))"

lemma set_replacing: "set (replacing key version rs) \<subseteq> set rs"
  by (induction rs) auto

lemma keys_replacing: "key ` set (replacing key version rs) = key ` set rs"
proof (induction rs)
  case (Cons r rs)
  show ?case
  proof (cases "\<exists>s \<in> set rs. key s = key r \<and> version r \<le> version s")
    case True
    then have "key r \<in> key ` set rs" by (metis imageI)
    with True Cons show ?thesis by (simp add: insert_absorb)
  next
    case False
    have "key ` {s \<in> set (replacing key version rs). key s \<noteq> key r} = key ` set (replacing key version rs) - {key r}"
      by auto
    with Cons have "insert (key r) (key ` {s \<in> set (replacing key version rs). key s \<noteq> key r})
        = insert (key r) (key ` set rs)" by simp
    moreover have "replacing key version (r # rs) = r # filter (\<lambda>s. key s \<noteq> key r) (replacing key version rs)"
      by (subst replacing.simps, subst if_not_P [OF False]) (rule refl)
    ultimately show ?thesis by (simp del: replacing.simps)
  qed
qed simp

lemma distinct_replacing: "distinct (map key (replacing key version rs))"
  by (induction rs) (auto simp: distinct_map_filter)

lemma replacing_greatest:
  "r \<in> set (replacing key version rs) \<Longrightarrow> s \<in> set rs \<Longrightarrow> key s = key r \<Longrightarrow> version s \<le> version r"
proof (induction rs arbitrary: s)
  case (Cons x rs)
  show ?case
  proof (cases "\<exists>s \<in> set rs. key s = key x \<and> version x \<le> version s")
    case True
    with Cons.prems have r: "r \<in> set (replacing key version rs)" by simp
    from True obtain y where y: "y \<in> set rs" "key y = key x" "version x \<le> version y" by blast
    show ?thesis
    proof (cases "s = x")
      case True
      with y Cons.prems(3) Cons.IH [OF r y(1)] have "version y \<le> version r" by simp
      with y(3) True show ?thesis by simp
    qed (use Cons.prems r in \<open>auto intro: Cons.IH\<close>)
  next
    case False
    with Cons show ?thesis by (auto simp: not_le intro: less_imp_le)
  qed
qed simp

lemma filter_replacing:
  "filter (\<lambda>r. P (key r)) (replacing key version rs) = replacing key version (filter (\<lambda>r. P (key r)) rs)"
proof (induction rs)
  case (Cons r rs)
  have "filter (\<lambda>s. P (key s)) (filter (\<lambda>s. key s \<noteq> key r) xs) =
      (if P (key r) then filter (\<lambda>s. key s \<noteq> key r) (filter (\<lambda>s. P (key s)) xs)
       else filter (\<lambda>s. P (key s)) xs)" for xs
    by (induction xs) auto
  with Cons show ?case by auto
qed simp

text \<open>
  For a table with one key per stream, written in the order of its clock, \<open>FINAL\<close> leaves the newest
  row of the stream. This is what the indexer's checkpoint query relies on.
\<close>

lemma replacing_same_key:
  "\<forall>r \<in> set rs. key r = k \<Longrightarrow> sorted (map version rs) \<Longrightarrow>
     replacing key version rs = (if rs = [] then [] else [last rs])"
proof (induction rs)
  case (Cons r rs)
  then have "(\<exists>s \<in> set rs. key s = key r \<and> version r \<le> version s) \<longleftrightarrow> rs \<noteq> []" by (cases rs) auto
  moreover have "sorted (map version rs)" using Cons.prems(2) by simp
  ultimately show ?case using Cons by simp
qed simp

lemma final_checkpoint:
  assumes "mono clock"
  shows "map fst (filter (\<lambda>s. ck_stream (fst s) = STREAM)
      (replacing (ck_stream \<circ> fst) snd (map (\<lambda>(i, r). (r, clock i)) (enumerate 0 (t_checkpoint db))))) =
     (case newest (stream_rows db) of None \<Rightarrow> [] | Some r \<Rightarrow> [r])"
proof -
  define rows where "rows = map (\<lambda>(i, r). (r, clock i)) (enumerate 0 (t_checkpoint db))"
  define mine where "mine = filter (\<lambda>s. ck_stream (fst s) = STREAM) rows"
  have "map fst rows = t_checkpoint db"
    by (simp add: rows_def comp_def split_def)
  then have fst: "map fst mine = stream_rows db"
    unfolding mine_def stream_rows_def by (metis (mono_tags, lifting) comp_def filter_cong filter_map)
  have "sorted (map snd rows)"
    using assms by (simp add: rows_def comp_def split_def sorted_iff_nth_mono nth_enumerate_eq monoD)
  then have sorted: "sorted (map snd mine)"
    unfolding mine_def by (rule sorted_filter)
  have "filter (\<lambda>s. ck_stream (fst s) = STREAM) (replacing (ck_stream \<circ> fst) snd rows)
      = replacing (ck_stream \<circ> fst) snd mine"
    using filter_replacing [of "\<lambda>k. k = STREAM" "ck_stream \<circ> fst" snd rows] by (simp add: mine_def)
  also have "\<dots> = (if mine = [] then [] else [last mine])"
    by (rule replacing_same_key [where k = STREAM]) (auto simp: mine_def intro: sorted [unfolded mine_def])
  finally show ?thesis
    by (simp add: newest_def last_map flip: rows_def fst)
qed

section \<open>The statements of the exporter\<close>

definition upper_hex_char :: "nat \<Rightarrow> char" where
  "upper_hex_char d = (if d < 10 then char_of (48 + d) else char_of (55 + d))"

text \<open>\<open>hex()\<close> of ClickHouse: two upper-case digits per byte.\<close>

definition ch_hex :: "bytes \<Rightarrow> string" where
  "ch_hex bs = concat (map (\<lambda>b. [upper_hex_char (unat b div 16), upper_hex_char (unat b mod 16)]) bs)"

lemma to_digit_16_upper: "d < 16 \<Longrightarrow> to_digit_16 (upper_hex_char d) = Some d"
  by (simp add: to_digit_16_def upper_hex_char_def Let_def)

lemma writes_hex_ch_hex: "writes_hex (ch_hex bs) bs"
proof (induction bs)
  case (Cons b bs)
  have "unat b < 256" by (rule u8_bound)
  with Cons show ?case
    by (simp add: writes_hex_def ch_hex_def to_digit_16_upper less_mult_imp_div_less)
qed (simp add: writes_hex_def ch_hex_def)

lemma decode_ch_hex: "length bs = 32 \<Longrightarrow> decode_pubkey_hex (ch_hex bs) what slot = Inr bs"
  by (simp add: decode_pubkey_hex_iff writes_hex_ch_hex)

text \<open>
  A row as stored carries the clock of its insert, \<open>ingested_at\<close> in milliseconds. \<open>data_len\<close> is
  materialized from the payload.
\<close>

type_synonym 'r stored = "'r \<times> i64"

definition stamped :: "(nat \<Rightarrow> i64) \<Rightarrow> 'r list \<Rightarrow> 'r stored list" where
  "stamped clock rows = map (\<lambda>(i, r). (r, clock i)) (enumerate 0 rows)"

lemma map_fst_stamped [simp]: "map fst (stamped clock rows) = rows"
  by (simp add: stamped_def comp_def split_def)

lemma set_fst_stamped: "fst ` set (stamped clock rows) = set rows"
  by (metis list.set_map map_fst_stamped)

definition export_row_of :: "account_update_row stored \<Rightarrow> export_row" where
  "export_row_of s =
     (let (r, ingested_at) = s in
      \<lparr>er_slot = au_slot r, er_write_version = au_write_version r, er_pubkey_hex = ch_hex (au_pubkey r),
       er_kind = au_kind r, er_owner_hex = ch_hex (au_owner r), er_lamports = au_lamports r,
       er_data = au_data r, er_data_len = of_nat (length (au_data r)), er_ingested_at_ms = ingested_at\<rparr>)"

definition cold_of_stored :: "account_update_row stored \<Rightarrow> cold_update" where
  "cold_of_stored s =
     (let (r, ingested_at) = s in
      \<lparr>cu_slot = au_slot r, cu_write_version = au_write_version r, cu_pubkey = au_pubkey r,
       cu_kind = au_kind r, cu_owner = au_owner r, cu_lamports = au_lamports r,
       cu_data = au_data r, cu_data_len = of_nat (length (au_data r)), cu_ingested_at = ingested_at\<rparr>)"

lemma cold_update_of_stored:
  "length (au_pubkey (fst s)) = 32 \<Longrightarrow> length (au_owner (fst s)) = 32 \<Longrightarrow>
     cold_update_of (export_row_of s) = Inr (cold_of_stored s)"
  by (cases s) (simp add: cold_update_of_def export_row_of_def cold_of_stored_def decode_ch_hex)

text \<open>
  What \<open>FINAL\<close> is documented to return for a \<open>ReplacingMergeTree(ingested_at)\<close>: rows of the table, for each
  \<open>ORDER BY\<close> key that occurs exactly one, and of the rows with that key one ingested last.
\<close>

type_synonym 'r merge = "'r stored list \<Rightarrow> 'r stored list"

definition replaces :: "('r \<Rightarrow> 'k) \<Rightarrow> 'r merge \<Rightarrow> bool" where
  "replaces key merge \<longleftrightarrow>
     (\<forall>rows. set (merge rows) \<subseteq> set rows
        \<and> distinct (map (key \<circ> fst) (merge rows))
        \<and> (key \<circ> fst) ` set (merge rows) = (key \<circ> fst) ` set rows
        \<and> (\<forall>r \<in> set (merge rows). \<forall>s \<in> set rows. key (fst s) = key (fst r) \<longrightarrow> sint (snd s) \<le> sint (snd r)))"

lemma replacesD:
  assumes "replaces key merge"
  shows "set (merge rows) \<subseteq> set rows" and "distinct (map (key \<circ> fst) (merge rows))"
    and "(key \<circ> fst) ` set (merge rows) = (key \<circ> fst) ` set rows"
  using assms by (auto simp: replaces_def)

lemma replaces_Nil [simp]: "replaces key merge \<Longrightarrow> merge [] = []"
  using replacesD(1) [of key merge "[]"] by simp

definition merge_latest :: "('r \<Rightarrow> 'k) \<Rightarrow> 'r merge" where
  "merge_latest key = replacing (key \<circ> fst) (sint \<circ> snd)"

lemma merge_latest_replaces: "replaces key (merge_latest key)"
proof -
  have "sint (snd s) \<le> sint (snd r)"
    if "r \<in> set (replacing (key \<circ> fst) (sint \<circ> snd) rows)" "s \<in> set rows" "key (fst s) = key (fst r)" for r s rows
    using replacing_greatest [OF that(1,2)] that(3) by simp
  then show ?thesis
    unfolding replaces_def merge_latest_def
    by (intro allI conjI ballI impI set_replacing distinct_replacing keys_replacing)
qed

text \<open>The \<open>ORDER BY\<close> key of the table, and that of the statement.\<close>

definition update_key :: "account_update_row \<Rightarrow> bytes \<times> u64 \<times> u64" where
  "update_key r = (au_pubkey r, au_slot r, au_write_version r)"

definition update_order :: "account_update_row \<Rightarrow> u64 \<times> u64 \<times> bytes" where
  "update_order r = (au_slot r, au_write_version r, au_pubkey r)"

definition select_updates :: "account_update_row merge \<Rightarrow> account_update_row stored list \<Rightarrow> export_row slot_query" where
  "select_updates merge rows lo hi =
     Inr (map (Inr \<circ> export_row_of)
       (sort_key (update_order \<circ> fst)
          (filter (\<lambda>s. lo \<le> au_slot (fst s) \<and> au_slot (fst s) < hi) (merge rows))))"

text \<open>The obligation snapshots: keys as hex, fixed-point values as decimal text.\<close>

definition snapshot_row_of :: "obligation_snapshot_row stored \<Rightarrow> snapshot_row" where
  "snapshot_row_of s =
     (let (r, ingested_at) = s in
      \<lparr>xs_slot = os_slot r, xs_write_version = os_write_version r, xs_pubkey_hex = ch_hex (os_pubkey r),
       xs_owner_hex = ch_hex (os_owner r), xs_lending_market_hex = ch_hex (os_lending_market r),
       xs_num_deposits = os_num_deposits r, xs_num_borrows = os_num_borrows r,
       xs_health_factor_bps = os_health_factor_bps r, xs_flags = os_flags r,
       xs_elevation_group = os_elevation_group r, xs_referrer_hex = ch_hex (os_referrer r),
       xs_ingested_at_ms = ingested_at,
       xs_deposited_value_sf = decimal (unat (os_deposited_value_sf r)),
       xs_borrowed_value_sf = decimal (unat (os_borrowed_value_sf r)),
       xs_borrow_factor_adjusted_debt_sf = decimal (unat (os_borrow_factor_adjusted_debt_sf r)),
       xs_allowed_borrow_value_sf = decimal (unat (os_allowed_borrow_value_sf r)),
       xs_unhealthy_borrow_value_sf = decimal (unat (os_unhealthy_borrow_value_sf r)),
       xs_lowest_deposit_liquidation_ltv = os_lowest_deposit_liquidation_ltv r\<rparr>)"

definition cold_snapshot_of_stored :: "obligation_snapshot_row stored \<Rightarrow> cold_snapshot" where
  "cold_snapshot_of_stored s =
     (let (r, ingested_at) = s in
      \<lparr>cs_slot = os_slot r, cs_write_version = os_write_version r, cs_pubkey = os_pubkey r,
       cs_owner = os_owner r, cs_lending_market = os_lending_market r,
       cs_num_deposits = os_num_deposits r, cs_num_borrows = os_num_borrows r,
       cs_health_factor_bps = os_health_factor_bps r, cs_flags = os_flags r,
       cs_elevation_group = os_elevation_group r, cs_referrer = os_referrer r, cs_ingested_at = ingested_at,
       cs_deposited_value_sf = uint (os_deposited_value_sf r),
       cs_borrowed_value_sf = uint (os_borrowed_value_sf r),
       cs_borrow_factor_adjusted_debt_sf = uint (os_borrow_factor_adjusted_debt_sf r),
       cs_allowed_borrow_value_sf = uint (os_allowed_borrow_value_sf r),
       cs_unhealthy_borrow_value_sf = uint (os_unhealthy_borrow_value_sf r),
       cs_lowest_deposit_liquidation_ltv = os_lowest_deposit_liquidation_ltv r\<rparr>)"

text \<open>The fixed-point values of a snapshot in the order they are parsed.\<close>

definition sf_values :: "obligation_snapshot_row \<Rightarrow> (string \<times> u128) list" where
  "sf_values r =
     [(''deposited_value_sf'', os_deposited_value_sf r),
      (''borrowed_value_sf'', os_borrowed_value_sf r),
      (''borrow_factor_adjusted_debt_sf'', os_borrow_factor_adjusted_debt_sf r),
      (''allowed_borrow_value_sf'', os_allowed_borrow_value_sf r),
      (''unhealthy_borrow_value_sf'', os_unhealthy_borrow_value_sf r)]"

definition select_snapshots ::
  "obligation_snapshot_row merge \<Rightarrow> obligation_snapshot_row stored list \<Rightarrow> snapshot_row slot_query" where
  "select_snapshots merge rows lo hi =
     Inr (map (Inr \<circ> snapshot_row_of)
       (sort_key ((\<lambda>r. (os_slot r, os_write_version r, os_pubkey r)) \<circ> fst)
          (filter (\<lambda>s. lo \<le> os_slot (fst s) \<and> os_slot (fst s) < hi) (merge rows))))"

text \<open>\<open>count()\<close> and the bounds are taken without \<open>FINAL\<close>.\<close>

definition table_bounds :: "('r \<Rightarrow> u64) \<Rightarrow> 'r list \<Rightarrow> bounds" where
  "table_bounds slot_of rows =
     \<lparr>bd_lo = (if rows = [] then 0 else Min (slot_of ` set rows)),
      bd_hi = (if rows = [] then 0 else Max (slot_of ` set rows)),
      bd_rows = of_nat (length rows)\<rparr>"

lemma snapshot_through_text:
  assumes "list_all (\<lambda>k. length k = 32) [os_pubkey r, os_owner r, os_lending_market r, os_referrer r]"
  shows "cold_snapshot_of (snapshot_row_of (r, t)) =
    (case find (\<lambda>(name, v). 10 ^ 38 \<le> unat v) (sf_values r) of
       None \<Rightarrow> Inr (cold_snapshot_of_stored (r, t))
     | Some (name, v) \<Rightarrow> Inl (Exceeds_Decimal name (os_slot r) (decimal (unat v))))"
proof -
  have sf: "parse_sf (decimal (unat v)) what slot =
      (if 10 ^ 38 \<le> unat v then Inl (Exceeds_Decimal what slot (decimal (unat v))) else Inr (uint v))"
    for v :: u128 and what slot
  proof -
    have "unat v < 2 ^ 128" using unsigned_less [of v] by simp
    then show ?thesis by (simp add: parse_sf_of_u128 parse_unsigned_decimal not_less)
  qed
  show ?thesis
    using assms
    by (simp add: cold_snapshot_of_def snapshot_row_of_def cold_snapshot_of_stored_def sf_values_def
        decode_ch_hex sf)
qed

section \<open>Properties\<close>

text \<open>
  C38 A stored obligation snapshot survives the trip through the exporter's text form exactly, every
  field of it, or it is refused: the first fixed-point value of \<open>10 ^ 38\<close> or more, in the order
  the columns are parsed, is reported by its name, slot and text. There is no third outcome.
\<close>

theorem exported_snapshot_exact:
  assumes "list_all (\<lambda>k. length k = 32) [os_pubkey r, os_owner r, os_lending_market r, os_referrer r]"
  shows "cold_snapshot_of (snapshot_row_of (r, t)) =
    (case find (\<lambda>(name, v). 10 ^ 38 \<le> unat v) (sf_values r) of
       None \<Rightarrow> Inr (cold_snapshot_of_stored (r, t))
     | Some (name, v) \<Rightarrow> Inl (Exceeds_Decimal name (os_slot r) (decimal (unat v))))"
  by (rule snapshot_through_text [OF assms])

definition sample_snapshot :: "u128 \<Rightarrow> obligation_snapshot_row" where
  "sample_snapshot v =
     \<lparr>os_slot = 5, os_write_version = 1, os_pubkey = replicate 32 0, os_owner = replicate 32 255,
      os_lending_market = replicate 32 7, os_num_deposits = 1, os_num_borrows = 1,
      os_health_factor_bps = 1050000, os_flags = 1, os_elevation_group = 0, os_referrer = replicate 32 0,
      os_deposited_value_sf = 9, os_borrowed_value_sf = v, os_borrow_factor_adjusted_debt_sf = 3,
      os_allowed_borrow_value_sf = 4, os_unhealthy_borrow_value_sf = 5, os_lowest_deposit_liquidation_ltv = 8500\<rparr>"

theorem exported_snapshot_exact_witness:
  "cold_snapshot_of (snapshot_row_of (sample_snapshot 6, 0)) = Inr (cold_snapshot_of_stored (sample_snapshot 6, 0))
   \<and> cold_snapshot_of (snapshot_row_of (sample_snapshot (10 ^ 38), 0)) =
       Inl (Exceeds_Decimal ''borrowed_value_sf'' 5 (decimal (10 ^ 38)))"
proof -
  have "list_all (\<lambda>k. length k = 32) [os_pubkey (sample_snapshot v), os_owner (sample_snapshot v),
      os_lending_market (sample_snapshot v), os_referrer (sample_snapshot v)]" for v
    by (simp add: sample_snapshot_def)
  from exported_snapshot_exact [OF this, of 6 0] exported_snapshot_exact [OF this, of "10 ^ 38" 0]
  show ?thesis
    by (simp add: sf_values_def) (simp add: sample_snapshot_def)
qed

end
