(* ===== verification/Pipeline.thy ===== *)
theory Pipeline
  imports Delivery Merge
begin

text \<open>
  From the chain to the Parquet files. The indexer's table after any history of kills, restarts
  and failed inserts holds duplicates; the exporter's statement merges them, and the export writes
  what the statement returns. Composed: the cold copy has each update below the checkpoint
  exactly once, unless it lies in a hole, and nothing that was not on the chain.
\<close>

section \<open>Lists with one row per key\<close>

lemma one_of_key:
  assumes "distinct (map key xs)" and "x \<in> set xs" and "P x"
    and "\<And>y. y \<in> set xs \<Longrightarrow> P y \<Longrightarrow> key y = key x"
  shows "length (filter P xs) = 1"
proof -
  have "filter P xs = filter (\<lambda>y. y = x) xs"
    using assms by (intro filter_cong) (auto simp: distinct_map dest: inj_onD)
  also have "length \<dots> = 1"
    using assms(1,2) by (simp add: distinct_map distinct_length_filter Int_absorb2 Collect_conv_if)
  finally show ?thesis .
qed

lemma sorted_by_first:
  fixes order :: "'r \<Rightarrow> ('a :: linorder) \<times> ('b :: linorder)"
  shows "sorted (map (fst \<circ> order) (sort_key order rs))"
proof -
  have "sorted_wrt (\<lambda>x y. order x \<le> order y) (sort_key order rs)"
    using sorted_sort_key [of order rs] by (simp only: sorted_map)
  then have "sorted_wrt (\<lambda>x y. fst (order x) \<le> fst (order y)) (sort_key order rs)"
    by (rule sorted_wrt_mono_rel [rotated]) (auto simp: less_eq_prod_def)
  then show ?thesis by (simp add: sorted_map)
qed

section \<open>A table as the exporter copies it\<close>

text \<open>
  A statement of the exporter merges the table by key, cuts out a slot range and orders it; the
  cold table is what its ranges hold one after the other. \<open>same r c\<close> says that the cold row \<open>c\<close> has the fields
  of the stored row \<open>r\<close>, all but the clock of the insert.
\<close>

definition cold_rows ::
  "'r merge \<Rightarrow> ('r \<Rightarrow> 'o::linorder) \<Rightarrow> ('r stored \<Rightarrow> 'c) \<Rightarrow> 'r stored list \<Rightarrow> 'c list" where
  "cold_rows merge order cold rows = map cold (sort_key (order \<circ> fst) (merge rows))"

definition select_rows ::
  "'r merge \<Rightarrow> ('r \<Rightarrow> 'o::linorder) \<Rightarrow> ('r \<Rightarrow> u64) \<Rightarrow> ('r stored \<Rightarrow> 'src) \<Rightarrow> 'r stored list \<Rightarrow> 'src slot_query" where
  "select_rows merge order slot_of item rows lo hi =
     Inr (map (Inr \<circ> item)
       (sort_key (order \<circ> fst) (filter (\<lambda>s. lo \<le> slot_of (fst s) \<and> slot_of (fst s) < hi) (merge rows))))"

lemma bounds_hold:
  assumes "s \<in> set rows"
  shows "bd_lo (table_bounds slot_of rows) \<le> slot_of s" and "slot_of s \<le> bd_hi (table_bounds slot_of rows)"
  using assms by (auto simp: table_bounds_def)

lemma bounds_attained:
  fixes rows :: "'r stored list" and slot_of :: "'r \<Rightarrow> u64"
  defines "b \<equiv> table_bounds (slot_of \<circ> fst) rows"
  assumes "\<forall>r \<in> fst ` set rows. slots_fit (slot_of r)"
  shows "slots_fit (bd_hi b)" and "bd_lo b \<le> bd_hi b"
proof -
  show "slots_fit (bd_hi b)"
  proof (cases "rows = []")
    case False
    then have "bd_hi b \<in> (slot_of \<circ> fst) ` set rows" by (simp add: b_def table_bounds_def)
    then show ?thesis using assms(2) by fastforce
  qed (simp add: b_def table_bounds_def slots_fit_def)
  show "bd_lo b \<le> bd_hi b"
  proof (cases "rows = []")
    case False
    then have "hd rows \<in> set rows" by simp
    from bounds_hold [OF this, of "slot_of \<circ> fst"] show ?thesis
      unfolding b_def by (rule order_trans)
  qed (simp add: b_def table_bounds_def)
qed

lemma table_bounds_rows:
  assumes "length rows < 2 ^ 64"
  shows "bd_rows (table_bounds slot_of rows) = 0 \<longleftrightarrow> rows = []"
proof -
  have "unat (bd_rows (table_bounds slot_of rows)) = length rows"
    using assms by (simp add: table_bounds_def unat_of_nat_u64)
  then show ?thesis by (auto simp: unat_eq_0 [symmetric])
qed

locale merged_table =
  fixes key :: "'r \<Rightarrow> 'k" and order :: "'r \<Rightarrow> u64 \<times> 'o::linorder" and slot_of :: "'r \<Rightarrow> u64"
    and cold_slot :: "'c \<Rightarrow> u64" and item :: "'r stored \<Rightarrow> 'src" and cold :: "'r stored \<Rightarrow> 'c"
    and parse :: "'src \<Rightarrow> export_error + 'c" and ok :: "'r \<Rightarrow> bool" and same :: "'r \<Rightarrow> 'c \<Rightarrow> bool"
  assumes order_slot: "fst (order r) = slot_of r"
    and cold_slot: "cold_slot (cold s) = slot_of (fst s)"
    and parses: "ok (fst s) \<Longrightarrow> parse (item s) = Inr (cold s)"
    and same_cold: "same r (cold (r, t))"
    and same_key: "same r (cold s) \<Longrightarrow> key (fst s) = key r"
begin

lemma partition_cold:
  "partition_rows cold_slot (cold_rows merge order cold rows) p =
     map cold (sort_key (order \<circ> fst)
       (filter (\<lambda>s. p \<le> slot_of (fst s) \<and> slot_of (fst s) < p + SLOTS_PER_PARTITION) (merge rows)))"
  by (simp add: partition_rows_def cold_rows_def filter_map comp_def in_partition_def cold_slot flip: filter_sort)

lemma select_reads:
  assumes "replaces key merge" and "\<forall>r \<in> fst ` set rows. ok r"
  shows "\<exists>items. select_rows merge order slot_of item rows p (p + SLOTS_PER_PARTITION) = Inr items
    \<and> list_all2 (reads parse) items (partition_rows cold_slot (cold_rows merge order cold rows) p)"
proof -
  have "parse (item s) = Inr (cold s)" if "s \<in> set (merge rows)" for s
    using assms(2) that replacesD(1) [OF assms(1), of rows] by (intro parses) auto
  then show ?thesis
    by (auto simp: select_rows_def partition_cold list.rel_map intro!: list.rel_refl_strong)
qed

lemma cold_sorted: "sorted (map (unat \<circ> cold_slot) (cold_rows merge order cold rows))"
proof -
  have "sorted (map (fst \<circ> (order \<circ> fst)) (sort_key (order \<circ> fst) (merge rows)))"
    by (rule sorted_by_first)
  then have "sorted (map (slot_of \<circ> fst) (sort_key (order \<circ> fst) (merge rows)))"
    by (simp add: comp_def order_slot)
  then show ?thesis
    by (auto simp: cold_rows_def comp_def cold_slot sorted_map word_le_nat_alt elim!: sorted_wrt_mono_rel [rotated])
qed

lemma cold_of_row:
  assumes "replaces key merge" and "c \<in> set (cold_rows merge order cold rows)"
  shows "\<exists>s \<in> set rows. c = cold s"
  using assms(2) replacesD(1) [OF assms(1), of rows] by (auto simp: cold_rows_def)

lemma cold_bounds:
  fixes rows :: "'r stored list"
  defines "b \<equiv> table_bounds (slot_of \<circ> fst) rows"
  assumes "replaces key merge"
  shows "list_all (\<lambda>c. bd_lo b \<le> cold_slot c \<and> cold_slot c \<le> bd_hi b) (cold_rows merge order cold rows)"
proof -
  have "bd_lo b \<le> cold_slot c \<and> cold_slot c \<le> bd_hi b" if "c \<in> set (cold_rows merge order cold rows)" for c
    using cold_of_row [OF assms(2) that] bounds_hold [of _ rows "slot_of \<circ> fst"] by (auto simp: b_def cold_slot)
  then show ?thesis by (simp add: list_all_iff)
qed

text \<open>The partitions of the bounds, read in order, are the cold table.\<close>

lemma cold_concat:
  fixes rows :: "'r stored list"
  defines "b \<equiv> table_bounds (slot_of \<circ> fst) rows"
  assumes "replaces key merge" and "\<forall>r \<in> fst ` set rows. slots_fit (slot_of r)"
  shows "concat (map (partition_rows cold_slot (cold_rows merge order cold rows)) (partition_list (bd_lo b) (bd_hi b)))
    = cold_rows merge order cold rows"
  unfolding b_def using assms(2,3) by (intro concat_partition_rows bounds_attained cold_sorted cold_bounds)

text \<open>Of a row that is stored, any number of times, the cold table has one copy.\<close>

lemma one_copy_of:
  assumes merge: "replaces key merge" and stored: "r \<in> fst ` set rows" and keys: "\<And>r'. r' \<in> fst ` set rows \<Longrightarrow> key r' = key r \<Longrightarrow> r' = r"
  shows "length (filter (same r) (cold_rows merge order cold rows)) = 1"
proof -
  have "key r \<in> (key \<circ> fst) ` set (merge rows)"
    unfolding replacesD(3) [OF merge] using stored by force
  then obtain s where s: "s \<in> set (merge rows)" "key (fst s) = key r" by auto
  with replacesD(1) [OF merge, of rows] keys have "fst s = r" by blast
  then have copy: "same r (cold s)"
    using same_cold [of r "snd s"] by (metis prod.collapse)
  have distinct: "distinct (map (key \<circ> fst) (merge rows))"
    by (rule replacesD(2) [OF merge])
  have "length (filter (same r \<circ> cold) (merge rows)) = 1"
    by (rule one_of_key [OF distinct s(1)]) (use copy s(2) in \<open>auto dest: same_key\<close>)
  then show ?thesis
    by (simp add: cold_rows_def filter_map filter_sort)
qed

lemma cold_only:
  assumes "replaces key merge" and "c \<in> set (cold_rows merge order cold rows)"
  shows "\<exists>r \<in> fst ` set rows. same r c"
proof -
  from cold_of_row [OF assms] obtain s where "s \<in> set rows" "c = cold s" by blast
  with same_cold [of "fst s" "snd s"] show ?thesis by auto
qed

end

section \<open>The raw updates\<close>

definition update_table :: "(nat \<Rightarrow> i64) \<Rightarrow> db \<Rightarrow> account_update_row stored list" where
  "update_table clock db = stamped clock (t_updates db)"

definition cold_table :: "account_update_row merge \<Rightarrow> account_update_row stored list \<Rightarrow> cold_update list" where
  "cold_table merge rows = map cold_of_stored (sort_key (update_order \<circ> fst) (merge rows))"

definition update_row_ok :: "account_update_row \<Rightarrow> bool" where
  "update_row_ok r \<longleftrightarrow> length (au_pubkey r) = 32 \<and> length (au_owner r) = 32"

definition same_update :: "account_update_row \<Rightarrow> cold_update \<Rightarrow> bool" where
  "same_update r c \<longleftrightarrow> c\<lparr>cu_ingested_at := 0\<rparr> = cold_of_stored (r, 0)"

interpretation raw: merged_table update_key update_order au_slot cu_slot export_row_of cold_of_stored cold_update_of
  update_row_ok same_update
proof unfold_locales
  show "cold_update_of (export_row_of s) = Inr (cold_of_stored s)" if "update_row_ok (fst s)" for s
    using that by (simp add: update_row_ok_def cold_update_of_stored)
qed (auto simp: update_order_def update_key_def same_update_def cold_of_stored_def split_beta)

lemma cold_table_rows: "cold_table merge = cold_rows merge update_order cold_of_stored"
  by (simp add: fun_eq_iff cold_table_def cold_rows_def)

lemma select_updates_rows: "select_updates merge = select_rows merge update_order au_slot export_row_of"
  by (simp add: fun_eq_iff select_updates_def select_rows_def)

section \<open>Copies of an update\<close>

definition version :: "update \<Rightarrow> bytes \<times> u64 \<times> u64" where
  "version u = (ai_pubkey (snd u), fst u, ai_write_version (snd u))"

text \<open>A cold row is a copy of an update: every field but the clock of its insert is the update's.\<close>

definition copies :: "external \<Rightarrow> update \<Rightarrow> cold_update \<Rightarrow> bool" where
  "copies ext u r \<longleftrightarrow>
     cu_slot r = fst u \<and> cu_write_version r = ai_write_version (snd u) \<and> cu_pubkey r = ai_pubkey (snd u)
     \<and> cu_kind r = kind_text (account_kind_from (x_digest ext) (ai_data (snd u)))
     \<and> cu_owner r = ai_owner (snd u) \<and> cu_lamports r = ai_lamports (snd u) \<and> cu_data r = ai_data (snd u)
     \<and> cu_data_len r = of_nat (length (ai_data (snd u)))"

lemma copies_same: "copies ext u = same_update (row_of ext u)"
proof
  fix c show "copies ext u c = same_update (row_of ext u) c"
    by (cases c) (auto simp: copies_def same_update_def cold_of_stored_def row_of_def update_row_def)
qed

lemma key_row_of: "update_key (row_of ext u) = version u"
  by (simp add: update_key_def version_def row_of_def update_row_def)

lemma one_update_copy:
  assumes merge: "replaces update_key merge" and "row_of ext u \<in> fst ` set rows" and "fst ` set rows \<subseteq> row_of ext ` set chain"
    and "\<And>v. v \<in> set chain \<Longrightarrow> version v = version u \<Longrightarrow> v = u"
  shows "length (filter (copies ext u) (cold_table merge rows)) = 1"
  unfolding copies_same cold_table_rows
proof (rule raw.one_copy_of [OF merge assms(2)])
  fix r assume "r \<in> fst ` set rows" and "update_key r = update_key (row_of ext u)"
  moreover from this assms(3) obtain v where "v \<in> set chain" "r = row_of ext v" by blast
  ultimately show "r = row_of ext u" using assms(4) [of v] by (simp add: key_row_of)
qed

section \<open>What a history leaves in the tables\<close>

lemma good_empty_db: "(\<And>rows. x_final ext rows = newest rows) \<Longrightarrow> good_db ext chain [] empty_db"
  by (simp add: good_db_def resume_slot_def stream_rows_def empty_db_def newest_def rows_in_def data_rows_def)

lemma stored_raw: "good_db ext chain holes db \<Longrightarrow> set (t_updates db) \<subseteq> row_of ext ` set chain"
  by (auto simp: good_db_def rows_in_def data_rows_def rows_of_def Let_def split_beta)

lemma update_table_set: "fst ` set (update_table clock db) = set (t_updates db)"
  by (simp add: update_table_def set_fst_stamped)

lemma length_stamped [simp]: "length (stamped clock rows) = length rows"
  by (simp add: stamped_def)

text \<open>Keys of 32 bytes and slots below the last partition, as the chain has them.\<close>

definition keys_fit :: "update \<Rightarrow> bool" where
  "keys_fit u \<longleftrightarrow> length (ai_pubkey (snd u)) = 32 \<and> length (ai_owner (snd u)) = 32 \<and> slots_fit (fst u)"

lemma update_rows_ok:
  assumes "good_db ext chain holes db" and "\<forall>u \<in> set chain. keys_fit u"
  shows "\<forall>r \<in> fst ` set (update_table clock db). update_row_ok r"
    and "\<forall>r \<in> fst ` set (update_table clock db). slots_fit (au_slot r)"
proof -
  have "update_row_ok r \<and> slots_fit (au_slot r)" if r: "r \<in> set (t_updates db)" for r
  proof -
    from stored_raw [OF assms(1)] r obtain u where "u \<in> set chain" "r = row_of ext u" by blast
    with assms(2) show ?thesis by (simp add: row_of_def update_row_def update_row_ok_def keys_fit_def)
  qed
  then show "\<forall>r \<in> fst ` set (update_table clock db). update_row_ok r"
    and "\<forall>r \<in> fst ` set (update_table clock db). slots_fit (au_slot r)"
    by (simp_all add: update_table_set)
qed

lemma updates_published:
  fixes clock :: "nat \<Rightarrow> i64" and dir :: path
  assumes merge: "replaces update_key merge" and good: "good_db ext chain holes db" and keys: "\<forall>u \<in> set chain. keys_fit u"
    and size: "length (t_updates db) < 2 ^ 64"
    and env: "\<And>k. io k" "takes_well_typed accepts"
      "full \<or> (\<forall>p. dk_files d (final_path dir p ''account_updates.parquet'') = None)"
  defines "rows \<equiv> update_table clock db"
  defines "b \<equiv> table_bounds (au_slot \<circ> fst) rows"
  shows "\<exists>d' v. export_table ''account_updates''
             (\<lambda>lo hi. export_partition accepts io (select_updates merge rows) lo hi dir) full
             dir ''account_updates.parquet'' (Inr b) d = Some (d', Inr v)
         \<and> (\<forall>p \<in> set (partition_list (bd_lo b) (bd_hi b)). partition_rows cu_slot (cold_table merge rows) p \<noteq> [] \<longrightarrow>
              holds_rows account_updates_schema update_columns (partition_rows cu_slot (cold_table merge rows) p)
                (dk_files d' (final_path dir p ''account_updates.parquet'')))
         \<and> (\<forall>q. (\<forall>p x. q \<noteq> dir @ [partition_dir p, x]) \<longrightarrow> dk_files d' q = dk_files d q)"
    and "concat (map (partition_rows cu_slot (cold_table merge rows)) (partition_list (bd_lo b) (bd_hi b))) = cold_table merge rows"
proof -
  have ok: "\<forall>r \<in> fst ` set rows. update_row_ok r" and slots: "\<forall>r \<in> fst ` set rows. slots_fit (au_slot r)"
    unfolding rows_def by (rule update_rows_ok [OF good keys])+
  have free: "full \<or> list_all (\<lambda>p. dk_files d (final_path dir p ''account_updates.parquet'') = None) ps" for ps
    using env(3) by (auto simp: list_all_iff)
  have "length rows < 2 ^ 64"
    using size by (simp add: rows_def update_table_def)
  from table_bounds_rows [OF this]
  have empty: "bd_rows b = 0 \<Longrightarrow> \<forall>p. partition_rows cu_slot (cold_table merge rows) p = []"
    by (simp add: b_def cold_table_def replaces_Nil [OF merge] partition_rows_def)
  show "\<exists>d' v. export_table ''account_updates''
             (\<lambda>lo hi. export_partition accepts io (select_updates merge rows) lo hi dir) full
             dir ''account_updates.parquet'' (Inr b) d = Some (d', Inr v)
         \<and> (\<forall>p \<in> set (partition_list (bd_lo b) (bd_hi b)). partition_rows cu_slot (cold_table merge rows) p \<noteq> [] \<longrightarrow>
              holds_rows account_updates_schema update_columns (partition_rows cu_slot (cold_table merge rows) p)
                (dk_files d' (final_path dir p ''account_updates.parquet'')))
         \<and> (\<forall>q. (\<forall>p x. q \<noteq> dir @ [partition_dir p, x]) \<longrightarrow> dk_files d' q = dk_files d q)"
    using updates_complete [where query = "select_updates merge rows" and rows_in = "partition_rows cu_slot (cold_table merge rows)"
          and dir = dir and io = io and accepts = accepts and d = d and full = full and tbl = "''account_updates''",
        OF bounds_attained [OF slots, folded b_def] empty
          raw.select_reads [OF merge ok, folded select_updates_rows cold_table_rows] env(1,2) free]
    by blast
  show "concat (map (partition_rows cu_slot (cold_table merge rows)) (partition_list (bd_lo b) (bd_hi b))) = cold_table merge rows"
    by (rule raw.cold_concat [OF merge slots, folded b_def cold_table_rows])
qed

lemma cold_updates_of_chain:
  fixes clock :: "nat \<Rightarrow> i64"
  assumes merge: "replaces update_key merge" and good: "good_db ext chain holes db"
    and versions: "\<forall>u \<in> set chain. \<forall>v \<in> set chain. version u = version v \<longrightarrow> u = v"
  defines "cold \<equiv> cold_table merge (update_table clock db)"
  shows "u \<in> set chain \<Longrightarrow> rows_of ext u \<subseteq> rows_in db \<Longrightarrow> length (filter (copies ext u) cold) = 1"
    and "c \<in> set cold \<Longrightarrow> \<exists>u \<in> set chain. copies ext u c"
proof -
  have chain: "fst ` set (update_table clock db) \<subseteq> row_of ext ` set chain"
    using stored_raw [OF good] by (simp add: update_table_set)
  show "length (filter (copies ext u) cold) = 1" if "u \<in> set chain" "rows_of ext u \<subseteq> rows_in db"
  proof -
    have "row_of ext u \<in> fst ` set (update_table clock db)"
      using that(2) by (auto simp: update_table_set rows_of_def Let_def split_beta rows_in_def data_rows_def)
    from one_update_copy [OF merge this chain] versions that(1) show ?thesis unfolding cold_def by blast
  qed
  show "\<exists>u \<in> set chain. copies ext u c" if "c \<in> set cold"
  proof -
    from raw.cold_only [OF merge that [unfolded cold_def cold_table_rows]] obtain r where
      r: "r \<in> fst ` set (update_table clock db)" "same_update r c" by blast
    with chain obtain u where "u \<in> set chain" "r = row_of ext u" by blast
    with r(2) show ?thesis by (auto simp: copies_same)
  qed
qed

end
