(* ===== verification/Startup.thy ===== *)
theory Startup
  imports Text Indexer_Facts
begin

text \<open>
  The start of the indexer: the environment as \<open>main\<close> of \<open>src/main.rs\<close> reads it, in its order,
  and \<open>connect_clickhouse\<close> of \<open>src/ch.rs\<close>, which every binary connects through. The ClickHouse
  client, its TLS variant and the parsing of a server name are the parameter \<open>connector\<close>.
\<close>

section \<open>\<open>connect_clickhouse\<close>\<close>

record client_options =
  co_username :: string
  co_password :: string
  co_database :: string

record ('n, 'c) connector =
  cn_plain :: "string \<Rightarrow> client_options \<Rightarrow> string + 'c"
  cn_tls :: "string \<Rightarrow> client_options \<Rightarrow> 'n \<Rightarrow> string + 'c"
  cn_server_name :: "string \<Rightarrow> 'n option"

datatype start_error =
    Missing_Variable string
  | Invalid_Server_Name string
  | Connect_Error string
  | Bad_Sample_Slots string

text \<open>The SNI name: the host without the port.\<close>

definition sni_host :: "string \<Rightarrow> string" where
  "sni_host url = (case rsplit_once (CHR '':'') url of Some (h, p) \<Rightarrow> h | None \<Rightarrow> url)"

definition connect_clickhouse ::
  "('n, 'c) connector \<Rightarrow> string \<Rightarrow> bool \<Rightarrow> client_options \<Rightarrow> start_error + 'c" where
  "connect_clickhouse cn url secure options =
     (if \<not> secure then (case cn_plain cn url options of Inl e \<Rightarrow> Inl (Connect_Error e) | Inr c \<Rightarrow> Inr c)
      else let host = sni_host url in
        case cn_server_name cn host of
          None \<Rightarrow> Inl (Invalid_Server_Name host)
        | Some server_name \<Rightarrow>
            (case cn_tls cn url options server_name of
               Inl e \<Rightarrow> Inl (Connect_Error e)
             | Inr c \<Rightarrow> Inr c))"

lemma sni_host_port: "CHR '':'' \<notin> set port \<Longrightarrow> sni_host (host @ CHR '':'' # port) = host"
  by (simp add: sni_host_def rsplit_once_last)

lemma sni_host_bare: "CHR '':'' \<notin> set host \<Longrightarrow> sni_host host = host"
  by (simp add: sni_host_def rsplit_once_def)

section \<open>The environment of \<open>main\<close>\<close>

type_synonym environment = "string \<Rightarrow> string option"

definition unwrap_or :: "'a option \<Rightarrow> 'a \<Rightarrow> 'a" where
  "unwrap_or v d = (case v of None \<Rightarrow> d | Some x \<Rightarrow> x)"

definition clickhouse_options :: "environment \<Rightarrow> client_options" where
  "clickhouse_options env =
     \<lparr>co_username = unwrap_or (env ''CLICKHOUSE_USER'') ''klend'',
      co_password = unwrap_or (env ''CLICKHOUSE_PASSWORD'') [],
      co_database = unwrap_or (env ''CLICKHOUSE_DATABASE'') ''klend''\<rparr>"

definition clickhouse_secure :: "environment \<Rightarrow> bool" where
  "clickhouse_secure env \<longleftrightarrow>
     (case env ''CLICKHOUSE_SECURE'' of Some v \<Rightarrow> v = ''1'' \<or> v = ''true'' | None \<Rightarrow> False)"

text \<open>An unset or empty \<open>CLICKHOUSE_URL\<close> is a sampling run.\<close>

definition open_sink :: "('n, 'c) connector \<Rightarrow> environment \<Rightarrow> start_error + 'c option" where
  "open_sink cn env =
     (case env ''CLICKHOUSE_URL'' of
        Some url \<Rightarrow>
          if url \<noteq> [] then
            (case connect_clickhouse cn url (clickhouse_secure env) (clickhouse_options env) of
               Inl e \<Rightarrow> Inl e
             | Inr client \<Rightarrow> Inr (Some client))
          else Inr None
      | None \<Rightarrow> Inr None)"

definition read_sample_slots :: "environment \<Rightarrow> start_error + u64 option" where
  "read_sample_slots env =
     (case env ''KLEND_SAMPLE_SLOTS'' of
        Some raw \<Rightarrow>
          (case parse_unsigned 64 raw of
             None \<Rightarrow> Inl (Bad_Sample_Slots raw)
           | Some n \<Rightarrow> Inr (Some (of_nat n)))
      | None \<Rightarrow> Inr None)"

record 'c indexer_config =
  ic_url :: string
  ic_token :: string
  ic_sink :: "'c option"
  ic_budget :: "u64 option"

definition read_config :: "('n, 'c) connector \<Rightarrow> environment \<Rightarrow> start_error + 'c indexer_config" where
  "read_config cn env =
     (case env ''GRPC_URL'' of
        None \<Rightarrow> Inl (Missing_Variable ''GRPC_URL'')
      | Some url \<Rightarrow>
     (case env ''GRPC_TOKEN'' of
        None \<Rightarrow> Inl (Missing_Variable ''GRPC_TOKEN'')
      | Some token \<Rightarrow>
     (case open_sink cn env of
        Inl e \<Rightarrow> Inl e
      | Inr sink \<Rightarrow>
     (case read_sample_slots env of
        Inl e \<Rightarrow> Inl e
      | Inr budget \<Rightarrow>
          Inr \<lparr>ic_url = url, ic_token = token, ic_sink = sink, ic_budget = budget\<rparr>))))"

text \<open>The whole process: the configuration, then the reconnect loop.\<close>

definition indexer_process ::
  "('n, 'c) connector \<Rightarrow> environment \<Rightarrow> external \<Rightarrow> session_input list \<Rightarrow> db \<Rightarrow> start_error + session_result" where
  "indexer_process cn env ext inps db =
     (case read_config cn env of
        Inl e \<Rightarrow> Inl e
      | Inr cfg \<Rightarrow> Inr (indexer_main ext (ic_sink cfg \<noteq> None) (ic_budget cfg) inps db))"

lemma open_sink_some:
  "open_sink cn env = Inr sink \<Longrightarrow>
     (sink \<noteq> None) = (case env ''CLICKHOUSE_URL'' of Some url \<Rightarrow> url \<noteq> [] | None \<Rightarrow> False)"
  by (auto simp: open_sink_def split: option.splits if_splits sum.splits)

lemma sampling_keeps_db: "ix_db (result_state (indexer_main ext False budget inps db)) = db"
  using sampling.run [of "indexer_new False db" db ext budget inps]
  by (simp add: indexer_main_def indexer_new_def)

section \<open>Properties\<close>

text \<open>
  C36 The environment decides the run: the process starts only with both endpoint variables; a
  sample size that is not an unsigned 64-bit number aborts it before any session and is never
  read as unattended; a sample size that is one bounds the run; and with \<open>CLICKHOUSE_URL\<close> unset
  or empty nothing is ever written.
\<close>

theorem process_from_environment:
  "case indexer_process cn env ext inps db of
     Inl e \<Rightarrow> e \<in> {Missing_Variable ''GRPC_URL'', Missing_Variable ''GRPC_TOKEN''}
        \<union> (case env ''KLEND_SAMPLE_SLOTS'' of
              Some raw \<Rightarrow> (if parse_unsigned 64 raw = None then {Bad_Sample_Slots raw} else {})
            | None \<Rightarrow> {})
        \<union> (case env ''CLICKHOUSE_URL'' of
              Some url \<Rightarrow> insert (Invalid_Server_Name (sni_host url)) (range Connect_Error)
            | None \<Rightarrow> {})
   | Inr res \<Rightarrow> \<exists>sink budget. res = indexer_main ext sink budget inps db
        \<and> sink = (case env ''CLICKHOUSE_URL'' of Some url \<Rightarrow> url \<noteq> [] | None \<Rightarrow> False)
        \<and> (case env ''KLEND_SAMPLE_SLOTS'' of
             None \<Rightarrow> budget = None
           | Some raw \<Rightarrow> budget \<noteq> None \<and> parse_unsigned 64 raw = map_option unat budget)
        \<and> env ''GRPC_URL'' \<noteq> None \<and> env ''GRPC_TOKEN'' \<noteq> None
        \<and> (sink \<or> ix_db (result_state res) = db)"
proof (cases "indexer_process cn env ext inps db")
  case (Inl e)
  then show ?thesis
    by (auto simp: indexer_process_def read_config_def open_sink_def read_sample_slots_def
        connect_clickhouse_def Let_def split: option.splits sum.splits if_splits)
next
  case (Inr res)
  then obtain cfg where cfg: "read_config cn env = Inr cfg"
    and res: "res = indexer_main ext (ic_sink cfg \<noteq> None) (ic_budget cfg) inps db"
    by (auto simp: indexer_process_def split: sum.splits)
  then have sink: "open_sink cn env = Inr (ic_sink cfg)"
    and budget: "read_sample_slots env = Inr (ic_budget cfg)" and url: "env ''GRPC_URL'' \<noteq> None"
    and token: "env ''GRPC_TOKEN'' \<noteq> None"
    by (auto simp: read_config_def split: option.splits sum.splits)
  have "unat (of_nat n :: u64) = n" if "parse_unsigned 64 raw = Some n" for raw n
    using that by (intro unat_of_nat_u64) (simp add: parse_unsigned_iff)
  with budget have "case env ''KLEND_SAMPLE_SLOTS'' of
      None \<Rightarrow> ic_budget cfg = None
    | Some raw \<Rightarrow> ic_budget cfg \<noteq> None \<and> parse_unsigned 64 raw = map_option unat (ic_budget cfg)"
    by (auto simp: read_sample_slots_def split: option.splits dest!: sym [of "Some _"])
  with Inr res open_sink_some [OF sink] url token sampling_keeps_db show ?thesis
    by (auto split: option.splits)
qed

text \<open>
  A secure connection checks the certificate against the host alone: the text before the last
  colon of \<open>host:port\<close>, whatever the port, and the whole text when there is no colon.
\<close>

lemma tls_name_is_the_host:
  "(if CHR '':'' \<in> set port then True
    else connect_clickhouse cn (host @ CHR '':'' # port) True options =
      (case cn_server_name cn host of
         None \<Rightarrow> Inl (Invalid_Server_Name host)
       | Some n \<Rightarrow> (case cn_tls cn (host @ CHR '':'' # port) options n of
                      Inl e \<Rightarrow> Inl (Connect_Error e) | Inr c \<Rightarrow> Inr c)))
   \<and> (if CHR '':'' \<in> set bare then True
      else connect_clickhouse cn bare True options =
        (case cn_server_name cn bare of
           None \<Rightarrow> Inl (Invalid_Server_Name bare)
         | Some n \<Rightarrow> (case cn_tls cn bare options n of
                        Inl e \<Rightarrow> Inl (Connect_Error e) | Inr c \<Rightarrow> Inr c)))"
  by (simp add: connect_clickhouse_def sni_host_port sni_host_bare)

end
