(* ===== verification/Snapshot.thy ===== *)
theory Snapshot
  imports Request Startup "HOL-Library.List_Lexorder" "HOL-Library.Char_ord" "HOL-Library.Multiset"
begin

text \<open>
  The one-shot snapshot writer, \<open>src/bin/snapshot.rs\<close>: the \<open>getProgramAccounts\<close> request and
  the reading of its response, the chunked insert, one page (\<open>fetch_and_write\<close>), the totals,
  and \<open>main\<close>. The HTTP endpoint is the function \<open>post\<close> of a request (a run sends no request
  twice); JSON values are read through the accessors of \<open>json_api\<close> as \<open>serde_json\<close> provides
  them; base58 and base64 are parameters. An error is its context message; a panic is one too.
\<close>

section \<open>Reading the RPC\<close>

record 'j json_api =
  js_parse :: "string \<Rightarrow> 'j option"
  js_get :: "'j \<Rightarrow> string \<Rightarrow> 'j option"
  js_key :: "'j \<Rightarrow> string \<Rightarrow> 'j"
  js_nth :: "'j \<Rightarrow> nat \<Rightarrow> 'j"
  js_u64 :: "'j \<Rightarrow> u64 option"
  js_str :: "'j \<Rightarrow> string option"
  js_array :: "'j \<Rightarrow> 'j list option"

record memcmp =
  mc_offset :: nat
  mc_bytes :: string
  mc_encoding :: string

record rpc_config =
  rc_encoding :: string
  rc_commitment :: string
  rc_with_context :: bool
  rc_filters :: "memcmp list option"

record rpc_request =
  rq_jsonrpc :: string
  rq_id :: nat
  rq_method :: string
  rq_program :: string
  rq_config :: rpc_config

text \<open>No response, a response whose body cannot be read, or a status with a body.\<close>

datatype http_outcome = No_Response | No_Body nat | Response nat string

record 'j rpc_api = "'j json_api" +
  ra_post :: "string \<Rightarrow> rpc_request \<Rightarrow> http_outcome"
  ra_b58_decode :: "string \<Rightarrow> bytes option"
  ra_b64_encode :: "bytes \<Rightarrow> string"
  ra_b64_decode :: "string \<Rightarrow> bytes option"

record rpc_account =
  rp_pubkey :: bytes
  rp_owner :: bytes
  rp_lamports :: u64
  rp_data :: bytes

definition SNAPSHOT_WRITE_VERSION :: u64 where [const_defs]:
  "SNAPSHOT_WRITE_VERSION = 0"

definition INSERT_BATCH :: nat where [const_defs]:
  "INSERT_BATCH = 4096"

definition OBLIGATION_OWNER_OFFSET :: nat where [const_defs]:
  "OBLIGATION_OWNER_OFFSET = 64"

definition OBLIGATION_PAGES :: nat where [const_defs]:
  "OBLIGATION_PAGES = 256"

definition disc_b64 :: "(bytes \<Rightarrow> string) \<Rightarrow> bytes \<Rightarrow> string" where
  "disc_b64 b64 disc = b64 disc"

type_synonym page_filter = "(nat \<times> u8) option"

definition memcmp_filters :: "(bytes \<Rightarrow> string) \<Rightarrow> bytes option \<Rightarrow> page_filter \<Rightarrow> memcmp list" where
  "memcmp_filters b64 disc page =
     (case disc of
        None \<Rightarrow> []
      | Some d \<Rightarrow> [\<lparr>mc_offset = 0, mc_bytes = disc_b64 b64 d, mc_encoding = ''base64''\<rparr>])
     @ (case page of
          None \<Rightarrow> []
        | Some (offset, byte) \<Rightarrow> [\<lparr>mc_offset = offset, mc_bytes = b64 [byte], mc_encoding = ''base64''\<rparr>])"

definition rpc_body :: "(bytes \<Rightarrow> string) \<Rightarrow> bytes option \<Rightarrow> page_filter \<Rightarrow> rpc_request" where
  "rpc_body b64 disc page =
     (let filters = memcmp_filters b64 disc page in
      \<lparr>rq_jsonrpc = ''2.0'', rq_id = 1, rq_method = ''getProgramAccounts'', rq_program = KLEND_PROGRAM,
       rq_config = \<lparr>rc_encoding = ''base64'', rc_commitment = ''confirmed'', rc_with_context = True,
                    rc_filters = (if filters \<noteq> [] then Some filters else None)\<rparr>\<rparr>)"

text \<open>\<open>&text[..n]\<close>: panics when \<open>n\<close> splits a character.\<close>

definition continuation_byte :: "char \<Rightarrow> bool" where
  "continuation_byte c \<longleftrightarrow> (128 :: nat) \<le> of_char c \<and> of_char c < (192 :: nat)"

definition str_prefix :: "nat \<Rightarrow> string \<Rightarrow> string option" where
  "str_prefix n s = (if n < length s \<and> continuation_byte (s ! n) then None else Some (take n s))"

definition context_of :: "string \<Rightarrow> 'a option \<Rightarrow> string + 'a" where
  "context_of msg v = (case v of None \<Rightarrow> Inl msg | Some x \<Rightarrow> Inr x)"

definition bind_result :: "string + 'a \<Rightarrow> ('a \<Rightarrow> string + 'b) \<Rightarrow> string + 'b" where
  "bind_result r k = (case r of Inl e \<Rightarrow> Inl e | Inr x \<Rightarrow> k x)"

definition parse_account :: "('j, 'x) rpc_api_scheme \<Rightarrow> 'j \<Rightarrow> string + rpc_account" where
  "parse_account api item =
     bind_result (context_of ''account has no pubkey'' (js_str api (js_key api item ''pubkey''))) (\<lambda>s.
     bind_result (context_of ''pubkey is not valid base58'' (ra_b58_decode api s)) (\<lambda>pubkey.
     let account = js_key api item ''account'' in
     bind_result (context_of ''account has no owner'' (js_str api (js_key api account ''owner''))) (\<lambda>s.
     bind_result (context_of ''owner is not valid base58'' (ra_b58_decode api s)) (\<lambda>owner.
     let lamports = unwrap_or (js_u64 api (js_key api account ''lamports'')) 0 in
     bind_result (context_of ''account data is not [base64, encoding]''
                   (js_str api (js_nth api (js_key api account ''data'') 0))) (\<lambda>data_b64.
     bind_result (context_of ''account data is not valid base64'' (ra_b64_decode api data_b64)) (\<lambda>data.
     Inr \<lparr>rp_pubkey = pubkey, rp_owner = owner, rp_lamports = lamports, rp_data = data\<rparr>))))))"

fun parse_accounts :: "('j, 'x) rpc_api_scheme \<Rightarrow> 'j list \<Rightarrow> string + rpc_account list" where
  "parse_accounts api [] = Inr []"
| "parse_accounts api (item # items) =
     bind_result (parse_account api item) (\<lambda>a.
     bind_result (parse_accounts api items) (\<lambda>as. Inr (a # as)))"

definition parse_response :: "('j, 'x) rpc_api_scheme \<Rightarrow> string \<Rightarrow> string + u64 \<times> rpc_account list" where
  "parse_response api text =
     bind_result (context_of ''parse RPC response as JSON'' (js_parse api text)) (\<lambda>v.
     if js_get api v ''error'' \<noteq> None then Inl ''RPC error''
     else
       bind_result (context_of ''response has no result.context.slot (withContext ignored?)''
         (js_u64 api (js_key api (js_key api (js_key api v ''result'') ''context'') ''slot''))) (\<lambda>slot.
       bind_result (context_of ''response has no result.value array''
         (js_array api (js_key api (js_key api v ''result'') ''value''))) (\<lambda>values.
       bind_result (parse_accounts api values) (\<lambda>as. Inr (slot, as)))))"

definition get_program_accounts ::
  "('j, 'x) rpc_api_scheme \<Rightarrow> string \<Rightarrow> bytes option \<Rightarrow> page_filter \<Rightarrow> string + u64 \<times> rpc_account list" where
  "get_program_accounts api rpc_url disc page =
     (case ra_post api rpc_url (rpc_body (ra_b64_encode api) disc page) of
        No_Response \<Rightarrow> Inl ''getProgramAccounts request failed''
      | No_Body status \<Rightarrow> Inl ''read RPC response body''
      | Response status text \<Rightarrow>
          if \<not> (200 \<le> status \<and> status < 300) then
            (case str_prefix (min (length text) 200) text of
               None \<Rightarrow> Inl ''byte index is not a char boundary''
             | Some head \<Rightarrow> Inl (''RPC returned HTTP '' @ decimal status @ '': '' @ head))
          else parse_response api text)"

section \<open>The chunked insert\<close>

text \<open>\<open>split_off\<close> from the tail while more than a batch is left.\<close>

function split_chunks :: "'r list \<Rightarrow> 'r list list" where
  "split_chunks rows =
     (if INSERT_BATCH < length rows
      then drop (length rows - INSERT_BATCH) rows # split_chunks (take (length rows - INSERT_BATCH) rows)
      else [rows])"
  by pat_completeness auto
termination
  by (relation "measure length") (auto simp: const_defs)

declare split_chunks.simps [simp del]

fun insert_chunks ::
  "(('r list \<Rightarrow> 'r list) \<Rightarrow> db \<Rightarrow> db) \<Rightarrow> inserter \<Rightarrow> 'r list list \<Rightarrow> db \<Rightarrow> db \<times> unit outcome" where
  "insert_chunks upd ins [] db = (db, Done ())"
| "insert_chunks upd ins (chunk # chunks) db =
     and_then (insert_block upd ins chunk db) (insert_chunks upd ins chunks)"

definition insert_chunked ::
  "(('r list \<Rightarrow> 'r list) \<Rightarrow> db \<Rightarrow> db) \<Rightarrow> inserter \<Rightarrow> 'r list \<Rightarrow> db \<Rightarrow> db \<times> nat outcome" where
  "insert_chunked upd ins rows db =
     (if rows = [] then (db, Done 0)
      else case insert_chunks upd ins (split_chunks rows) db of
        (db, Done _) \<Rightarrow> (db, Done (length rows))
      | (db, Fail e) \<Rightarrow> (db, Fail e)
      | (db, Hang) \<Rightarrow> (db, Hang))"

section \<open>One page\<close>

text \<open>\<open>BTreeMap<String, u64>\<close>: entries in key order.\<close>

type_synonym kind_counts = "(string \<times> u64) list"

fun btree_add :: "string \<Rightarrow> u64 \<Rightarrow> kind_counts \<Rightarrow> kind_counts" where
  "btree_add k n [] = [(k, n)]"
| "btree_add k n ((k', m) # t) =
     (if k = k' then (k', m + n) # t
      else if k < k' then (k, n) # (k', m) # t
      else (k', m) # btree_add k n t)"

record page_acc =
  pa_raw :: "account_update_row list"
  pa_obligations :: "obligation_snapshot_row list"
  pa_reserves :: "reserve_snapshot_row list"
  pa_markets :: "lending_market_snapshot_row list"
  pa_failures :: u64
  pa_by_kind :: kind_counts

definition page_acc_new :: page_acc where
  "page_acc_new = \<lparr>pa_raw = [], pa_obligations = [], pa_reserves = [], pa_markets = [],
     pa_failures = 0, pa_by_kind = []\<rparr>"

definition raw_row :: "u64 \<Rightarrow> account_kind \<Rightarrow> rpc_account \<Rightarrow> account_update_row" where
  "raw_row slot kind acct =
     \<lparr>au_slot = slot, au_write_version = SNAPSHOT_WRITE_VERSION, au_pubkey = rp_pubkey acct,
      au_kind = kind_text kind, au_owner = rp_owner acct, au_lamports = rp_lamports acct,
      au_data = rp_data acct\<rparr>"

text \<open>The three crates a decode needs, as in the indexer.\<close>

record decoder_env =
  de_digest :: "bytes \<Rightarrow> bytes"
  de_cast :: "bytes \<Rightarrow> bool"
  de_spl :: "string \<Rightarrow> bytes"

definition note_failure :: "page_acc \<Rightarrow> page_acc" where
  "note_failure acc = acc\<lparr>pa_failures := pa_failures acc + 1\<rparr>"

definition decode_account :: "decoder_env \<Rightarrow> u64 \<Rightarrow> account_kind \<Rightarrow> rpc_account \<Rightarrow> page_acc \<Rightarrow> page_acc" where
  "decode_account de slot kind acct acc =
     (if kind = Known ''Obligation'' then
        (case decode_obligation (de_cast de) (rp_data acct) of
           Some (Inr d) \<Rightarrow> acc\<lparr>pa_obligations := pa_obligations acc
                                @ [obligation_row slot SNAPSHOT_WRITE_VERSION (rp_pubkey acct) d]\<rparr>
         | _ \<Rightarrow> note_failure acc)
      else if kind = Known ''Reserve'' then
        (case decode_reserve (de_cast de) (rp_data acct) of
           Some (Inr d) \<Rightarrow> acc\<lparr>pa_reserves := pa_reserves acc
                                @ [reserve_row slot SNAPSHOT_WRITE_VERSION (rp_pubkey acct) d]\<rparr>
         | _ \<Rightarrow> note_failure acc)
      else if kind = Known ''LendingMarket'' then
        (case decode_lending_market (de_cast de) (de_spl de) (rp_data acct) of
           Some (Inr d) \<Rightarrow> acc\<lparr>pa_markets := pa_markets acc
                                @ [market_row slot SNAPSHOT_WRITE_VERSION (rp_pubkey acct) d]\<rparr>
         | _ \<Rightarrow> note_failure acc)
      else acc)"

definition page_account :: "decoder_env \<Rightarrow> u64 \<Rightarrow> rpc_account \<Rightarrow> page_acc \<Rightarrow> page_acc" where
  "page_account de slot acct acc =
     (let kind = account_kind_from (de_digest de) (rp_data acct);
          acc = acc\<lparr>pa_by_kind := btree_add (kind_text kind) 1 (pa_by_kind acc)\<rparr>;
          acc = decode_account de slot kind acct acc
      in acc\<lparr>pa_raw := pa_raw acc @ [raw_row slot kind acct]\<rparr>)"

record page_result =
  pr_slot :: u64
  pr_accounts :: u64
  pr_rows_written :: u64
  pr_decode_failures :: u64
  pr_by_kind :: kind_counts

text \<open>\<open>rows_written += insert_chunked(\<dots>).await?\<close>\<close>

definition then_count ::
  "db \<times> nat outcome \<Rightarrow> (nat \<Rightarrow> db \<Rightarrow> db \<times> 'a outcome) \<Rightarrow> db \<times> 'a outcome" where
  "then_count r k = (case r of (db, Done n) \<Rightarrow> k n db | (db, Fail e) \<Rightarrow> (db, Fail e) | (db, Hang) \<Rightarrow> (db, Hang))"

definition write_page :: "inserter \<Rightarrow> page_acc \<Rightarrow> db \<Rightarrow> db \<times> nat outcome" where
  "write_page ins acc db =
     then_count (insert_chunked t_updates_update ins (pa_raw acc) db) (\<lambda>n1 db.
     then_count (insert_chunked t_obligations_update ins (pa_obligations acc) db) (\<lambda>n2 db.
     then_count (insert_chunked t_reserves_update ins (pa_reserves acc) db) (\<lambda>n3 db.
     then_count (insert_chunked t_markets_update ins (pa_markets acc) db) (\<lambda>n4 db.
     (db, Done (n1 + n2 + n3 + n4))))))"

definition fetch_and_write ::
  "('j, 'x) rpc_api_scheme \<Rightarrow> decoder_env \<Rightarrow> inserter \<Rightarrow> bool \<Rightarrow> string \<Rightarrow> bytes option \<Rightarrow> page_filter
     \<Rightarrow> db \<Rightarrow> db \<times> page_result outcome" where
  "fetch_and_write api de ins client rpc_url disc page db =
     (case get_program_accounts api rpc_url disc page of
        Inl e \<Rightarrow> (db, Fail e)
      | Inr (slot, accounts) \<Rightarrow>
          let acc = fold (page_account de slot) accounts page_acc_new;
              n = length (pa_raw acc)
          in then_count (if client then write_page ins acc db else (db, Done 0)) (\<lambda>written db.
               (db, Done \<lparr>pr_slot = slot, pr_accounts = of_nat n, pr_rows_written = of_nat written,
                          pr_decode_failures = pa_failures acc, pr_by_kind = pa_by_kind acc\<rparr>)))"

section \<open>Totals and \<open>main\<close>\<close>

record totals =
  tt_accounts :: u64
  tt_rows_written :: u64
  tt_decode_failures :: u64
  tt_max_slot :: u64
  tt_by_kind :: kind_counts

definition totals_default :: totals where
  "totals_default = \<lparr>tt_accounts = 0, tt_rows_written = 0, tt_decode_failures = 0, tt_max_slot = 0, tt_by_kind = []\<rparr>"

definition absorb :: "page_result \<Rightarrow> totals \<Rightarrow> totals" where
  "absorb page t =
     \<lparr>tt_accounts = tt_accounts t + pr_accounts page,
      tt_rows_written = tt_rows_written t + pr_rows_written page,
      tt_decode_failures = tt_decode_failures t + pr_decode_failures page,
      tt_max_slot = max (tt_max_slot t) (pr_slot page),
      tt_by_kind = fold (\<lambda>(kind, n). btree_add kind n) (pr_by_kind page) (tt_by_kind t)\<rparr>"

text \<open>
  \<open>{:?}\<close> of a text: in double quotes, with the escapes of \<open>char::escape_debug\<close>. Bytes beyond ASCII are left as they are,
  which is what it does with printable characters.
\<close>

definition escape_debug :: "char \<Rightarrow> string" where
  "escape_debug c =
     (let n = of_char c :: nat; backslash = CHR 0x5C in
      if n = 0 then [backslash, CHR ''0'']
      else if n = 9 then [backslash, CHR ''t'']
      else if n = 10 then [backslash, CHR ''n'']
      else if n = 13 then [backslash, CHR ''r'']
      else if c = backslash \<or> n = 34 then [backslash, c]
      else if n < 32 \<or> n = 127 then
        backslash # ''u{'' @ (if n < 16 then [hex_char n] else [hex_char (n div 16), hex_char (n mod 16)]) @ ''}''
      else [c])"

definition debug_str :: "string \<Rightarrow> string" where
  "debug_str s = CHR 0x22 # concat (map escape_debug s) @ [CHR 0x22]"

type_synonym page_request = "bytes option \<times> page_filter"

definition scope_filters :: "string \<Rightarrow> (bytes option \<times> nat option) list option" where
  "scope_filters scope =
     (if scope = ''known'' then
        Some [(Some OBLIGATION_DISC, Some OBLIGATION_OWNER_OFFSET),
              (Some RESERVE_DISC, None),
              (Some LENDING_MARKET_DISC, None)]
      else if scope = ''all'' then Some [(None, None)]
      else None)"

text \<open>The calls of one filter: one, or one for each value of the paging byte.\<close>

definition filter_pages :: "bytes option \<times> nat option \<Rightarrow> page_request list" where
  "filter_pages f =
     (case f of
        (disc, None) \<Rightarrow> [(disc, None)]
      | (disc, Some offset) \<Rightarrow> map (\<lambda>b. (disc, Some (offset, of_nat b))) [0..<OBLIGATION_PAGES])"

fun run_pages ::
  "('j, 'x) rpc_api_scheme \<Rightarrow> decoder_env \<Rightarrow> inserter \<Rightarrow> bool \<Rightarrow> string \<Rightarrow> page_request list \<Rightarrow> totals \<Rightarrow> db
     \<Rightarrow> db \<times> totals outcome" where
  "run_pages api de ins client rpc_url [] t db = (db, Done t)"
| "run_pages api de ins client rpc_url ((disc, page) # pages) t db =
     (case fetch_and_write api de ins client rpc_url disc page db of
        (db, Done r) \<Rightarrow> run_pages api de ins client rpc_url pages (absorb r t) db
      | (db, Fail e) \<Rightarrow> (db, Fail e)
      | (db, Hang) \<Rightarrow> (db, Hang))"

definition rpc_url_of :: "environment \<Rightarrow> string + string" where
  "rpc_url_of env =
     (case env ''RPC_URL'' of
        Some u \<Rightarrow> Inr u
      | None \<Rightarrow>
          bind_result (context_of ''set RPC_URL, or GRPC_URL + GRPC_TOKEN to reuse the stream credentials''
            (env ''GRPC_URL'')) (\<lambda>base.
          bind_result (context_of ''set RPC_URL, or GRPC_URL + GRPC_TOKEN to reuse the stream credentials''
            (env ''GRPC_TOKEN'')) (\<lambda>token.
          Inr (trim_end_matches (CHR ''/'') base @ ''/v2/'' @ token))))"

definition snapshot_run_row_of :: "string \<Rightarrow> u64 \<Rightarrow> totals \<Rightarrow> snapshot_run_row" where
  "snapshot_run_row_of scope elapsed_ms t =
     \<lparr>sn_slot = tt_max_slot t, sn_scope = scope, sn_accounts = tt_accounts t,
      sn_rows_written = tt_rows_written t, sn_decode_failures = tt_decode_failures t,
      sn_duration_ms = elapsed_ms\<rparr>"

text \<open>What follows the pages: refuse an empty snapshot, stop on a dry run, else record the run.\<close>

definition finish_snapshot ::
  "inserter \<Rightarrow> bool \<Rightarrow> string \<Rightarrow> u64 \<Rightarrow> totals \<Rightarrow> db \<Rightarrow> db \<times> unit outcome" where
  "finish_snapshot ins client scope elapsed_ms t db =
     (if tt_accounts t = 0 then
        (db, Fail (''getProgramAccounts returned no accounts '' @ [CHR 0xE2, CHR 0x80, CHR 0x94]
             @ '' refusing to record an empty snapshot''))
      else if \<not> client then (db, Done ())
      else insert_block t_runs_update ins [snapshot_run_row_of scope elapsed_ms t] db)"

definition snapshot_sink :: "('n, 'c) connector \<Rightarrow> environment \<Rightarrow> string + bool" where
  "snapshot_sink cn env =
     (if env ''KLEND_SNAPSHOT_DRY_RUN'' \<noteq> None then Inr False
      else bind_result (context_of ''CLICKHOUSE_URL is required'' (env ''CLICKHOUSE_URL'')) (\<lambda>url.
        case connect_clickhouse cn url (clickhouse_secure env) (clickhouse_options env) of
          Inl e \<Rightarrow> Inl ''connect ClickHouse sink''
        | Inr client \<Rightarrow> Inr True))"

definition snapshot_main ::
  "('j, 'x) rpc_api_scheme \<Rightarrow> decoder_env \<Rightarrow> ('n, 'c) connector \<Rightarrow> environment \<Rightarrow> bool \<Rightarrow> u64 \<Rightarrow> inserter \<Rightarrow> db
     \<Rightarrow> db \<times> unit outcome" where
  "snapshot_main api de cn env http_ok elapsed_ms ins db =
     (case rpc_url_of env of
        Inl e \<Rightarrow> (db, Fail e)
      | Inr rpc_url \<Rightarrow>
     (let scope = unwrap_or (env ''KLEND_SNAPSHOT_SCOPE'') ''known'' in
      case scope_filters scope of
        None \<Rightarrow> (db, Fail (''KLEND_SNAPSHOT_SCOPE must be 'known' or 'all', got '' @ debug_str scope))
      | Some filters \<Rightarrow>
     (if \<not> http_ok then (db, Fail ''build HTTP client'')
      else case snapshot_sink cn env of
        Inl e \<Rightarrow> (db, Fail e)
      | Inr client \<Rightarrow>
     (case run_pages api de ins client rpc_url (concat (map filter_pages filters)) totals_default db of
        (db, Done t) \<Rightarrow> finish_snapshot ins client scope elapsed_ms t db
      | (db, Fail e) \<Rightarrow> (db, Fail e)
      | (db, Hang) \<Rightarrow> (db, Hang)))))"

text \<open>\<open>describe_decode_miss\<close>: the log text of the outcomes of a decoder.\<close>

definition describe_decode_miss :: "string option option \<Rightarrow> string" where
  "describe_decode_miss err =
     (case err of
        Some (Some e) \<Rightarrow> e
      | Some None \<Rightarrow> ''decoder returned Ok on a retry path''
      | None \<Rightarrow> ''payload did not match the decoder's expected size'')"

end
