(* ===== verification/Statements.thy ===== *)
theory Statements
  imports Delivery Snapshot
begin

text \<open>
  The SQL of the program against its schema. A table is what \<open>schema/*.sql\<close> declares, columns
  with their types and how they are filled, the later \<open>ALTER TABLE\<close> included. The fields of a
  row are what \<open>#[derive(Row)]\<close> sends: one named value per field of the struct, matched to
  the columns by name. \<open>insert_ok\<close> says that a statement and a row fit a table.
\<close>

section \<open>Tables, rows and statements\<close>

datatype sql_type =
    UInt8 | UInt16 | UInt32 | UInt64 | UInt128
  | Fixed_Str nat
  | Str
  | Low_Str \<comment> \<open>\<open>LowCardinality(String)\<close>\<close>
  | Millis \<comment> \<open>\<open>DateTime64(3)\<close>\<close>

datatype origin = Plain | Default | Alias | Materialized

record ch_table =
  tb_name :: string
  tb_columns :: "(string \<times> sql_type \<times> origin) list"

datatype sent_value = V_U8 u8 | V_U16 u16 | V_U64 u64 | V_U128 u128 | V_Text string | V_Bytes bytes

fun fits :: "sql_type \<Rightarrow> sent_value \<Rightarrow> bool" where
  "fits UInt8 (V_U8 v) = True"
| "fits UInt16 (V_U16 v) = True"
| "fits UInt64 (V_U64 v) = True"
| "fits UInt128 (V_U128 v) = True"
| "fits (Fixed_Str n) (V_Bytes bs) \<longleftrightarrow> length bs = n"
| "fits Str (V_Bytes bs) = True"
| "fits Str (V_Text s) = True"
| "fits Low_Str (V_Text s) = True"
| "fits _ _ = False"

text \<open>The parts of a text between the given character, without leading blanks.\<close>

fun split_on :: "char \<Rightarrow> string \<Rightarrow> string list" where
  "split_on c [] = [[]]"
| "split_on c (x # xs) =
     (if x = c then [] # split_on c xs
      else case split_on c xs of [] \<Rightarrow> [[x]] | p # ps \<Rightarrow> (x # p) # ps)"

definition items :: "string \<Rightarrow> string list" where
  "items s = map (dropWhile (\<lambda>c. c = CHR '' '')) (split_on CHR '','' s)"

text \<open>Table and columns of \<open>INSERT INTO table (columns) FORMAT Native\<close>.\<close>

definition parse_insert :: "string \<Rightarrow> (string \<times> string list) option" where
  "parse_insert sql =
     (if take 12 sql = ''INSERT INTO '' then
        let rest = drop 12 sql;
            tail = drop 1 (dropWhile (\<lambda>c. c \<noteq> CHR ''('') rest);
            inner = takeWhile (\<lambda>c. c \<noteq> CHR '')'') tail
        in if drop (length inner) tail = '') FORMAT Native''
           then Some (takeWhile (\<lambda>c. c \<noteq> CHR '' '') rest, items inner) else None
      else None)"

text \<open>
  The statement names the table and exactly the row's fields; each field is a plain column and
  its value fits the type; and a column that is left out is one the server fills.
\<close>

definition insert_ok :: "ch_table \<Rightarrow> string \<Rightarrow> (string \<times> sent_value) list \<Rightarrow> bool" where
  "insert_ok t sql fs \<longleftrightarrow>
     parse_insert sql = Some (tb_name t, map fst fs) \<and> distinct (map fst fs)
     \<and> list_all (\<lambda>(name, v). list_ex (\<lambda>(col, ty, how). col = name \<and> how = Plain \<and> fits ty v) (tb_columns t)) fs
     \<and> list_all (\<lambda>(name, ty, how). name \<in> set (map fst fs) \<or> how \<noteq> Plain) (tb_columns t)"

section \<open>The seven tables\<close>

text \<open>\<open>account_updates\<close>\<close>

definition account_updates_table :: ch_table where
  "account_updates_table =
     \<lparr>tb_name = ''account_updates'', tb_columns =
       [(''slot'', UInt64, Plain),
        (''write_version'', UInt64, Plain),
        (''pubkey'', Fixed_Str 32, Plain),
        (''pubkey_b58'', Str, Alias),
        (''kind'', Low_Str, Plain),
        (''owner'', Fixed_Str 32, Plain),
        (''lamports'', UInt64, Plain),
        (''data'', Str, Plain),
        (''data_len'', UInt32, Materialized),
        (''ingested_at'', Millis, Default)]\<rparr>"

definition INSERT_UPDATES_SQL :: string where
  "INSERT_UPDATES_SQL =
     ''INSERT INTO account_updates (slot, write_version, pubkey, kind, owner, '' @
     ''lamports, data) FORMAT Native''"

definition update_fields :: "account_update_row \<Rightarrow> (string \<times> sent_value) list" where
  "update_fields r =
     [(''slot'', V_U64 (au_slot r)),
      (''write_version'', V_U64 (au_write_version r)),
      (''pubkey'', V_Bytes (au_pubkey r)),
      (''kind'', V_Text (au_kind r)),
      (''owner'', V_Bytes (au_owner r)),
      (''lamports'', V_U64 (au_lamports r)),
      (''data'', V_Bytes (au_data r))]"

text \<open>\<open>ingest_checkpoint\<close>\<close>

definition ingest_checkpoint_table :: ch_table where
  "ingest_checkpoint_table =
     \<lparr>tb_name = ''ingest_checkpoint'', tb_columns =
       [(''stream'', Low_Str, Plain),
        (''last_slot'', UInt64, Plain),
        (''last_write_version'', UInt64, Plain),
        (''updated_at'', Millis, Default)]\<rparr>"

definition INSERT_CHECKPOINT_SQL :: string where
  "INSERT_CHECKPOINT_SQL =
     ''INSERT INTO ingest_checkpoint (stream, last_slot, last_write_version) FORMAT '' @
     ''Native''"

definition checkpoint_fields :: "checkpoint_row \<Rightarrow> (string \<times> sent_value) list" where
  "checkpoint_fields r =
     [(''stream'', V_Text (ck_stream r)),
      (''last_slot'', V_U64 (ck_last_slot r)),
      (''last_write_version'', V_U64 (ck_last_write_version r))]"

text \<open>\<open>obligation_snapshots\<close>\<close>

definition obligation_snapshots_table :: ch_table where
  "obligation_snapshots_table =
     \<lparr>tb_name = ''obligation_snapshots'', tb_columns =
       [(''slot'', UInt64, Plain),
        (''write_version'', UInt64, Plain),
        (''pubkey'', Fixed_Str 32, Plain),
        (''pubkey_b58'', Str, Alias),
        (''owner'', Fixed_Str 32, Plain),
        (''owner_b58'', Str, Alias),
        (''lending_market'', Fixed_Str 32, Plain),
        (''num_deposits'', UInt8, Plain),
        (''num_borrows'', UInt8, Plain),
        (''health_factor_bps'', UInt64, Plain),
        (''flags'', UInt8, Plain),
        (''elevation_group'', UInt8, Plain),
        (''referrer'', Fixed_Str 32, Plain),
        (''ingested_at'', Millis, Default),
        (''deposited_value_sf'', UInt128, Plain),
        (''borrowed_value_sf'', UInt128, Plain),
        (''borrow_factor_adjusted_debt_sf'', UInt128, Plain),
        (''allowed_borrow_value_sf'', UInt128, Plain),
        (''unhealthy_borrow_value_sf'', UInt128, Plain),
        (''lowest_deposit_liquidation_ltv'', UInt64, Plain)]\<rparr>"

definition INSERT_SNAPSHOT_SQL :: string where
  "INSERT_SNAPSHOT_SQL =
     ''INSERT INTO obligation_snapshots (slot, write_version, pubkey, owner, '' @
     ''lending_market, num_deposits, num_borrows, health_factor_bps, flags, '' @
     ''elevation_group, referrer, deposited_value_sf, borrowed_value_sf, '' @
     ''borrow_factor_adjusted_debt_sf, allowed_borrow_value_sf, '' @
     ''unhealthy_borrow_value_sf, lowest_deposit_liquidation_ltv) FORMAT Native''"

definition obligation_fields :: "obligation_snapshot_row \<Rightarrow> (string \<times> sent_value) list" where
  "obligation_fields r =
     [(''slot'', V_U64 (os_slot r)),
      (''write_version'', V_U64 (os_write_version r)),
      (''pubkey'', V_Bytes (os_pubkey r)),
      (''owner'', V_Bytes (os_owner r)),
      (''lending_market'', V_Bytes (os_lending_market r)),
      (''num_deposits'', V_U8 (os_num_deposits r)),
      (''num_borrows'', V_U8 (os_num_borrows r)),
      (''health_factor_bps'', V_U64 (os_health_factor_bps r)),
      (''flags'', V_U8 (os_flags r)),
      (''elevation_group'', V_U8 (os_elevation_group r)),
      (''referrer'', V_Bytes (os_referrer r)),
      (''deposited_value_sf'', V_U128 (os_deposited_value_sf r)),
      (''borrowed_value_sf'', V_U128 (os_borrowed_value_sf r)),
      (''borrow_factor_adjusted_debt_sf'', V_U128 (os_borrow_factor_adjusted_debt_sf r)),
      (''allowed_borrow_value_sf'', V_U128 (os_allowed_borrow_value_sf r)),
      (''unhealthy_borrow_value_sf'', V_U128 (os_unhealthy_borrow_value_sf r)),
      (''lowest_deposit_liquidation_ltv'', V_U64 (os_lowest_deposit_liquidation_ltv r))]"

text \<open>\<open>slot_gaps\<close>\<close>

definition slot_gaps_table :: ch_table where
  "slot_gaps_table =
     \<lparr>tb_name = ''slot_gaps'', tb_columns =
       [(''stream'', Low_Str, Plain),
        (''start_slot'', UInt64, Plain),
        (''end_slot'', UInt64, Plain),
        (''detected_at'', Millis, Default),
        (''filled'', UInt8, Default),
        (''reason'', Str, Plain),
        (''ingested_at'', Millis, Default)]\<rparr>"

definition INSERT_GAP_SQL :: string where
  "INSERT_GAP_SQL =
     ''INSERT INTO slot_gaps (stream, start_slot, end_slot, reason) FORMAT Native''"

definition gap_fields :: "gap_row \<Rightarrow> (string \<times> sent_value) list" where
  "gap_fields r =
     [(''stream'', V_Text (gp_stream r)),
      (''start_slot'', V_U64 (gp_start_slot r)),
      (''end_slot'', V_U64 (gp_end_slot r)),
      (''reason'', V_Text (gp_reason r))]"

text \<open>\<open>lending_market_snapshots\<close>\<close>

definition lending_market_snapshots_table :: ch_table where
  "lending_market_snapshots_table =
     \<lparr>tb_name = ''lending_market_snapshots'', tb_columns =
       [(''slot'', UInt64, Plain),
        (''write_version'', UInt64, Plain),
        (''pubkey'', Fixed_Str 32, Plain),
        (''pubkey_b58'', Str, Alias),
        (''owner'', Fixed_Str 32, Plain),
        (''owner_b58'', Str, Alias),
        (''quote_currency'', Fixed_Str 32, Plain),
        (''flags'', UInt8, Plain),
        (''referral_fee_bps'', UInt16, Plain),
        (''liquidation_max_debt_close_factor_pct'', UInt8, Plain),
        (''name'', Fixed_Str 32, Plain),
        (''ingested_at'', Millis, Default)]\<rparr>"

definition INSERT_LM_SNAPSHOT_SQL :: string where
  "INSERT_LM_SNAPSHOT_SQL =
     ''INSERT INTO lending_market_snapshots (slot, write_version, pubkey, owner, '' @
     ''quote_currency, flags, referral_fee_bps, '' @
     ''liquidation_max_debt_close_factor_pct, name) FORMAT Native''"

definition market_fields :: "lending_market_snapshot_row \<Rightarrow> (string \<times> sent_value) list" where
  "market_fields r =
     [(''slot'', V_U64 (ml_slot r)),
      (''write_version'', V_U64 (ml_write_version r)),
      (''pubkey'', V_Bytes (ml_pubkey r)),
      (''owner'', V_Bytes (ml_owner r)),
      (''quote_currency'', V_Bytes (ml_quote_currency r)),
      (''flags'', V_U8 (ml_flags r)),
      (''referral_fee_bps'', V_U16 (ml_referral_fee_bps r)),
      (''liquidation_max_debt_close_factor_pct'', V_U8 (ml_liquidation_max_debt_close_factor_pct r)),
      (''name'', V_Bytes (ml_name r))]"

text \<open>\<open>reserve_snapshots\<close>\<close>

definition reserve_snapshots_table :: ch_table where
  "reserve_snapshots_table =
     \<lparr>tb_name = ''reserve_snapshots'', tb_columns =
       [(''slot'', UInt64, Plain),
        (''write_version'', UInt64, Plain),
        (''pubkey'', Fixed_Str 32, Plain),
        (''pubkey_b58'', Str, Alias),
        (''lending_market'', Fixed_Str 32, Plain),
        (''liquidity_mint'', Fixed_Str 32, Plain),
        (''supply_vault'', Fixed_Str 32, Plain),
        (''fee_vault'', Fixed_Str 32, Plain),
        (''available_amount'', UInt64, Plain),
        (''borrowed_amount_sf'', UInt128, Plain),
        (''market_price_sf'', UInt128, Plain),
        (''mint_decimals'', UInt64, Plain),
        (''acc_protocol_fees_sf'', UInt128, Plain),
        (''acc_referrer_fees_sf'', UInt128, Plain),
        (''ingested_at'', Millis, Default)]\<rparr>"

definition INSERT_RESERVE_SNAPSHOT_SQL :: string where
  "INSERT_RESERVE_SNAPSHOT_SQL =
     ''INSERT INTO reserve_snapshots (slot, write_version, pubkey, lending_market, '' @
     ''liquidity_mint, supply_vault, fee_vault, available_amount, '' @
     ''borrowed_amount_sf, market_price_sf, mint_decimals, acc_protocol_fees_sf, '' @
     ''acc_referrer_fees_sf) FORMAT Native''"

definition reserve_fields :: "reserve_snapshot_row \<Rightarrow> (string \<times> sent_value) list" where
  "reserve_fields r =
     [(''slot'', V_U64 (sr_slot r)),
      (''write_version'', V_U64 (sr_write_version r)),
      (''pubkey'', V_Bytes (sr_pubkey r)),
      (''lending_market'', V_Bytes (sr_lending_market r)),
      (''liquidity_mint'', V_Bytes (sr_liquidity_mint r)),
      (''supply_vault'', V_Bytes (sr_supply_vault r)),
      (''fee_vault'', V_Bytes (sr_fee_vault r)),
      (''available_amount'', V_U64 (sr_available_amount r)),
      (''borrowed_amount_sf'', V_U128 (sr_borrowed_amount_sf r)),
      (''market_price_sf'', V_U128 (sr_market_price_sf r)),
      (''mint_decimals'', V_U64 (sr_mint_decimals r)),
      (''acc_protocol_fees_sf'', V_U128 (sr_acc_protocol_fees_sf r)),
      (''acc_referrer_fees_sf'', V_U128 (sr_acc_referrer_fees_sf r))]"

text \<open>\<open>snapshot_runs\<close>\<close>

definition snapshot_runs_table :: ch_table where
  "snapshot_runs_table =
     \<lparr>tb_name = ''snapshot_runs'', tb_columns =
       [(''slot'', UInt64, Plain),
        (''scope'', Low_Str, Plain),
        (''accounts'', UInt64, Plain),
        (''rows_written'', UInt64, Plain),
        (''decode_failures'', UInt64, Plain),
        (''duration_ms'', UInt64, Plain),
        (''ingested_at'', Millis, Default)]\<rparr>"

definition INSERT_RUN_SQL :: string where
  "INSERT_RUN_SQL =
     ''INSERT INTO snapshot_runs (slot, scope, accounts, rows_written, '' @
     ''decode_failures, duration_ms) FORMAT Native''"

definition run_fields :: "snapshot_run_row \<Rightarrow> (string \<times> sent_value) list" where
  "run_fields r =
     [(''slot'', V_U64 (sn_slot r)),
      (''scope'', V_Text (sn_scope r)),
      (''accounts'', V_U64 (sn_accounts r)),
      (''rows_written'', V_U64 (sn_rows_written r)),
      (''decode_failures'', V_U64 (sn_decode_failures r)),
      (''duration_ms'', V_U64 (sn_duration_ms r))]"

section \<open>The statements that read\<close>

text \<open>
  Output name and input column of an item of a \<open>SELECT\<close>: \<open>f(col) AS name\<close> or \<open>col\<close>. The input of
  \<open>count()\<close> is empty.
\<close>

definition select_item :: "string \<Rightarrow> string \<times> string" where
  "select_item s =
     (if CHR ''('' \<in> set s
      then (rev (takeWhile (\<lambda>c. c \<noteq> CHR '' '') (rev s)),
            takeWhile (\<lambda>c. c \<noteq> CHR '')'') (drop 1 (dropWhile (\<lambda>c. c \<noteq> CHR ''('') s)))
      else (s, s))"

fun until_from :: "string \<Rightarrow> string" where
  "until_from [] = []"
| "until_from (c # cs) = (if c = CHR '' '' \<and> take 5 cs = ''FROM '' then [] else c # until_from cs)"

definition select_items :: "string \<Rightarrow> (string \<times> string) list" where
  "select_items sql = map select_item (items (until_from (drop 7 sql)))"

text \<open>What stands between \<open>SELECT\<close> and \<open>FROM\<close> in the two streaming statements.\<close>

definition UPDATE_ITEMS :: string where
  "UPDATE_ITEMS =
     ''slot, write_version, hex(pubkey) AS pubkey_hex, kind, hex(owner) AS '' @
     ''owner_hex, lamports, data, data_len, toUnixTimestamp64Milli(ingested_at) AS '' @
     ''ingested_at_ms''"

definition updates_select :: "u64 \<Rightarrow> u64 \<Rightarrow> string" where
  "updates_select lo hi =
     ''SELECT '' @ UPDATE_ITEMS @ '' FROM account_updates FINAL WHERE slot >= '' @ decimal (unat lo) @
     '' AND slot < '' @ decimal (unat hi) @ '' ORDER BY slot, write_version, pubkey''"

definition EXPORT_ROW_FIELDS :: "string list" where
  "EXPORT_ROW_FIELDS =
     [''slot'', ''write_version'', ''pubkey_hex'', ''kind'', ''owner_hex'', ''lamports'',
      ''data'', ''data_len'', ''ingested_at_ms'']"

definition SNAPSHOT_ITEMS :: string where
  "SNAPSHOT_ITEMS =
     ''slot, write_version, hex(pubkey) AS pubkey_hex, hex(owner) AS '' @
     ''owner_hex, hex(lending_market) AS lending_market_hex, num_deposits, '' @
     ''num_borrows, health_factor_bps, flags, elevation_group, hex(referrer) AS '' @
     ''referrer_hex, toUnixTimestamp64Milli(ingested_at) AS ingested_at_ms, '' @
     ''toString(deposited_value_sf) AS deposited_value_sf, '' @
     ''toString(borrowed_value_sf) AS borrowed_value_sf, '' @
     ''toString(borrow_factor_adjusted_debt_sf) AS borrow_factor_adjusted_debt_sf, '' @
     ''toString(allowed_borrow_value_sf) AS allowed_borrow_value_sf, '' @
     ''toString(unhealthy_borrow_value_sf) AS unhealthy_borrow_value_sf, '' @
     ''lowest_deposit_liquidation_ltv''"

definition snapshots_select :: "u64 \<Rightarrow> u64 \<Rightarrow> string" where
  "snapshots_select lo hi =
     ''SELECT '' @ SNAPSHOT_ITEMS @ '' FROM obligation_snapshots FINAL WHERE slot >= '' @ decimal (unat lo) @
     '' AND slot < '' @ decimal (unat hi) @ '' ORDER BY slot, write_version, pubkey''"

definition SNAPSHOT_ROW_FIELDS :: "string list" where
  "SNAPSHOT_ROW_FIELDS =
     [''slot'', ''write_version'', ''pubkey_hex'', ''owner_hex'', ''lending_market_hex'',
      ''num_deposits'', ''num_borrows'', ''health_factor_bps'', ''flags'', ''elevation_group'',
      ''referrer_hex'', ''ingested_at_ms'', ''deposited_value_sf'', ''borrowed_value_sf'',
      ''borrow_factor_adjusted_debt_sf'', ''allowed_borrow_value_sf'',
      ''unhealthy_borrow_value_sf'', ''lowest_deposit_liquidation_ltv'']"

definition bounds_select :: "string \<Rightarrow> string" where
  "bounds_select tbl = ''SELECT min(slot) AS lo, max(slot) AS hi, count() AS rows FROM '' @ tbl"

definition BOUNDS_FIELDS :: "string list" where
  "BOUNDS_FIELDS = [''lo'', ''hi'', ''rows'']"

definition CHECKPOINT_SELECT :: string where
  "CHECKPOINT_SELECT = ''SELECT last_slot FROM ingest_checkpoint FINAL WHERE stream = '' @ [CHR 0x27] @ STREAM @ [CHR 0x27]"

text \<open>The items are the fields of the row struct, in order, and read columns of the table.\<close>

definition select_ok :: "ch_table \<Rightarrow> string \<Rightarrow> string list \<Rightarrow> bool" where
  "select_ok t sql fs \<longleftrightarrow>
     map fst (select_items sql) = fs
     \<and> list_all (\<lambda>(name, col). col = [] \<or> col \<in> set (map fst (tb_columns t))) (select_items sql)"

section \<open>The statements fit\<close>

lemmas insert_rules = insert_ok_def parse_insert_def items_def Let_def

lemma updates_insert_ok:
  "length (au_pubkey r) = 32 \<Longrightarrow> length (au_owner r) = 32 \<Longrightarrow>
     insert_ok account_updates_table INSERT_UPDATES_SQL (update_fields r)"
  by (simp add: insert_rules account_updates_table_def INSERT_UPDATES_SQL_def update_fields_def)

lemma checkpoint_insert_ok: "insert_ok ingest_checkpoint_table INSERT_CHECKPOINT_SQL (checkpoint_fields r)"
  by (simp add: insert_rules ingest_checkpoint_table_def INSERT_CHECKPOINT_SQL_def checkpoint_fields_def)

lemma gap_insert_ok: "insert_ok slot_gaps_table INSERT_GAP_SQL (gap_fields r)"
  by (simp add: insert_rules slot_gaps_table_def INSERT_GAP_SQL_def gap_fields_def)

lemma run_insert_ok: "insert_ok snapshot_runs_table INSERT_RUN_SQL (run_fields r)"
  by (simp add: insert_rules snapshot_runs_table_def INSERT_RUN_SQL_def run_fields_def)

lemma obligation_insert_ok:
  "list_all (\<lambda>k. length k = 32) [os_pubkey r, os_owner r, os_lending_market r, os_referrer r] \<Longrightarrow>
     insert_ok obligation_snapshots_table INSERT_SNAPSHOT_SQL (obligation_fields r)"
  by (simp add: insert_rules obligation_snapshots_table_def INSERT_SNAPSHOT_SQL_def obligation_fields_def)

lemma reserve_insert_ok:
  "list_all (\<lambda>k. length k = 32)
       [sr_pubkey r, sr_lending_market r, sr_liquidity_mint r, sr_supply_vault r, sr_fee_vault r] \<Longrightarrow>
     insert_ok reserve_snapshots_table INSERT_RESERVE_SNAPSHOT_SQL (reserve_fields r)"
  by (simp add: insert_rules reserve_snapshots_table_def INSERT_RESERVE_SNAPSHOT_SQL_def reserve_fields_def)

lemma market_insert_ok:
  "list_all (\<lambda>k. length k = 32) [ml_pubkey r, ml_owner r, ml_quote_currency r, ml_name r] \<Longrightarrow>
     insert_ok lending_market_snapshots_table INSERT_LM_SNAPSHOT_SQL (market_fields r)"
  by (simp add: insert_rules lending_market_snapshots_table_def INSERT_LM_SNAPSHOT_SQL_def market_fields_def)

text \<open>The byte fields of a decoded account are 32 bytes, as the columns want them.\<close>

lemma decoded_obligation_sizes:
  assumes "decode_obligation cast data = Some (Inr d)"
  shows "length (do_owner d) = 32" "length (do_lending_market d) = 32" "length (do_referrer d) = 32"
proof -
  from assms have "wf_obligation (dec_obligation (slice 8 3336 data))"
    and d: "d = decoded_of_obligation (dec_obligation (slice 8 3336 data))"
    by (auto simp: decode_obligation_Inr_iff length_slice intro!: ob.dec_wf)
  then show "length (do_owner d) = 32" "length (do_lending_market d) = 32" "length (do_referrer d) = 32"
    by (simp_all add: d decoded_of_obligation_def Let_def wf_obligation_def wf_bytes_def)
qed

lemma decoded_reserve_sizes:
  assumes "decode_reserve cast data = Some (Inr d)"
  shows "list_all (\<lambda>k. length k = 32) [dr_lending_market d, dr_liquidity_mint d, dr_supply_vault d, dr_fee_vault d]"
proof -
  from assms have "wf_reserve_lite (dec_reserve_lite (slice 8 1352 data))"
    and d: "d = decoded_of_reserve (dec_reserve_lite (slice 8 1352 data))"
    by (auto simp: decode_reserve_Inr_iff length_slice intro!: rt.dec_wf)
  then show ?thesis
    by (simp add: d decoded_of_reserve_def Let_def wf_reserve_lite_def wf_reserve_liquidity_def wf_bytes_def)
qed

lemma decoded_market_sizes:
  assumes "decode_lending_market cast spl data = Some (Inr d)"
  shows "list_all (\<lambda>k. length k = 32) [dm_owner d, dm_quote_currency d, dm_name d]"
proof -
  from assms have "wf_lending_market (dec_lending_market (slice 8 4656 data))"
    and d: "d = decoded_of_market (dec_lending_market (slice 8 4656 data))"
    by (auto simp: decode_lending_market_Inr_iff length_slice intro!: lm.dec_wf)
  then show ?thesis
    by (simp add: d decoded_of_market_def wf_lending_market_def wf_bytes_def)
qed

text \<open>The statement each row of the four data tables is sent with.\<close>

fun insert_of :: "data_row \<Rightarrow> ch_table \<times> string \<times> (string \<times> sent_value) list" where
  "insert_of (Raw r) = (account_updates_table, INSERT_UPDATES_SQL, update_fields r)"
| "insert_of (Obligation_Snapshot r) = (obligation_snapshots_table, INSERT_SNAPSHOT_SQL, obligation_fields r)"
| "insert_of (Reserve_Snapshot r) = (reserve_snapshots_table, INSERT_RESERVE_SNAPSHOT_SQL, reserve_fields r)"
| "insert_of (Market_Snapshot r) = (lending_market_snapshots_table, INSERT_LM_SNAPSHOT_SQL, market_fields r)"

lemma until_from_tail: "until_from (xs @ '' FROM '' @ ys) = until_from (xs @ '' FROM '')"
proof (induction xs)
  case (Cons x xs)
  have "take 5 ((xs @ '' FROM '') @ ys) = take 5 (xs @ '' FROM '')"
    by (subst take_append) (simp del: append_assoc)
  then have "take 5 (xs @ '' FROM '' @ ys) = take 5 (xs @ '' FROM '')"
    by (simp only: append_assoc)
  with Cons show ?case by simp
qed simp

lemma select_items_from: "select_items (''SELECT '' @ cols @ '' FROM '' @ rest) = select_items (''SELECT '' @ cols @ '' FROM '')"
  using until_from_tail [of cols rest] by (simp add: select_items_def)

lemma update_items:
  "select_items (''SELECT '' @ UPDATE_ITEMS @ '' FROM '') =
     [(''slot'', ''slot''), (''write_version'', ''write_version''), (''pubkey_hex'', ''pubkey''),
      (''kind'', ''kind''), (''owner_hex'', ''owner''), (''lamports'', ''lamports''), (''data'', ''data''),
      (''data_len'', ''data_len''), (''ingested_at_ms'', ''ingested_at'')]"
  by code_simp

lemma snapshot_items:
  "select_items (''SELECT '' @ SNAPSHOT_ITEMS @ '' FROM '') =
     [(''slot'', ''slot''), (''write_version'', ''write_version''), (''pubkey_hex'', ''pubkey''),
      (''owner_hex'', ''owner''), (''lending_market_hex'', ''lending_market''),
      (''num_deposits'', ''num_deposits''), (''num_borrows'', ''num_borrows''),
      (''health_factor_bps'', ''health_factor_bps''), (''flags'', ''flags''),
      (''elevation_group'', ''elevation_group''), (''referrer_hex'', ''referrer''),
      (''ingested_at_ms'', ''ingested_at''), (''deposited_value_sf'', ''deposited_value_sf''),
      (''borrowed_value_sf'', ''borrowed_value_sf''),
      (''borrow_factor_adjusted_debt_sf'', ''borrow_factor_adjusted_debt_sf''),
      (''allowed_borrow_value_sf'', ''allowed_borrow_value_sf''),
      (''unhealthy_borrow_value_sf'', ''unhealthy_borrow_value_sf''),
      (''lowest_deposit_liquidation_ltv'', ''lowest_deposit_liquidation_ltv'')]"
  by code_simp

lemma updates_select_ok: "select_ok account_updates_table (updates_select lo hi) EXPORT_ROW_FIELDS"
proof -
  have "updates_select lo hi = ''SELECT '' @ UPDATE_ITEMS @ '' FROM '' @ ''account_updates FINAL WHERE slot >= '' @
      decimal (unat lo) @ '' AND slot < '' @ decimal (unat hi) @ '' ORDER BY slot, write_version, pubkey''"
    by (simp add: updates_select_def)
  then show ?thesis
    unfolding select_ok_def
    by (simp only: select_items_from update_items) (simp add: EXPORT_ROW_FIELDS_def account_updates_table_def)
qed

lemma snapshots_select_ok: "select_ok obligation_snapshots_table (snapshots_select lo hi) SNAPSHOT_ROW_FIELDS"
proof -
  have "snapshots_select lo hi = ''SELECT '' @ SNAPSHOT_ITEMS @ '' FROM '' @
      ''obligation_snapshots FINAL WHERE slot >= '' @ decimal (unat lo) @ '' AND slot < '' @ decimal (unat hi) @
      '' ORDER BY slot, write_version, pubkey''"
    by (simp add: snapshots_select_def)
  then show ?thesis
    unfolding select_ok_def
    by (simp only: select_items_from snapshot_items) (simp add: SNAPSHOT_ROW_FIELDS_def obligation_snapshots_table_def)
qed

lemma bounds_select_ok:
  "select_ok account_updates_table (bounds_select ''account_updates'') BOUNDS_FIELDS"
  "select_ok obligation_snapshots_table (bounds_select ''obligation_snapshots'') BOUNDS_FIELDS"
  by (simp_all add: select_ok_def select_items_def select_item_def items_def bounds_select_def BOUNDS_FIELDS_def
      account_updates_table_def obligation_snapshots_table_def)

lemma checkpoint_select_ok: "select_ok ingest_checkpoint_table CHECKPOINT_SELECT [''last_slot'']"
  by (simp add: select_ok_def select_items_def select_item_def items_def CHECKPOINT_SELECT_def STREAM_def
      ingest_checkpoint_table_def)

section \<open>Properties\<close>

text \<open>
  C19 The SQL of the program fits its schema. Every row that an update with 32-byte keys becomes,
  raw or decoded, is sent by a statement that names its table and exactly the fields of the row;
  each field is a column the writer supplies and its value has the column's type, 32 bytes where
  the column is \<open>FixedString(32)\<close>; and every column left out is filled by the server. The same
  holds for checkpoints, gaps and snapshot runs, and every \<open>SELECT\<close> returns, from columns its
  table has, the fields of the struct it is read into.
\<close>

theorem statements_fit_schema:
  assumes "length (ai_pubkey info) = 32" and "length (ai_owner info) = 32" and "row \<in> rows_of ext (slot, info)"
  shows "(case insert_of row of (t, sql, fs) \<Rightarrow> insert_ok t sql fs)
    \<and> insert_ok ingest_checkpoint_table INSERT_CHECKPOINT_SQL (checkpoint_fields cp)
    \<and> insert_ok slot_gaps_table INSERT_GAP_SQL (gap_fields gp)
    \<and> insert_ok snapshot_runs_table INSERT_RUN_SQL (run_fields rn)
    \<and> select_ok ingest_checkpoint_table CHECKPOINT_SELECT [''last_slot'']
    \<and> select_ok account_updates_table (updates_select lo hi) EXPORT_ROW_FIELDS
    \<and> select_ok obligation_snapshots_table (snapshots_select lo hi) SNAPSHOT_ROW_FIELDS
    \<and> select_ok account_updates_table (bounds_select ''account_updates'') BOUNDS_FIELDS
    \<and> select_ok obligation_snapshots_table (bounds_select ''obligation_snapshots'') BOUNDS_FIELDS"
proof -
  have "case insert_of row of (t, sql, fs) \<Rightarrow> insert_ok t sql fs"
    using assms
    by (auto simp: rows_of_def Let_def row_of_def update_row_def obligation_row_def reserve_row_def market_row_def
        decoded_obligation_sizes
        intro!: updates_insert_ok obligation_insert_ok reserve_insert_ok market_insert_ok
        dest!: decoded_reserve_sizes decoded_market_sizes)
  then show ?thesis
    by (simp add: checkpoint_insert_ok gap_insert_ok run_insert_ok checkpoint_select_ok updates_select_ok
        snapshots_select_ok bounds_select_ok)
qed

theorem statements_fit_schema_witness:
  "insert_ok account_updates_table INSERT_UPDATES_SQL (update_fields (row_of demo_ext (10, demo_info 1)))"
proof -
  have "Raw (row_of demo_ext (10, demo_info 1)) \<in> rows_of demo_ext (10, demo_info 1)"
    by (simp add: rows_of_def Let_def)
  moreover have "length (ai_pubkey (demo_info 1)) = 32" "length (ai_owner (demo_info 1)) = 32"
    by (simp_all add: demo_info_def)
  ultimately show ?thesis
    using statements_fit_schema [of "demo_info 1" "Raw (row_of demo_ext (10, demo_info 1))" demo_ext 10] by simp
qed

end
