(* ===== verification/Sha256.thy ===== *)
theory Sha256
  imports Prelude
begin

text \<open>
  The compile-time SHA-256 of \<open>vendor/klend-interface/src/discriminators.rs\<close>:
  \<open>compress_block\<close> and \<open>sha256_first8\<close> with their arrays and loops, and, as the reference,
  the standard's hash of a byte string of any length (message schedule by recursion,
  padding to a multiple of 64 bytes, blocks folded one after another).
\<close>

section \<open>The standard's functions\<close>

text \<open>\<open>u32::rotate_right\<close>, for the amounts between 1 and 31 that the code uses.\<close>

definition rotate_right :: "u32 \<Rightarrow> nat \<Rightarrow> u32" where
  "rotate_right x n = drop_bit n x OR push_bit (32 - n) x"

lemma bit_rotate_right:
  assumes "0 < n" and "n < 32" and "i < 32"
  shows "bit (rotate_right x n) i \<longleftrightarrow> bit x ((i + n) mod 32)"
proof (cases "i + n < 32")
  case True
  then have "\<not> 32 - n \<le> i" by linarith
  with True assms show ?thesis
    by (simp add: rotate_right_def bit_or_iff bit_drop_bit_eq bit_push_bit_iff possible_bit_def ac_simps)
next
  case False
  then have "(i + n) mod 32 = i + n - 32" and "\<not> bit x (i + n)"
    using assms by (auto simp: mod_if dest: bit_imp_le_length)
  moreover have "32 - n \<le> i" using False by linarith
  ultimately show ?thesis
    using assms
    by (simp add: rotate_right_def bit_or_iff bit_drop_bit_eq bit_push_bit_iff possible_bit_def ac_simps)
qed

definition small_sigma0 :: "u32 \<Rightarrow> u32" where
  "small_sigma0 x = rotate_right x 7 XOR rotate_right x 18 XOR drop_bit 3 x"

definition small_sigma1 :: "u32 \<Rightarrow> u32" where
  "small_sigma1 x = rotate_right x 17 XOR rotate_right x 19 XOR drop_bit 10 x"

definition big_sigma0 :: "u32 \<Rightarrow> u32" where
  "big_sigma0 x = rotate_right x 2 XOR rotate_right x 13 XOR rotate_right x 22"

definition big_sigma1 :: "u32 \<Rightarrow> u32" where
  "big_sigma1 x = rotate_right x 6 XOR rotate_right x 11 XOR rotate_right x 25"

definition choose_bits :: "u32 \<Rightarrow> u32 \<Rightarrow> u32 \<Rightarrow> u32" where
  "choose_bits e f g = (e AND f) XOR (NOT e AND g)"

definition majority_bits :: "u32 \<Rightarrow> u32 \<Rightarrow> u32 \<Rightarrow> u32" where
  "majority_bits a b c = (a AND b) XOR (a AND c) XOR (b AND c)"

definition SHA256_K :: "u32 list" where
  "SHA256_K =
     [1116352408, 1899447441, 3049323471, 3921009573, 961987163, 1508970993,
      2453635748, 2870763221, 3624381080, 310598401, 607225278, 1426881987,
      1925078388, 2162078206, 2614888103, 3248222580, 3835390401, 4022224774,
      264347078, 604807628, 770255983, 1249150122, 1555081692, 1996064986,
      2554220882, 2821834349, 2952996808, 3210313671, 3336571891, 3584528711,
      113926993, 338241895, 666307205, 773529912, 1294757372, 1396182291,
      1695183700, 1986661051, 2177026350, 2456956037, 2730485921, 2820302411,
      3259730800, 3345764771, 3516065817, 3600352804, 4094571909, 275423344,
      430227734, 506948616, 659060556, 883997877, 958139571, 1322822218,
      1537002063, 1747873779, 1955562222, 2024104815, 2227730452, 2361852424,
      2428436474, 2756734187, 3204031479, 3329325298]"

lemma length_SHA256_K: "length SHA256_K = 64"
  by (simp add: SHA256_K_def)

definition SHA256_H :: "u32 list" where
  "SHA256_H =
     [1779033703, 3144134277, 1013904242, 2773480762,
      1359893119, 2600822924, 528734635, 1541459225]"

text \<open>Four bytes, most significant first.\<close>

definition be32 :: "u8 \<Rightarrow> u8 \<Rightarrow> u8 \<Rightarrow> u8 \<Rightarrow> u32" where
  "be32 b0 b1 b2 b3 =
     push_bit 24 (ucast b0) OR push_bit 16 (ucast b1) OR push_bit 8 (ucast b2) OR ucast b3"

definition block_word :: "bytes \<Rightarrow> nat \<Rightarrow> u32" where
  "block_word block i =
     be32 (block ! (i * 4)) (block ! (i * 4 + 1)) (block ! (i * 4 + 2)) (block ! (i * 4 + 3))"

section \<open>The code\<close>

text \<open>One loop body each; an array is a list of its length and an assignment is \<open>w[i := x]\<close>.\<close>

definition schedule_step :: "nat \<Rightarrow> u32 list \<Rightarrow> u32 list" where
  "schedule_step i w =
     w[i := w ! (i - 16) + small_sigma0 (w ! (i - 15)) + w ! (i - 7) + small_sigma1 (w ! (i - 2))]"

definition message_schedule :: "bytes \<Rightarrow> u32 list" where
  "message_schedule block =
     (let w = replicate 64 0;
          w = fold (\<lambda>i w. w[i := block_word block i]) [0..<16] w
      in fold schedule_step [16..<64] w)"

type_synonym hash_state = "u32 \<times> u32 \<times> u32 \<times> u32 \<times> u32 \<times> u32 \<times> u32 \<times> u32"

fun round_step :: "u32 \<Rightarrow> u32 \<Rightarrow> hash_state \<Rightarrow> hash_state" where
  "round_step k wi (a, b, c, d, e, f, g, hh) =
     (let s1 = big_sigma1 e;
          ch = choose_bits e f g;
          temp1 = hh + s1 + ch + k + wi;
          s0 = big_sigma0 a;
          maj = majority_bits a b c;
          temp2 = s0 + maj
      in (temp1 + temp2, a, b, c, d + temp1, e, f, g))"

definition compress_block :: "u32 list \<Rightarrow> bytes \<Rightarrow> u32 list" where
  "compress_block h block =
     (let w = message_schedule block in
      case fold (\<lambda>i. round_step (SHA256_K ! i) (w ! i)) [0..<64]
             (h ! 0, h ! 1, h ! 2, h ! 3, h ! 4, h ! 5, h ! 6, h ! 7) of
        (a, b, c, d, e, f, g, hh) \<Rightarrow>
          [h ! 0 + a, h ! 1 + b, h ! 2 + c, h ! 3 + d, h ! 4 + e, h ! 5 + f, h ! 6 + g, h ! 7 + hh])"

definition be_bytes32 :: "u32 \<Rightarrow> bytes" where
  "be_bytes32 x = [ucast (drop_bit 24 x), ucast (drop_bit 16 x), ucast (drop_bit 8 x), ucast x]"

definition be_bytes64 :: "u64 \<Rightarrow> bytes" where
  "be_bytes64 x =
     [ucast (drop_bit 56 x), ucast (drop_bit 48 x), ucast (drop_bit 40 x), ucast (drop_bit 32 x),
      ucast (drop_bit 24 x), ucast (drop_bit 16 x), ucast (drop_bit 8 x), ucast x]"

text \<open>\<open>padded[padded_len - 8] = ...\<close> to \<open>padded[padded_len - 1] = ...\<close>: eight stores in a row.\<close>

definition store_bytes :: "nat \<Rightarrow> bytes \<Rightarrow> bytes \<Rightarrow> bytes" where
  "store_bytes off bs p = fold (\<lambda>i p. p[off + i := bs ! i]) [0..<length bs] p"

definition padded_message :: "bytes \<Rightarrow> bytes" where
  "padded_message msg =
     (let bit_len = of_nat (length msg) * 8;
          padded_len = (if length msg + 9 \<le> 64 then 64 else 128);
          padded = replicate 128 0;
          padded = fold (\<lambda>i p. p[i := msg ! i]) [0..<length msg] padded;
          padded = padded[length msg := 0x80]
      in store_bytes (padded_len - 8) (be_bytes64 bit_len) padded)"

text \<open>
  \<open>None\<close> is the out-of-bounds panic: the message is copied into an array of 128 bytes and a
  terminator is stored behind it. Between 120 and 127 bytes it returns, with a wrong hash.
\<close>

definition sha256_first8 :: "bytes \<Rightarrow> bytes option" where
  "sha256_first8 msg =
     (if 128 \<le> length msg then None
      else let padded_len = (if length msg + 9 \<le> 64 then 64 else 128 :: nat);
          padded = padded_message msg;
          h = compress_block SHA256_H (map (\<lambda>i. padded ! i) [0..<64]);
          h = (if 64 < padded_len then compress_block h (map (\<lambda>i. padded ! (64 + i)) [0..<64]) else h)
        in Some (be_bytes32 (h ! 0) @ be_bytes32 (h ! 1)))"

section \<open>The reference\<close>

fun sched :: "(nat \<Rightarrow> u32) \<Rightarrow> nat \<Rightarrow> u32" where
  "sched m t =
     (if t < 16 then m t
      else small_sigma1 (sched m (t - 2)) + sched m (t - 7) + small_sigma0 (sched m (t - 15)) + sched m (t - 16))"

declare sched.simps [simp del]

definition sha256_block :: "u32 list \<Rightarrow> bytes \<Rightarrow> u32 list" where
  "sha256_block h block =
     (case fold (\<lambda>t. round_step (SHA256_K ! t) (sched (block_word block) t)) [0..<64]
             (h ! 0, h ! 1, h ! 2, h ! 3, h ! 4, h ! 5, h ! 6, h ! 7) of
        (a, b, c, d, e, f, g, hh) \<Rightarrow>
          [h ! 0 + a, h ! 1 + b, h ! 2 + c, h ! 3 + d, h ! 4 + e, h ! 5 + f, h ! 6 + g, h ! 7 + hh])"

definition sha256_pad :: "bytes \<Rightarrow> bytes" where
  "sha256_pad msg = msg @ [0x80] @ replicate ((119 - length msg mod 64) mod 64) 0 @ be_bytes64 (of_nat (8 * length msg))"

definition blocks_of :: "bytes \<Rightarrow> bytes list" where
  "blocks_of bs = map (\<lambda>i. slice (64 * i) 64 bs) [0..<length bs div 64]"

definition sha256 :: "bytes \<Rightarrow> bytes" where
  "sha256 msg = concat (map be_bytes32 (foldl sha256_block SHA256_H (blocks_of (sha256_pad msg))))"

section \<open>The code computes the reference\<close>

lemma fold_update_prefix:
  assumes "n \<le> length xs"
  shows "fold (\<lambda>i p. p[i := f i]) [0..<n] xs = map f [0..<n] @ drop n xs"
  using assms
proof (induction n)
  case 0
  then show ?case by simp
next
  case (Suc n)
  then have "fold (\<lambda>i p. p[i := f i]) [0..<n] xs = map f [0..<n] @ drop n xs" by simp
  moreover have "drop n xs = xs ! n # drop (Suc n) xs"
    using Suc.prems by (simp add: Cons_nth_drop_Suc)
  ultimately show ?case
    by (simp add: list_update_append)
qed

text \<open>The schedule array after the second loop has reached index \<open>n\<close>.\<close>

lemma schedule_fold:
  assumes "16 \<le> n" and "n \<le> 64"
  shows "fold schedule_step [16..<n] (map m [0..<16] @ replicate 48 0)
    = map (sched m) [0..<n] @ replicate (64 - n) 0"
  using assms
proof (induction n rule: dec_induct)
  case base
  have "map m [0..<16] = map (sched m) [0..<16]"
    by (rule map_cong) (auto simp: sched.simps)
  then show ?case by simp
next
  case (step n)
  let ?w = "map (sched m) [0..<n] @ replicate (64 - n) 0"
  have IH: "fold schedule_step [16..<n] (map m [0..<16] @ replicate 48 0) = ?w"
    using step by simp
  have w: "?w ! j = sched m j" if "j < n" for j
    using that by (simp add: nth_append)
  have "replicate (64 - n) (0 :: u32) = 0 # replicate (64 - Suc n) 0"
    using step.prems by (metis Suc_diff_le Suc_le_eq diff_Suc_Suc replicate_Suc)
  then have upd: "?w[n := x] = map (sched m) [0..<n] @ x # replicate (64 - Suc n) 0" for x
    by (simp add: list_update_append)
  have "schedule_step n ?w = map (sched m) [0..<Suc n] @ replicate (64 - Suc n) 0"
    unfolding schedule_step_def upd
    using step.hyps by (subst w, simp)+ (simp add: sched.simps [of m n] ac_simps)
  with IH step.hyps show ?case by simp
qed

lemma message_schedule_sched: "message_schedule block = map (sched (block_word block)) [0..<64]"
proof -
  have "fold (\<lambda>i w. w[i := block_word block i]) [0..<16] (replicate 64 0)
      = map (block_word block) [0..<16] @ replicate 48 0"
    by (subst fold_update_prefix) simp_all
  then show ?thesis
    unfolding message_schedule_def Let_def using schedule_fold [of 64 "block_word block"] by simp
qed

lemma compress_block_eq: "compress_block h block = sha256_block h block"
proof -
  have "fold (\<lambda>i. round_step (SHA256_K ! i) (message_schedule block ! i)) [0..<64] s
      = fold (\<lambda>t. round_step (SHA256_K ! t) (sched (block_word block) t)) [0..<64] s" for s
    by (rule List.fold_cong) (auto simp: message_schedule_sched)
  then show ?thesis
    by (simp only: compress_block_def sha256_block_def Let_def)
qed

lemma store_bytes_eq:
  assumes "off + length bs \<le> length p"
  shows "store_bytes off bs p = take off p @ bs @ drop (off + length bs) p"
proof -
  have "fold (\<lambda>i p. p[off + i := bs ! i]) [0..<n] p = take off p @ take n bs @ drop (off + n) p"
    if "n \<le> length bs" for n
    using that
  proof (induction n)
    case 0
    then show ?case by simp
  next
    case (Suc n)
    then have IH: "fold (\<lambda>i p. p[off + i := bs ! i]) [0..<n] p = take off p @ take n bs @ drop (off + n) p"
      by simp
    have "drop (off + n) p = p ! (off + n) # drop (off + Suc n) p"
      using Suc.prems assms by (simp add: Cons_nth_drop_Suc)
    with Suc.prems assms show ?case
      by (simp add: IH list_update_append min_def take_Suc_conv_app_nth)
  qed
  from this [of "length bs"] show ?thesis by (simp add: store_bytes_def)
qed

definition padded_len :: "bytes \<Rightarrow> nat" where
  "padded_len msg = (if length msg + 9 \<le> 64 then 64 else 128)"

lemma length_be_bytes64 [simp]: "length (be_bytes64 x) = 8"
  by (simp add: be_bytes64_def)

lemma padded_zeros:
  assumes "length msg \<le> 119"
  shows "(119 - length msg mod 64) mod 64 = padded_len msg - 9 - length msg"
proof (cases "length msg < 64")
  case True
  then show ?thesis
    by (cases "length msg < 56") (auto simp: padded_len_def mod_if)
next
  case False
  with assms have "length msg mod 64 = length msg - 64"
    by (simp add: mod_if)
  with False assms show ?thesis
    by (auto simp: padded_len_def mod_if)
qed

lemma padded_message_eq:
  assumes "length msg \<le> 119"
  shows "padded_message msg = sha256_pad msg @ replicate (128 - padded_len msg) 0"
    and "length (sha256_pad msg) = padded_len msg"
proof -
  let ?P = "padded_len msg"
  have P: "length msg + 9 \<le> ?P" "?P \<le> 128" using assms by (auto simp: padded_len_def)
  have copy: "fold (\<lambda>i p. p[i := msg ! i]) [0..<length msg] (replicate 128 0) = msg @ replicate (128 - length msg) 0"
    using assms by (subst fold_update_prefix) (simp_all add: map_nth)
  have "replicate (128 - length msg) (0 :: u8) = 0 # replicate (127 - length msg) 0"
    using assms by (cases "128 - length msg") (auto simp: Suc_diff_le)
  then have mark: "(msg @ replicate (128 - length msg) 0)[length msg := 0x80] = msg @ 0x80 # replicate (127 - length msg) 0"
    by (simp add: list_update_append)
  have take_off: "take (?P - 8) (msg @ 0x80 # replicate (127 - length msg) 0)
      = msg @ 0x80 # replicate (?P - 9 - length msg) (0 :: u8)"
    using P by (simp add: take_Cons' min_def)
  have drop_off: "drop (?P - 8 + 8) (msg @ 0x80 # replicate (127 - length msg) 0) = replicate (128 - ?P) (0 :: u8)"
    using P by (simp add: drop_Cons')
  have len: "of_nat (length msg) * 8 = (of_nat (8 * length msg) :: u64)" by simp
  have store: "store_bytes (?P - 8) bs (msg @ 0x80 # replicate (127 - length msg) 0)
      = (msg @ 0x80 # replicate (?P - 9 - length msg) 0) @ bs @ replicate (128 - ?P) 0"
    if "length bs = 8" for bs :: bytes
  proof -
    have "?P - 8 + length bs \<le> length (msg @ 0x80 # replicate (127 - length msg) (0 :: u8))"
      using P that by simp
    from store_bytes_eq [OF this] show ?thesis
      using that take_off drop_off by simp
  qed
  show "padded_message msg = sha256_pad msg @ replicate (128 - ?P) 0"
    unfolding padded_message_def Let_def copy mark padded_len_def [symmetric] len
    by (subst store) (simp_all add: sha256_pad_def padded_zeros [OF assms])
  show "length (sha256_pad msg) = ?P"
    using P by (simp add: sha256_pad_def padded_zeros [OF assms])
qed

lemma length_sha256_block [simp]: "length (sha256_block h block) = 8"
  by (simp add: sha256_block_def split: prod.splits)

lemma take8_digest:
  assumes "length hs = 8"
  shows "take 8 (concat (map be_bytes32 hs)) = be_bytes32 (hs ! 0) @ be_bytes32 (hs ! 1)"
proof -
  from assms obtain a hs' where hs: "hs = a # hs'" by (cases hs) auto
  with assms obtain b rest where "hs' = b # rest" by (cases hs') auto
  with hs show ?thesis by (simp add: be_bytes32_def)
qed

lemma map_nth_slice: "off + n \<le> length xs \<Longrightarrow> map (\<lambda>i. xs ! (off + i)) [0..<n] = slice off n xs"
  by (rule nth_equalityI) (auto simp: length_slice_le nth_slice)

lemma sha256_first8_short:
  assumes len: "length msg \<le> 119"
  shows "sha256_first8 msg = Some (take 8 (sha256 msg))"
proof -
  let ?pad = "sha256_pad msg" and ?p = "padded_message msg"
  note pad = padded_message_eq [OF len]
  have b0: "map (\<lambda>i. ?p ! i) [0..<64] = slice 0 64 ?pad"
    using map_nth_slice [of 0 64 ?p] pad by (simp add: slice_append_left padded_len_def)
  show "sha256_first8 msg = Some (take 8 (sha256 msg))"
  proof (cases "length msg + 9 \<le> 64")
    case True
    then have "blocks_of ?pad = [slice 0 64 ?pad]"
      using pad(2) by (simp add: blocks_of_def padded_len_def)
    with True len b0 show ?thesis
      by (simp add: sha256_first8_def Let_def sha256_def take8_digest compress_block_eq)
  next
    case False
    then have "blocks_of ?pad = [slice 0 64 ?pad, slice 64 64 ?pad]"
      using pad(2) by (simp add: blocks_of_def padded_len_def numeral_2_eq_2)
    moreover have "map (\<lambda>i. ?p ! (64 + i)) [0..<64] = slice 64 64 ?pad"
      using map_nth_slice [of 64 64 ?p] pad False by (simp add: slice_append_left padded_len_def)
    ultimately show ?thesis
      using False len b0 by (simp add: sha256_first8_def Let_def sha256_def take8_digest compress_block_eq)
  qed
qed

text \<open>
  C10 The compile-time hash is SHA-256: for every message of at most 119 bytes
  \<open>sha256_first8\<close> returns the first eight bytes of the standard's digest, and beyond the
  size of its array it panics.
\<close>

theorem sha256_first8_correct:
  "(length msg \<le> 119 \<longrightarrow> sha256_first8 msg = Some (take 8 (sha256 msg)))
   \<and> (128 \<le> length msg \<longrightarrow> sha256_first8 msg = None)"
  by (intro conjI impI) (rule sha256_first8_short, assumption, simp add: sha256_first8_def)

theorem sha256_first8_correct_witness:
  "sha256_first8 (replicate 100 1) = Some (take 8 (sha256 (replicate 100 1)))
   \<and> sha256_first8 (replicate 130 1) = None"
  by (intro conjI sha256_first8_correct [THEN conjunct1, rule_format]
      sha256_first8_correct [THEN conjunct2, rule_format]) (subst length_replicate, simp)+

end
