(* ===== verification/Discriminators.thy ===== *)
theory Discriminators
  imports Sha256 Accounts
begin

text \<open>
  The account discriminators as hashes: an evaluation of the standard's hash by rewriting
  (normalised numerals for the words, the schedule built newest first), used to check the
  three constants of \<open>src/schema.rs\<close> against \<open>account:<Name>\<close>, and the table
  \<open>DISCRIMINATORS\<close> when the hash is SHA-256.
\<close>

section \<open>Evaluating the hash\<close>

lemma uint_of_int: "0 \<le> z \<Longrightarrow> z < 2 ^ 32 \<Longrightarrow> uint (word_of_int z :: u32) = z"
  by (simp add: uint_word_of_int)

lemma uint_rotate_right:
  assumes "0 < n" and "n < 32"
  shows "uint (rotate_right x n) = uint x div 2 ^ n + (uint x mod 2 ^ n) * 2 ^ (32 - n)"
proof -
  have a: "uint (drop_bit n x) = drop_bit n (uint x)"
    by (rule bit_eqI) (auto simp: bit_simps dest: bit_imp_le_length)
  have "uint (push_bit (32 - n) x) = take_bit 32 (push_bit (32 - n) (uint x))"
    by (simp add: unsigned_push_bit_eq)
  also have "\<dots> = push_bit (32 - n) (take_bit n (uint x))"
    using assms by (simp add: take_bit_push_bit)
  finally have b: "uint (push_bit (32 - n) x) = push_bit (32 - n) (take_bit n (uint x))" .
  have "uint (rotate_right x n) = drop_bit n (uint x) OR push_bit (32 - n) (take_bit n (uint x))"
    by (simp add: rotate_right_def unsigned_or_eq a b)
  also have "\<dots> = drop_bit n (uint x) + push_bit (32 - n) (take_bit n (uint x))"
  proof (rule disjunctive_add [symmetric])
    fix i
    show "\<not> bit (drop_bit n (uint x)) i \<or> \<not> bit (push_bit (32 - n) (take_bit n (uint x))) i"
      using assms bit_imp_le_length [of x "n + i"] by (auto simp: bit_simps)
  qed
  finally show ?thesis
    by (simp add: drop_bit_eq_div push_bit_eq_mult take_bit_eq_mod)
qed

lemma rotate_of_int:
  assumes "0 \<le> z" and "z < 2 ^ 32" and "0 < n" and "n < 32"
  shows "rotate_right (word_of_int z) n = word_of_int (z div 2 ^ n + (z mod 2 ^ n) * 2 ^ (32 - n))"
  using uint_rotate_right [OF assms(3,4), of "word_of_int z"] uint_of_int [OF assms(1,2)]
  by (metis word_of_int_uint)

lemma rotate_numeral:
  "(numeral k :: int) < 4294967296 \<Longrightarrow> 0 < n \<Longrightarrow> n < 32 \<Longrightarrow>
     rotate_right (numeral k) n = word_of_int (numeral k div 2 ^ n + (numeral k mod 2 ^ n) * 2 ^ (32 - n))"
  using rotate_of_int [of "numeral k" n] by simp

lemma rotate_evals:
  "(numeral k :: int) < 4294967296 \<Longrightarrow>
     rotate_right (numeral k) 2 = word_of_int (numeral k div 4 + (numeral k mod 4) * 1073741824)"
  "(numeral k :: int) < 4294967296 \<Longrightarrow>
     rotate_right (numeral k) 6 = word_of_int (numeral k div 64 + (numeral k mod 64) * 67108864)"
  "(numeral k :: int) < 4294967296 \<Longrightarrow>
     rotate_right (numeral k) 7 = word_of_int (numeral k div 128 + (numeral k mod 128) * 33554432)"
  "(numeral k :: int) < 4294967296 \<Longrightarrow>
     rotate_right (numeral k) 11 = word_of_int (numeral k div 2048 + (numeral k mod 2048) * 2097152)"
  "(numeral k :: int) < 4294967296 \<Longrightarrow>
     rotate_right (numeral k) 13 = word_of_int (numeral k div 8192 + (numeral k mod 8192) * 524288)"
  "(numeral k :: int) < 4294967296 \<Longrightarrow>
     rotate_right (numeral k) 17 = word_of_int (numeral k div 131072 + (numeral k mod 131072) * 32768)"
  "(numeral k :: int) < 4294967296 \<Longrightarrow>
     rotate_right (numeral k) 18 = word_of_int (numeral k div 262144 + (numeral k mod 262144) * 16384)"
  "(numeral k :: int) < 4294967296 \<Longrightarrow>
     rotate_right (numeral k) 19 = word_of_int (numeral k div 524288 + (numeral k mod 524288) * 8192)"
  "(numeral k :: int) < 4294967296 \<Longrightarrow>
     rotate_right (numeral k) 22 = word_of_int (numeral k div 4194304 + (numeral k mod 4194304) * 1024)"
  "(numeral k :: int) < 4294967296 \<Longrightarrow>
     rotate_right (numeral k) 25 = word_of_int (numeral k div 33554432 + (numeral k mod 33554432) * 128)"
  by (simp_all only: rotate_numeral) simp_all

text \<open>Addition with the sum brought back below two to the 32.\<close>

definition nadd :: "u32 \<Rightarrow> u32 \<Rightarrow> u32" where
  "nadd x y = x + y"

lemma reduce_once: "(word_of_int (n - 4294967296) :: u32) = word_of_int n"
proof -
  have "(word_of_int (n - 4294967296) :: u32) = word_of_int n - word_of_int (2 ^ 32)" by simp
  also have "(word_of_int (2 ^ 32) :: u32) = 0" by simp
  finally show ?thesis by simp
qed

lemma nadd_eval:
  "nadd (numeral k) (numeral l) =
     (if (numeral k + numeral l :: int) < 4294967296 then word_of_int (numeral k + numeral l)
      else word_of_int (numeral k + numeral l - 4294967296))"
  unfolding reduce_once by (simp add: nadd_def)

lemma small_evals:
  "nadd 0 x = x" "nadd x 0 = x" "rotate_right 0 n = 0"
  by (simp_all add: nadd_def rotate_right_def)

fun rounds :: "u32 list \<Rightarrow> u32 list \<Rightarrow> hash_state \<Rightarrow> hash_state" where
  "rounds (k # ks) (w # ws) st = rounds ks ws (round_step k w st)"
| "rounds _ _ st = st"

definition round_fin ::
  "u32 \<Rightarrow> u32 \<Rightarrow> u32 \<Rightarrow> u32 \<Rightarrow> u32 \<Rightarrow> u32 \<Rightarrow> u32 \<Rightarrow> u32 \<Rightarrow> u32 \<Rightarrow> hash_state" where
  "round_fin t1 t2 a b c d e f g = (nadd t1 t2, a, b, c, nadd d t1, e, f, g)"

lemma round_eval:
  "round_step k w (a, b, c, d, e, f, g, h) =
     round_fin (nadd (nadd (nadd (nadd h (big_sigma1 e)) (choose_bits e f g)) k) w)
       (nadd (big_sigma0 a) (majority_bits a b c)) a b c d e f g"
  by (simp add: round_fin_def nadd_def Let_def)

primrec ext_sched :: "nat \<Rightarrow> u32 list \<Rightarrow> u32 list" where
  "ext_sched 0 ws = ws"
| "ext_sched (Suc n) ws =
     ext_sched n (nadd (nadd (nadd (small_sigma1 (ws ! 1)) (ws ! 6)) (small_sigma0 (ws ! 14))) (ws ! 15) # ws)"

lemma ext_sched_sched:
  "16 \<le> n \<Longrightarrow> ext_sched k (rev (map (sched m) [0..<n])) = rev (map (sched m) [0..<n + k])"
proof (induction k arbitrary: n)
  case 0
  then show ?case by simp
next
  case (Suc k)
  have nth: "rev (map (sched m) [0..<n]) ! j = sched m (n - Suc j)" if "j < 16" for j
    using that Suc.prems by (simp add: rev_nth)
  have "sched m n = nadd (nadd (nadd (small_sigma1 (sched m (n - 2))) (sched m (n - 7)))
      (small_sigma0 (sched m (n - 15)))) (sched m (n - 16))"
    using Suc.prems by (simp add: sched.simps [of m n] nadd_def)
  moreover have "n - Suc 1 = n - 2" "n - Suc 6 = n - 7" "n - Suc 14 = n - 15" "n - Suc 15 = n - 16"
    by simp_all
  ultimately have "ext_sched (Suc k) (rev (map (sched m) [0..<n]))
      = ext_sched k (rev (map (sched m) [0..<Suc n]))"
    by (simp add: nth del: One_nat_def)
  with Suc.IH [of "Suc n"] Suc.prems show ?case by simp
qed

lemma rounds_fold:
  "rounds (map k [i..<j]) (map w [i..<j]) st = fold (\<lambda>t. round_step (k t) (w t)) [i..<j] st"
proof (induction "j - i" arbitrary: i st)
  case 0
  then show ?case by simp
next
  case (Suc n)
  then have "[i..<j] = i # [Suc i..<j]" by (simp add: upt_conv_Cons)
  with Suc.hyps(1) [of "Suc i"] Suc.hyps(2) show ?case by simp
qed

fun words_of :: "bytes \<Rightarrow> u32 list" where
  "words_of (a # b # c # d # rest) = be32 a b c d # words_of rest"
| "words_of _ = []"

fun finish8 :: "hash_state \<Rightarrow> bytes" where
  "finish8 (a, b, c, d, e, f, g, h) = be_bytes32 (nadd 1779033703 a) @ be_bytes32 (nadd 3144134277 b)"

lemma words_of_block: "length block = 4 * n \<Longrightarrow> words_of block = map (block_word block) [0..<n]"
proof (induction n arbitrary: block)
  case 0
  then show ?case by simp
next
  case (Suc n)
  then obtain a b c d rest where block: "block = a # b # c # d # rest" and len: "length rest = 4 * n"
    by (auto simp: length_Suc_conv numeral_eq_Suc)
  have "map (block_word block) [0..<Suc n] = block_word block 0 # map (\<lambda>i. block_word block (Suc i)) [0..<n]"
    by (simp add: map_upt_Suc del: upt_Suc)
  also have "\<dots> = be32 a b c d # map (block_word rest) [0..<n]"
    by (simp add: block block_word_def ac_simps)
  finally show ?case
    using Suc.IH [OF len] by (simp add: block)
qed

lemma one_block_eval:
  assumes "length msg \<le> 55"
  shows "take 8 (sha256 msg) =
    finish8 (rounds SHA256_K (rev (ext_sched 48 (rev (words_of (sha256_pad msg)))))
      (1779033703, 3144134277, 1013904242, 2773480762, 1359893119, 2600822924, 528734635, 1541459225))"
proof -
  let ?pad = "sha256_pad msg" let ?m = "block_word (sha256_pad msg)"
  have len: "length ?pad = 64"
    using padded_message_eq(2) [of msg] assms by (simp add: padded_len_def)
  then have blocks: "blocks_of ?pad = [?pad]"
    by (simp add: blocks_of_def slice_all)
  have "map ?m [0..<16] = map (sched ?m) [0..<16]"
    by (rule map_cong) (auto simp: sched.simps)
  then have w: "words_of ?pad = map (sched ?m) [0..<16]"
    using words_of_block [of ?pad 16] len by simp
  have "rev (ext_sched 48 (rev (words_of ?pad))) = map (sched ?m) [0..<64]"
    unfolding w by (subst ext_sched_sched) simp_all
  moreover have "SHA256_K = map (\<lambda>t. SHA256_K ! t) [0..<64]"
    using map_nth [of SHA256_K, symmetric] by (simp only: length_SHA256_K)
  ultimately have "rounds SHA256_K (rev (ext_sched 48 (rev (words_of ?pad)))) st
      = fold (\<lambda>t. round_step (SHA256_K ! t) (sched ?m t)) [0..<64] st" for st
    by (metis rounds_fold)
  then show ?thesis
    by (simp add: sha256_def blocks take8_digest sha256_block_def SHA256_H_def nadd_def split: prod.splits)
qed

lemma numeral_unfolds:
  "replicate (numeral k) x = x # replicate (pred_numeral k) x"
  "ext_sched (numeral k) ws = ext_sched (pred_numeral k)
     (nadd (nadd (nadd (small_sigma1 (ws ! 1)) (ws ! 6)) (small_sigma0 (ws ! 14))) (ws ! 15) # ws)"
  by (simp_all only: numeral_eq_Suc replicate_Suc ext_sched.simps)

lemmas hash_evals = numeral_unfolds small_evals
  rotate_evals nadd_eval round_eval round_fin_def big_sigma0_def big_sigma1_def
  small_sigma0_def small_sigma1_def choose_bits_def majority_bits_def be32_def be_bytes32_def
  be_bytes64_def SHA256_K_def sha256_pad_def ascii_def

lemma obligation_hash: "take 8 (sha256 (ascii ''account:Obligation'')) = OBLIGATION_DISC"
  by (subst one_block_eval) (simp_all add: hash_evals OBLIGATION_DISC_def del: round_step.simps)

lemma reserve_hash: "take 8 (sha256 (ascii ''account:Reserve'')) = RESERVE_DISC"
  by (subst one_block_eval) (simp_all add: hash_evals RESERVE_DISC_def del: round_step.simps)

lemma lending_market_hash: "take 8 (sha256 (ascii ''account:LendingMarket'')) = LENDING_MARKET_DISC"
  by (subst one_block_eval) (simp_all add: hash_evals LENDING_MARKET_DISC_def del: round_step.simps)

lemma referrer_token_state_hash: "take 8 (sha256 (ascii ''account:ReferrerTokenState'')) = [39, 15, 208, 77, 32, 195, 105, 56]"
  by (subst one_block_eval) (simp_all add: hash_evals del: round_step.simps)

lemma user_metadata_hash: "take 8 (sha256 (ascii ''account:UserMetadata'')) = [157, 214, 220, 235, 98, 135, 171, 28]"
  by (subst one_block_eval) (simp_all add: hash_evals del: round_step.simps)

lemma referrer_state_hash: "take 8 (sha256 (ascii ''account:ReferrerState'')) = [194, 81, 217, 103, 12, 19, 12, 66]"
  by (subst one_block_eval) (simp_all add: hash_evals del: round_step.simps)

lemma short_url_hash: "take 8 (sha256 (ascii ''account:ShortUrl'')) = [28, 89, 174, 25, 226, 124, 126, 212]"
  by (subst one_block_eval) (simp_all add: hash_evals del: round_step.simps)

lemma global_config_hash: "take 8 (sha256 (ascii ''account:GlobalConfig'')) = [149, 8, 156, 202, 160, 252, 176, 217]"
  by (subst one_block_eval) (simp_all add: hash_evals del: round_step.simps)

lemmas account_hashes = reserve_hash obligation_hash lending_market_hash referrer_token_state_hash
  user_metadata_hash referrer_state_hash short_url_hash global_config_hash

text \<open>With SHA-256 as the hash, the lookup table names eight distinct discriminators.\<close>

lemma account_discriminators:
  "map (\<lambda>name. take 8 (sha256 (ascii (''account:'' @ name)))) CANDIDATE_ACCOUNTS =
     [RESERVE_DISC, OBLIGATION_DISC, LENDING_MARKET_DISC,
      [39, 15, 208, 77, 32, 195, 105, 56],
      [157, 214, 220, 235, 98, 135, 171, 28],
      [194, 81, 217, 103, 12, 19, 12, 66],
      [28, 89, 174, 25, 226, 124, 126, 212],
      [149, 8, 156, 202, 160, 252, 176, 217]]"
  by (simp add: CANDIDATE_ACCOUNTS_def account_hashes del: map_map)

lemma DISCRIMINATORS_sha256:
  "DISCRIMINATORS sha256 d = Some name \<longleftrightarrow>
     name \<in> set CANDIDATE_ACCOUNTS \<and> d = take 8 (sha256 (ascii (''account:'' @ name)))"
proof -
  define f where "f = (\<lambda>name. take 8 (sha256 (ascii (''account:'' @ name))))"
  have "distinct (map f CANDIDATE_ACCOUNTS)"
    unfolding f_def account_discriminators by (simp add: const_defs)
  then have "distinct (map fst (rev (map (\<lambda>name. (f name, name)) CANDIDATE_ACCOUNTS)))"
    by (simp add: rev_map [symmetric] comp_def)
  then have "map_of (rev (map (\<lambda>name. (f name, name)) CANDIDATE_ACCOUNTS)) d = Some name \<longleftrightarrow>
      (d, name) \<in> set (rev (map (\<lambda>name. (f name, name)) CANDIDATE_ACCOUNTS))"
    by (rule map_of_eq_Some_iff)
  then show ?thesis by (auto simp: DISCRIMINATORS_def f_def)
qed

lemma kind_known_sha256:
  "account_kind_from sha256 data = Known name \<longleftrightarrow>
     8 \<le> length data \<and> name \<in> set CANDIDATE_ACCOUNTS
     \<and> take 8 data = take 8 (sha256 (ascii (''account:'' @ name)))"
  using DISCRIMINATORS_sha256 [of "take 8 data" name]
  by (auto simp: account_kind_from_def split: option.splits)

end
