(* ===== verification/Archive.thy ===== *)
theory Archive
  imports Pipeline Statements Discriminators
begin

text \<open>
  The whole archive: \<open>main\<close> of \<open>src/bin/parquet_export.rs\<close>, both its tables, on what any history of the
  indexer has stored. The raw updates are those of \<open>Pipeline\<close>; here the decoded obligations take the
  same way, with their fixed-point values as text.
\<close>

section \<open>The obligation snapshots\<close>

definition snapshot_key :: "obligation_snapshot_row \<Rightarrow> bytes \<times> u64 \<times> u64" where
  "snapshot_key r = (os_pubkey r, os_slot r, os_write_version r)"

definition snapshot_order :: "obligation_snapshot_row \<Rightarrow> u64 \<times> u64 \<times> bytes" where
  "snapshot_order r = (os_slot r, os_write_version r, os_pubkey r)"

definition snapshot_table :: "(nat \<Rightarrow> i64) \<Rightarrow> db \<Rightarrow> obligation_snapshot_row stored list" where
  "snapshot_table clock db = stamped clock (t_obligations db)"

definition cold_snapshots_of ::
  "obligation_snapshot_row merge \<Rightarrow> obligation_snapshot_row stored list \<Rightarrow> cold_snapshot list" where
  "cold_snapshots_of merge = cold_rows merge snapshot_order cold_snapshot_of_stored"

text \<open>What \<open>Decimal(38, 0)\<close> can hold.\<close>

definition decimals_fit :: "obligation_snapshot_row \<Rightarrow> bool" where
  "decimals_fit r \<longleftrightarrow> list_all (\<lambda>(name, v). unat v < 10 ^ 38) (sf_values r)"

definition snapshot_row_ok :: "obligation_snapshot_row \<Rightarrow> bool" where
  "snapshot_row_ok r \<longleftrightarrow>
     list_all (\<lambda>k. length k = 32) [os_pubkey r, os_owner r, os_lending_market r, os_referrer r] \<and> decimals_fit r"

definition same_snapshot :: "obligation_snapshot_row \<Rightarrow> cold_snapshot \<Rightarrow> bool" where
  "same_snapshot r c \<longleftrightarrow> c\<lparr>cs_ingested_at := 0\<rparr> = cold_snapshot_of_stored (r, 0)"

lemma snapshot_row_parses: "snapshot_row_ok (fst s) \<Longrightarrow> cold_snapshot_of (snapshot_row_of s) = Inr (cold_snapshot_of_stored s)"
  using snapshot_through_text [of "fst s" "snd s"]
  by (cases s) (auto simp: snapshot_row_ok_def decimals_fit_def sf_values_def)

interpretation snap: merged_table snapshot_key snapshot_order os_slot cs_slot snapshot_row_of cold_snapshot_of_stored
  cold_snapshot_of snapshot_row_ok same_snapshot
proof unfold_locales
  show "cold_snapshot_of (snapshot_row_of s) = Inr (cold_snapshot_of_stored s)" if "snapshot_row_ok (fst s)" for s
    using that by (rule snapshot_row_parses)
  show "snapshot_key (fst s) = snapshot_key r" if "same_snapshot r (cold_snapshot_of_stored s)" for r s
    using that by (simp add: same_snapshot_def cold_snapshot_of_stored_def snapshot_key_def split_beta)
qed (simp_all add: snapshot_order_def same_snapshot_def cold_snapshot_of_stored_def split_beta)

lemma select_snapshots_rows: "select_snapshots merge = select_rows merge snapshot_order os_slot snapshot_row_of"
  by (simp add: fun_eq_iff select_snapshots_def select_rows_def snapshot_order_def [abs_def])

section \<open>Snapshots of the chain\<close>

definition snapshot_of :: "external \<Rightarrow> update \<Rightarrow> obligation_snapshot_row option" where
  "snapshot_of ext u =
     (if account_kind_from (x_digest ext) (ai_data (snd u)) = Known ''Obligation'' then
        case decode_obligation (x_cast ext) (ai_data (snd u)) of
          Some (Inr d) \<Rightarrow> Some (obligation_row (fst u) (ai_write_version (snd u)) (ai_pubkey (snd u)) d)
        | _ \<Rightarrow> None
      else None)"

lemma snapshot_of_Some:
  "snapshot_of ext u = Some r \<longleftrightarrow> account_kind_from (x_digest ext) (ai_data (snd u)) = Known ''Obligation''
     \<and> (\<exists>d. decode_obligation (x_cast ext) (ai_data (snd u)) = Some (Inr d)
          \<and> r = obligation_row (fst u) (ai_write_version (snd u)) (ai_pubkey (snd u)) d)"
  by (auto simp: snapshot_of_def split: option.splits sum.splits)

lemma snapshot_in_rows: "Obligation_Snapshot r \<in> rows_of ext u \<longleftrightarrow> snapshot_of ext u = Some r"
  by (auto simp: snapshot_of_Some rows_of_def Let_def split_beta)

lemma snapshot_stored: "Obligation_Snapshot r \<in> rows_in db \<longleftrightarrow> r \<in> set (t_obligations db)"
  by (auto simp: rows_in_def data_rows_def)

lemma stored_snapshots:
  "good_db ext chain holes db \<Longrightarrow> r \<in> set (t_obligations db) \<Longrightarrow> \<exists>u \<in> set chain. snapshot_of ext u = Some r"
  by (auto simp: good_db_def simp flip: snapshot_stored snapshot_in_rows)

lemma snapshot_row_facts:
  assumes "snapshot_of ext u = Some r" and "keys_fit u" and "decimals_fit r"
  shows "snapshot_row_ok r" and "slots_fit (os_slot r)" and "snapshot_key r = version u"
  using assms decoded_obligation_sizes
  by (auto simp: snapshot_of_Some snapshot_row_ok_def keys_fit_def obligation_row_def snapshot_key_def version_def)

lemma snapshot_table_set: "fst ` set (snapshot_table clock db) = set (t_obligations db)"
  by (simp add: snapshot_table_def set_fst_stamped)

lemma snapshots_published:
  fixes clock :: "nat \<Rightarrow> i64" and dir :: path
  assumes merge: "replaces snapshot_key merge" and good: "good_db ext chain holes db" and keys: "\<forall>u \<in> set chain. keys_fit u"
    and decimals: "\<forall>u \<in> set chain. \<forall>r. snapshot_of ext u = Some r \<longrightarrow> decimals_fit r"
    and size: "length (t_obligations db) < 2 ^ 64"
    and env: "\<And>k. io k" "takes_well_typed accepts"
      "full \<or> (\<forall>p. dk_files d (final_path dir p ''obligation_snapshots.parquet'') = None)"
  defines "rows \<equiv> snapshot_table clock db"
  defines "b \<equiv> table_bounds (os_slot \<circ> fst) rows"
  shows "\<exists>d' v. export_table ''obligation_snapshots''
             (\<lambda>lo hi. export_snapshot_partition accepts io (select_snapshots merge rows) lo hi dir) full
             dir ''obligation_snapshots.parquet'' (Inr b) d = Some (d', Inr v)
         \<and> (\<forall>p \<in> set (partition_list (bd_lo b) (bd_hi b)). partition_rows cs_slot (cold_snapshots_of merge rows) p \<noteq> [] \<longrightarrow>
              holds_rows obligation_snapshots_schema snapshot_columns (partition_rows cs_slot (cold_snapshots_of merge rows) p)
                (dk_files d' (final_path dir p ''obligation_snapshots.parquet'')))
         \<and> (\<forall>q. (\<forall>p x. q \<noteq> dir @ [partition_dir p, x]) \<longrightarrow> dk_files d' q = dk_files d q)"
    and "concat (map (partition_rows cs_slot (cold_snapshots_of merge rows)) (partition_list (bd_lo b) (bd_hi b)))
      = cold_snapshots_of merge rows"
proof -
  have row_ok: "snapshot_row_ok r \<and> slots_fit (os_slot r)" if "r \<in> fst ` set rows" for r
  proof -
    from that have "r \<in> set (t_obligations db)" by (simp add: rows_def snapshot_table_set)
    from stored_snapshots [OF good this] obtain u where "u \<in> set chain" "snapshot_of ext u = Some r" by blast
    with snapshot_row_facts(1,2) keys decimals show ?thesis by blast
  qed
  then have ok: "\<forall>r \<in> fst ` set rows. snapshot_row_ok r" and slots: "\<forall>r \<in> fst ` set rows. slots_fit (os_slot r)"
    by simp_all
  have free: "full \<or> list_all (\<lambda>p. dk_files d (final_path dir p ''obligation_snapshots.parquet'') = None) ps" for ps
    using env(3) by (auto simp: list_all_iff)
  have "length rows < 2 ^ 64"
    using size by (simp add: rows_def snapshot_table_def)
  from table_bounds_rows [OF this]
  have empty: "bd_rows b = 0 \<Longrightarrow> \<forall>p. partition_rows cs_slot (cold_snapshots_of merge rows) p = []"
    by (simp add: b_def cold_snapshots_of_def cold_rows_def replaces_Nil [OF merge] partition_rows_def)
  show "\<exists>d' v. export_table ''obligation_snapshots''
             (\<lambda>lo hi. export_snapshot_partition accepts io (select_snapshots merge rows) lo hi dir) full
             dir ''obligation_snapshots.parquet'' (Inr b) d = Some (d', Inr v)
         \<and> (\<forall>p \<in> set (partition_list (bd_lo b) (bd_hi b)). partition_rows cs_slot (cold_snapshots_of merge rows) p \<noteq> [] \<longrightarrow>
              holds_rows obligation_snapshots_schema snapshot_columns (partition_rows cs_slot (cold_snapshots_of merge rows) p)
                (dk_files d' (final_path dir p ''obligation_snapshots.parquet'')))
         \<and> (\<forall>q. (\<forall>p x. q \<noteq> dir @ [partition_dir p, x]) \<longrightarrow> dk_files d' q = dk_files d q)"
    using snapshots_complete [where query = "select_snapshots merge rows"
          and rows_in = "partition_rows cs_slot (cold_snapshots_of merge rows)"
          and dir = dir and io = io and accepts = accepts and d = d and full = full and tbl = "''obligation_snapshots''",
        OF bounds_attained [OF slots, folded b_def] empty
          snap.select_reads [OF merge ok, folded select_snapshots_rows cold_snapshots_of_def] env(1,2) free]
    by blast
  show "concat (map (partition_rows cs_slot (cold_snapshots_of merge rows)) (partition_list (bd_lo b) (bd_hi b)))
      = cold_snapshots_of merge rows"
    by (rule snap.cold_concat [OF merge slots, folded b_def cold_snapshots_of_def])
qed

lemma cold_snapshots_of_chain:
  fixes clock :: "nat \<Rightarrow> i64"
  assumes merge: "replaces snapshot_key merge" and good: "good_db ext chain holes db" and keys: "\<forall>u \<in> set chain. keys_fit u"
    and decimals: "\<forall>u \<in> set chain. \<forall>r. snapshot_of ext u = Some r \<longrightarrow> decimals_fit r"
    and versions: "\<forall>u \<in> set chain. \<forall>v \<in> set chain. version u = version v \<longrightarrow> u = v"
  defines "cold \<equiv> cold_snapshots_of merge (snapshot_table clock db)"
  shows "u \<in> set chain \<Longrightarrow> rows_of ext u \<subseteq> rows_in db \<Longrightarrow> snapshot_of ext u = Some r \<Longrightarrow>
      length (filter (same_snapshot r) cold) = 1"
    and "c \<in> set cold \<Longrightarrow> \<exists>u \<in> set chain. \<exists>r. snapshot_of ext u = Some r \<and> same_snapshot r c"
proof -
  note stored = stored_snapshots [OF good]
  have key: "snapshot_key r = version u" if "u \<in> set chain" "snapshot_of ext u = Some r" for u r
    using snapshot_row_facts(3) that keys decimals by blast
  show "length (filter (same_snapshot r) cold) = 1"
    if u: "u \<in> set chain" "rows_of ext u \<subseteq> rows_in db" "snapshot_of ext u = Some r"
    unfolding cold_def cold_snapshots_of_def
  proof (rule snap.one_copy_of [OF merge])
    show "r \<in> fst ` set (snapshot_table clock db)"
      using u(2,3) by (auto simp: snapshot_table_set simp flip: snapshot_stored snapshot_in_rows)
    fix r' assume r': "r' \<in> fst ` set (snapshot_table clock db)" "snapshot_key r' = snapshot_key r"
    from r'(1) have "r' \<in> set (t_obligations db)" by (simp add: snapshot_table_set)
    from stored [OF this] obtain v where v: "v \<in> set chain" "snapshot_of ext v = Some r'" by blast
    with r'(2) key u versions have "v = u" by metis
    with v u(3) show "r' = r" by simp
  qed
  show "\<exists>u \<in> set chain. \<exists>r. snapshot_of ext u = Some r \<and> same_snapshot r c" if "c \<in> set cold"
  proof -
    from snap.cold_only [OF merge that [unfolded cold_def cold_snapshots_of_def]] obtain r where
      "r \<in> set (t_obligations db)" "same_snapshot r c" by (auto simp: snapshot_table_set)
    with stored show ?thesis by blast
  qed
qed

section \<open>Properties\<close>

text \<open>The environment of a run on a store: both statements, with the tables as they are.\<close>

definition archive_env ::
  "account_update_row merge \<Rightarrow> obligation_snapshot_row merge \<Rightarrow> (nat \<Rightarrow> i64) \<Rightarrow> db \<Rightarrow> path \<Rightarrow> bool \<Rightarrow> string
     \<Rightarrow> export_env" where
  "archive_env final_updates final_snapshots clock db out full url =
     \<lparr>ee_dir = Some out, ee_full = full, ee_url = Some url, ee_connect_err = None,
      ee_updates_bounds = Inr (table_bounds (au_slot \<circ> fst) (update_table clock db)),
      ee_updates_query = select_updates final_updates (update_table clock db),
      ee_snapshots_bounds = Inr (table_bounds (os_slot \<circ> fst) (snapshot_table clock db)),
      ee_snapshots_query = select_snapshots final_snapshots (snapshot_table clock db)\<rparr>"

text \<open>The files of a table's partitions hold \<open>cold\<close>, each its slot range, and together all of it.\<close>

definition archived ::
  "schema \<Rightarrow> ('c list \<Rightarrow> column list) \<Rightarrow> ('c \<Rightarrow> u64) \<Rightarrow> bounds \<Rightarrow> path \<Rightarrow> string \<Rightarrow> 'c list \<Rightarrow> disk \<Rightarrow> bool" where
  "archived sch columns slot_of b dir fname cold d \<longleftrightarrow>
     list_all (\<lambda>p. partition_rows slot_of cold p = []
         \<or> holds_rows sch columns (partition_rows slot_of cold p) (dk_files d (final_path dir p fname)))
       (partition_list (bd_lo b) (bd_hi b))
     \<and> concat (map (partition_rows slot_of cold) (partition_list (bd_lo b) (bd_hi b))) = cold"

lemma archive_run:
  fixes clock :: "nat \<Rightarrow> i64" and out :: path
  assumes merge: "replaces update_key mu" "replaces snapshot_key ms"
    and good: "good_db ext chain holes db" and keys: "\<forall>u \<in> set chain. keys_fit u"
    and decimals: "\<forall>u \<in> set chain. \<forall>r. snapshot_of ext u = Some r \<longrightarrow> decimals_fit r"
    and size: "length (t_updates db) < 2 ^ 64" "length (t_obligations db) < 2 ^ 64"
    and env: "\<And>k. io k" "takes_well_typed accepts" "full \<or> dk_files d = Map.empty"
  defines "rows \<equiv> update_table clock db" and "snaps \<equiv> snapshot_table clock db"
  shows "\<exists>d' v w. export_main accepts io (archive_env mu ms clock db out full url) d = Some (d', Inr [v, w])
          \<and> archived account_updates_schema update_columns cu_slot (table_bounds (au_slot \<circ> fst) rows)
              (out @ [''account_updates'']) ''account_updates.parquet'' (cold_table mu rows) d'
          \<and> archived obligation_snapshots_schema snapshot_columns cs_slot (table_bounds (os_slot \<circ> fst) snaps)
              (out @ [''obligation_snapshots'']) ''obligation_snapshots.parquet'' (cold_snapshots_of ms snaps) d'"
proof -
  let ?udir = "out @ [''account_updates'']" and ?sdir = "out @ [''obligation_snapshots'']"
  let ?ub = "table_bounds (au_slot \<circ> fst) rows" and ?sb = "table_bounds (os_slot \<circ> fst) snaps"
  have ufree: "full \<or> (\<forall>p. dk_files d (final_path ?udir p ''account_updates.parquet'') = None)"
    using env(3) by auto
  note updates = updates_published [where clock = clock and dir = ?udir and io = io and accepts = accepts
      and d = d and full = full, OF merge(1) good keys size(1) env(1,2) ufree, folded rows_def]
  from updates(1) obtain d1 v where d1: "export_table ''account_updates''
        (\<lambda>lo hi. export_partition accepts io (select_updates mu rows) lo hi ?udir) full
        ?udir ''account_updates.parquet'' (Inr ?ub) d = Some (d1, Inr v)"
    and files1: "\<forall>p \<in> set (partition_list (bd_lo ?ub) (bd_hi ?ub)). partition_rows cu_slot (cold_table mu rows) p \<noteq> [] \<longrightarrow>
        holds_rows account_updates_schema update_columns (partition_rows cu_slot (cold_table mu rows) p)
          (dk_files d1 (final_path ?udir p ''account_updates.parquet''))"
    and frame1: "\<forall>q. (\<forall>p x. q \<noteq> ?udir @ [partition_dir p, x]) \<longrightarrow> dk_files d1 q = dk_files d q"
    by blast
  have sfree: "full \<or> (\<forall>p. dk_files d1 (final_path ?sdir p ''obligation_snapshots.parquet'') = None)"
    using env(3) frame1 by (auto simp: final_path_def)
  note snapshots = snapshots_published [where clock = clock and dir = ?sdir and io = io and accepts = accepts
      and d = d1 and full = full, OF merge(2) good keys decimals size(2) env(1,2) sfree, folded snaps_def]
  from snapshots(1) obtain d2 w where d2: "export_table ''obligation_snapshots''
        (\<lambda>lo hi. export_snapshot_partition accepts io (select_snapshots ms snaps) lo hi ?sdir) full
        ?sdir ''obligation_snapshots.parquet'' (Inr ?sb) d1 = Some (d2, Inr w)"
    and files2: "\<forall>p \<in> set (partition_list (bd_lo ?sb) (bd_hi ?sb)). partition_rows cs_slot (cold_snapshots_of ms snaps) p \<noteq> [] \<longrightarrow>
        holds_rows obligation_snapshots_schema snapshot_columns (partition_rows cs_slot (cold_snapshots_of ms snaps) p)
          (dk_files d2 (final_path ?sdir p ''obligation_snapshots.parquet''))"
    and frame2: "\<forall>q. (\<forall>p x. q \<noteq> ?sdir @ [partition_dir p, x]) \<longrightarrow> dk_files d2 q = dk_files d1 q"
    by blast
  have same: "dk_files d2 (final_path ?udir p x) = dk_files d1 (final_path ?udir p x)" for p x
    using frame2 by (simp add: final_path_def)
  have "export_main accepts io (archive_env mu ms clock db out full url) d = Some (d2, Inr [v, w])"
    using d1 d2 by (simp add: export_main_def archive_env_def rows_def snaps_def)
  with files1 files2 updates(2) snapshots(2) show ?thesis
    by (auto simp: archived_def list_all_iff same)
qed

text \<open>
  C2 The whole archive. Run the exporter's \<open>main\<close> on what any history of the indexer has left, with
  faults in the history but none in the run and nothing to skip; \<open>FINAL\<close> merges as documented and a record batch
  whose columns fit its schema is accepted. It ends with a verdict on each of
  its two tables; the raw updates and the decoded obligations are both archived whole, and the second
  table has not touched the files of the first; every update of the chain below the checkpoint has
  exactly one raw copy, and, when it is an obligation that decodes, exactly one snapshot that has
  every decoded field, its fixed-point values as exact decimals, or it lies in a hole; and there is no
  snapshot that no update of the chain decodes to. The fixed-point values must be below
  \<open>10 ^ 38\<close>.
\<close>

theorem chain_to_archive:
  assumes "\<And>rows. x_final ext rows = newest rows" and "slot_sorted chain"
    and "(world_step ext chain)\<^sup>*\<^sup>* (start, Down db0) (holes, ph)"
    and "good_db ext chain start db0" and "\<And>h. h \<in> set start \<Longrightarrow> accounted ext db0 h"
    and keys: "\<forall>u \<in> set chain. keys_fit u"
    and decimals: "\<forall>u \<in> set chain. \<forall>r. snapshot_of ext u = Some r \<longrightarrow> decimals_fit r"
    and versions: "\<forall>u \<in> set chain. \<forall>v \<in> set chain. version u = version v \<longrightarrow> u = v"
    and merge: "replaces update_key mu" "replaces snapshot_key ms"
    and size: "length (t_updates (phase_db ph)) < 2 ^ 64" "length (t_obligations (phase_db ph)) < 2 ^ 64"
    and env: "\<And>k. io k" "takes_well_typed accepts" "full \<or> dk_files d = Map.empty"
  shows "let rows = update_table clock (phase_db ph); snaps = snapshot_table clock (phase_db ph)
    in (\<exists>d' v w. export_main accepts io (archive_env mu ms clock (phase_db ph) out full url) d = Some (d', Inr [v, w])
          \<and> archived account_updates_schema update_columns cu_slot (table_bounds (au_slot \<circ> fst) rows)
              (out @ [''account_updates'']) ''account_updates.parquet'' (cold_table mu rows) d'
          \<and> archived obligation_snapshots_schema snapshot_columns cs_slot (table_bounds (os_slot \<circ> fst) snaps)
              (out @ [''obligation_snapshots'']) ''obligation_snapshots.parquet'' (cold_snapshots_of ms snaps) d')
       \<and> (case resume_slot ext (phase_db ph) of
            None \<Rightarrow> True
          | Some c \<Rightarrow> \<forall>u \<in> set chain. fst u < c \<longrightarrow>
              length (filter (copies ext u) (cold_table mu rows)) = 1
                \<and> (\<forall>r. snapshot_of ext u = Some r \<longrightarrow> length (filter (same_snapshot r) (cold_snapshots_of ms snaps)) = 1)
              \<or> (\<exists>h \<in> set holes. in_hole h (fst u)))
       \<and> (\<forall>c \<in> set (cold_snapshots_of ms snaps). \<exists>u \<in> set chain. \<exists>r. snapshot_of ext u = Some r \<and> same_snapshot r c)"
proof -
  let ?db = "phase_db ph"
  have good: "good_db ext chain holes ?db"
    by (rule good_db_reachable [OF assms(1-5)])
  note run = archive_run [where clock = clock and io = io and accepts = accepts and full = full and d = d
      and out = out and url = url, OF merge good keys decimals size env]
  have "case resume_slot ext ?db of None \<Rightarrow> True
      | Some c \<Rightarrow> \<forall>u \<in> set chain. fst u < c \<longrightarrow>
          length (filter (copies ext u) (cold_table mu (update_table clock ?db))) = 1
            \<and> (\<forall>r. snapshot_of ext u = Some r \<longrightarrow>
                 length (filter (same_snapshot r) (cold_snapshots_of ms (snapshot_table clock ?db))) = 1)
          \<or> (\<exists>h \<in> set holes. in_hole h (fst u))"
    using good cold_updates_of_chain(1) [OF merge(1) good versions] cold_snapshots_of_chain(1) [OF merge(2) good keys decimals versions]
    by (fastforce simp: good_db_def covered_def kept_def split: option.splits)
  with run cold_snapshots_of_chain(2) [OF merge(2) good keys decimals versions] show ?thesis
    unfolding Let_def by blast
qed

text \<open>A store in which one obligation has been inserted twice.\<close>

definition held_info :: account_info where
  "held_info = \<lparr>ai_pubkey = replicate 32 1, ai_owner = replicate 32 2, ai_lamports = 5, ai_write_version = 1,
     ai_data = OBLIGATION_DISC @ replicate 3336 0\<rparr>"

definition held_ext :: external where
  "held_ext = demo_ext\<lparr>x_digest := sha256\<rparr>"

definition held_snapshot :: obligation_snapshot_row where
  "held_snapshot = obligation_row 10 1 (replicate 32 1) (decoded_of_obligation (dec_obligation (replicate 3336 0)))"

definition held_db :: db where
  "held_db = empty_db\<lparr>t_updates := [row_of held_ext (10, held_info), row_of held_ext (10, held_info)],
     t_obligations := [held_snapshot, held_snapshot], t_checkpoint := [demo_ck 12 1]\<rparr>"

lemma held_snapshot_of: "snapshot_of held_ext (10, held_info) = Some held_snapshot"
proof -
  have "account_kind_from sha256 (OBLIGATION_DISC @ replicate 3336 0) = Known ''Obligation''"
    by (simp add: kind_known_sha256 CANDIDATE_ACCOUNTS_def obligation_hash length_discs)
  moreover have "decode_obligation (\<lambda>_. True) (OBLIGATION_DISC @ replicate 3336 0)
      = Some (Inr (decoded_of_obligation (dec_obligation (replicate 3336 0))))"
    by (simp add: decode_obligation_Inr_iff slice_simps length_discs)
  ultimately show ?thesis
    by (simp add: snapshot_of_def held_ext_def demo_ext_def held_info_def held_snapshot_def)
qed

lemma held_rows: "rows_of held_ext (10, held_info) = {Raw (row_of held_ext (10, held_info)), Obligation_Snapshot held_snapshot}"
proof -
  have "rows_of held_ext (10, held_info) = {Raw (row_of held_ext (10, held_info))}
      \<union> {Obligation_Snapshot r |r. snapshot_of held_ext (10, held_info) = Some r}"
    using held_snapshot_of by (auto simp: rows_of_def Let_def snapshot_of_Some)
  then show ?thesis by (simp add: held_snapshot_of insert_commute)
qed

lemma held_decimals: "decimals_fit held_snapshot"
  by (simp add: decimals_fit_def sf_values_def held_snapshot_def obligation_row_def decoded_of_obligation_def Let_def
      dec_obligation_def u128_of_pod_def slice_replicate)

theorem chain_to_archive_witness:
  "let snaps = snapshot_table (\<lambda>_. 0) held_db
   in (\<exists>d' v w. export_main type_check (\<lambda>_. True) (archive_env (merge_latest update_key) (merge_latest snapshot_key) (\<lambda>_. 0) held_db [''out''] False ''url'')
          \<lparr>dk_files = Map.empty, dk_io = 0\<rparr> = Some (d', Inr [v, w]))
      \<and> length snaps = 2 \<and> length (filter (same_snapshot held_snapshot) (cold_snapshots_of (merge_latest snapshot_key) snaps)) = 1"
proof -
  let ?chain = "[(10, held_info)]"
  have newest: "x_final held_ext cks = newest cks" for cks
    by (simp add: held_ext_def demo_ext_def)
  have sorted: "slot_sorted ?chain" by (simp add: slot_sorted_def)
  have c: "resume_slot held_ext held_db = Some 12"
    by (simp add: resume_slot_def newest stream_rows_def held_db_def demo_ck_def newest_def)
  have rows: "rows_in held_db = rows_of held_ext (10, held_info)"
    by (auto simp: held_rows rows_in_def data_rows_def held_db_def empty_db_def)
  then have good: "good_db held_ext ?chain [] held_db"
    by (simp add: good_db_def c covered_def kept_def)
  have keys: "\<forall>u \<in> set ?chain. keys_fit u"
    by (simp add: keys_fit_def held_info_def slots_fit_def)
  have decimals: "\<forall>u \<in> set ?chain. \<forall>r. snapshot_of held_ext u = Some r \<longrightarrow> decimals_fit r"
    using held_decimals by (simp add: held_snapshot_of)
  have versions: "\<forall>u \<in> set ?chain. \<forall>v \<in> set ?chain. version u = version v \<longrightarrow> u = v" by simp
  have size: "length (t_updates (phase_db (Down held_db))) < 2 ^ 64" "length (t_obligations (phase_db (Down held_db))) < 2 ^ 64"
    by (simp_all add: held_db_def)
  have free: "False \<or> dk_files \<lparr>dk_files = Map.empty, dk_io = 0\<rparr> = Map.empty" by simp
  note run = chain_to_archive [OF newest sorted rtranclp.rtrancl_refl good _ keys decimals versions
      merge_latest_replaces merge_latest_replaces size _ type_check_takes free,
      of "\<lambda>_. True" "\<lambda>_. 0" "[''out'']" "''url''", unfolded Let_def phase_db.simps c option.case]
  then have run: "\<exists>d' v w. export_main type_check (\<lambda>_. True) (archive_env (merge_latest update_key) (merge_latest snapshot_key) (\<lambda>_. 0) held_db [''out''] False ''url'')
        \<lparr>dk_files = Map.empty, dk_io = 0\<rparr> = Some (d', Inr [v, w])"
    and once: "length (filter (same_snapshot held_snapshot) (cold_snapshots_of (merge_latest snapshot_key) (snapshot_table (\<lambda>_. 0) held_db))) = 1"
    by (auto simp: held_snapshot_of)
  then show ?thesis
    by (simp add: Let_def snapshot_table_def held_db_def)
qed

end
