(* ===== verification/Verdict.thy ===== *)
theory Verdict
  imports Pipeline
begin

text \<open>
  The count check at the end of an export. The exporter compares the rows it wrote with the
  \<open>count()\<close> it asked for before it started, and says \<open>DEFECT\<close> when it wrote more, because \<open>FINAL\<close> can
  only collapse rows. The table it reads is live: here rows may arrive in its newest partition
  after the count.
\<close>

section \<open>Counting merged rows\<close>

lemma length_merged:
  assumes "replaces key merge"
  shows "length (merge rows) = card (key ` fst ` set rows)"
proof -
  have "length (merge rows) = card (set (map (key \<circ> fst) (merge rows)))"
    using distinct_card [OF replacesD(2) [OF assms, of rows]] by simp
  then show ?thesis using replacesD(3) [OF assms, of rows] by (simp add: image_comp)
qed

lemma length_cold_table:
  "replaces update_key merge \<Longrightarrow> length (cold_table merge rows) = card (update_key ` fst ` set rows)"
  by (simp add: cold_table_def length_merged)

section \<open>Rows that arrive in the newest partition\<close>

lemma partition_start_mono: "a \<le> b \<Longrightarrow> partition_start a \<le> partition_start b"
  by (simp add: word_le_nat_alt unat_partition_start div_le_mono)

lemma partition_list_start:
  assumes "partition_start lo' = partition_start lo" and "partition_start hi' = partition_start hi"
  shows "partition_list lo' hi' = partition_list lo hi"
  using assms [unfolded partition_start_bucket] unfolding partition_list_def assms by (simp only:)

lemma newest_partition_bounds:
  fixes rows extra :: "account_update_row stored list"
  defines "b \<equiv> table_bounds (au_slot \<circ> fst) rows" and "b' \<equiv> table_bounds (au_slot \<circ> fst) (rows @ extra)"
  assumes rows: "rows \<noteq> []"
    and extra: "\<forall>s \<in> set extra. partition_start (au_slot (fst s)) = partition_start (bd_hi b)"
  shows "partition_list (bd_lo b') (bd_hi b') = partition_list (bd_lo b) (bd_hi b)"
proof (rule partition_list_start)
  let ?slots = "\<lambda>rs. (au_slot \<circ> fst) ` set rs"
  have lo: "bd_lo b' = Min (?slots rows \<union> ?slots extra)" "bd_lo b = Min (?slots rows)"
    and hi: "bd_hi b' = Max (?slots rows \<union> ?slots extra)" "bd_hi b = Max (?slots rows)"
    using rows by (simp_all add: b_def b'_def table_bounds_def image_Un)
  have member: "bd_lo b' \<in> ?slots rows \<union> ?slots extra" "bd_hi b' \<in> ?slots rows \<union> ?slots extra"
    unfolding lo hi using rows by (intro Min_in Max_in; simp)+
  have le: "bd_lo b' \<le> bd_lo b" "bd_hi b \<le> bd_hi b'" "bd_lo b \<le> bd_hi b"
    unfolding lo hi using rows by (auto intro!: Min_antimono Max_mono intro: Min_le Max_ge order_trans)
  have in_rows: "bd_lo b \<le> s" "s \<le> bd_hi b" if "s \<in> ?slots rows" for s
    unfolding lo hi using that by auto
  have in_extra: "partition_start s = partition_start (bd_hi b)" if "s \<in> ?slots extra" for s
    using extra that by auto
  show "partition_start (bd_lo b') = partition_start (bd_lo b)"
    using member(1) in_rows in_extra le partition_start_mono by (metis Un_iff antisym)
  show "partition_start (bd_hi b') = partition_start (bd_hi b)"
    using member(2) in_rows in_extra le by (metis Un_iff antisym)
qed

section \<open>Properties\<close>

text \<open>
  C17 What the count check says. In a run without failures, with \<open>FINAL\<close> merging as documented, the number of rows written is the number of
  distinct (key, slot, write version) triples the statements saw, and the verdict compares it with
  the rows counted at the start. On a table at rest it is therefore never a defect, and the
  difference it notes is exactly the number of duplicates. But the table is live: when the rows that
  arrive in the newest partition during the run outnumber the duplicates, the export is
  complete and correct, and the verdict is \<open>DEFECT\<close>.
\<close>

theorem export_verdict:
  fixes rows extra :: "account_update_row stored list"
  defines "b \<equiv> table_bounds (au_slot \<circ> fst) rows"
    and "written \<equiv> card (update_key ` fst ` set (rows @ extra))"
  assumes merge: "replaces update_key merge" and rows: "rows \<noteq> []" "length (rows @ extra) < 2 ^ 64"
    and ok: "\<forall>r \<in> fst ` set (rows @ extra). update_row_ok r \<and> slots_fit (au_slot r)"
    and newest: "\<forall>s \<in> set extra. partition_start (au_slot (fst s)) = partition_start (bd_hi b)"
    and env: "\<And>k. io k" "takes_well_typed accepts"
      "full \<or> (\<forall>p. dk_files d (final_path dir p ''account_updates.parquet'') = None)"
  shows "\<exists>d'. export_table ''account_updates''
        (\<lambda>lo hi. export_partition accepts io (select_updates merge (rows @ extra)) lo hi dir) full
        dir ''account_updates.parquet'' (Inr b) d =
      Some (d', Inr (if length rows < written then Defect (of_nat (length rows)) (of_nat written)
        else if written < length rows then Note_Fewer (of_nat (length rows)) (of_nat written)
        else Exact_Count (of_nat written)))
    \<and> (\<forall>p \<in> set (partition_list (bd_lo b) (bd_hi b)). partition_rows cu_slot (cold_table merge (rows @ extra)) p \<noteq> [] \<longrightarrow>
         holds_rows account_updates_schema update_columns (partition_rows cu_slot (cold_table merge (rows @ extra)) p)
           (dk_files d' (final_path dir p ''account_updates.parquet'')))
    \<and> concat (map (partition_rows cu_slot (cold_table merge (rows @ extra))) (partition_list (bd_lo b) (bd_hi b)))
        = cold_table merge (rows @ extra)"
proof -
  let ?all = "rows @ extra" and ?parts = "partition_list (bd_lo b) (bd_hi b)"
  have fit: "\<forall>r \<in> fst ` set rows. slots_fit (au_slot r)" "\<forall>r \<in> fst ` set ?all. slots_fit (au_slot r)"
    and all_ok: "\<forall>r \<in> fst ` set ?all. update_row_ok r"
    using ok by auto
  have whole: "concat (map (partition_rows cu_slot (cold_table merge ?all)) ?parts) = cold_table merge ?all"
    using raw.cold_concat [OF merge fit(2)] newest_partition_bounds [OF rows(1) newest [unfolded b_def]]
    by (simp add: b_def cold_table_rows)
  have "card (update_key ` fst ` set ?all) \<le> length ?all"
    using card_image_le [of "fst ` set ?all" update_key] card_image_le [of "set ?all" fst] card_length [of ?all]
    by (meson List.finite_set finite_imageI le_trans)
  with rows(2) have small: "unat (of_nat written :: u64) = written" "unat (of_nat (length rows) :: u64) = length rows"
    by (simp_all add: written_def unat_of_nat_u64)
  have count: "bd_rows b = of_nat (length rows)" by (simp add: b_def table_bounds_def)
  have "length rows < 2 ^ 64" using rows(2) by simp
  then have some: "bd_rows b \<noteq> 0"
    using table_bounds_rows [of rows "au_slot \<circ> fst"] rows(1) by (simp add: b_def)
  then have empty: "bd_rows b = 0 \<Longrightarrow> \<forall>p. partition_rows cu_slot (cold_table merge ?all) p = []" by simp
  have free: "full \<or> list_all (\<lambda>p. dk_files d (final_path dir p ''account_updates.parquet'') = None) ps" for ps
    using env(3) by (auto simp: list_all_iff)
  have "count_verdict (of_nat (length (concat (map (partition_rows cu_slot (cold_table merge ?all)) ?parts)))) (bd_rows b)
    = (if length rows < written then Defect (of_nat (length rows)) (of_nat written)
        else if written < length rows then Note_Fewer (of_nat (length rows)) (of_nat written)
        else Exact_Count (of_nat written))"
    unfolding whole length_cold_table [OF merge] written_def [symmetric] count count_verdict_def word_less_nat_alt small by simp
  with updates_complete [where query = "select_updates merge ?all" and rows_in = "partition_rows cu_slot (cold_table merge ?all)"
        and dir = dir and io = io and accepts = accepts and d = d and full = full and tbl = "''account_updates''",
      OF bounds_attained [OF fit(1), folded b_def] empty
        raw.select_reads [OF merge all_ok, folded select_updates_rows cold_table_rows] env(1,2) free] some whole
  show ?thesis by auto
qed

text \<open>One row when the count is taken, a second one by the time the partition is read.\<close>

theorem export_verdict_witness:
  "\<exists>d'. export_table ''account_updates''
      (\<lambda>lo hi. export_partition type_check (\<lambda>_. True)
         (select_updates (merge_latest update_key) [(demo_raw 10 1, 0), (demo_raw 12 2, 0)]) lo hi [''out'']) False
      [''out''] ''account_updates.parquet'' (Inr (table_bounds (au_slot \<circ> fst) [(demo_raw 10 1, 0 :: i64)]))
      \<lparr>dk_files = Map.empty, dk_io = 0\<rparr> = Some (d', Inr (Defect 1 2))"
proof -
  let ?rows = "[(demo_raw 10 1, 0 :: i64)]" and ?extra = "[(demo_raw 12 2, 0 :: i64)]"
  have written: "card (update_key ` fst ` set [(demo_raw 10 1, 0), (demo_raw 12 2, 0 :: i64)]) = 2"
    by (simp add: update_key_def update_row_def demo_info_def)
  have rows: "?rows \<noteq> []" "length (?rows @ ?extra) < 2 ^ 64" by simp_all
  have ok: "\<forall>r \<in> fst ` set (?rows @ ?extra). update_row_ok r \<and> slots_fit (au_slot r)"
    by (simp add: update_row_ok_def update_row_def demo_info_def slots_fit_def)
  have newest: "\<forall>s \<in> set ?extra. partition_start (au_slot (fst s)) =
      partition_start (bd_hi (table_bounds (au_slot \<circ> fst) ?rows))"
    by (simp add: update_row_def table_bounds_def partition_start_bucket)
  have free: "False \<or> (\<forall>p. dk_files \<lparr>dk_files = Map.empty, dk_io = 0\<rparr> (final_path [''out''] p ''account_updates.parquet'') = None)"
    by simp
  have len: "length ?rows = 1" by simp
  have less: "(1::nat) < 2" by simp
  note run = export_verdict [OF merge_latest_replaces rows ok newest _ type_check_takes free, of "\<lambda>_. True", OF TrueI,
      unfolded written len if_P [OF less] append_Cons append_Nil of_nat_1 of_nat_numeral]
  then show ?thesis by (elim exE conjE) (rule exI)
qed

end
