(* ===== verification/Journal.thy ===== *)
theory Journal
  imports Gap_Records
begin

text \<open>
  What the indexer is for: a journal of the updates it is delivered. A journal is four lists of
  rows; an update adds its raw row and, when it decodes, its snapshot. The indexer of
  \<open>src/main.rs\<close>, with its buffers, batches, ticks, final flushes, gap records and reconnects,
  refines it: the tables with the buffers behind them are the journal after every step, and
  the tables alone are between sessions.
\<close>

section \<open>The abstract journal\<close>

record journal =
  jr_updates :: "account_update_row list"
  jr_obligations :: "obligation_snapshot_row list"
  jr_reserves :: "reserve_snapshot_row list"
  jr_markets :: "lending_market_snapshot_row list"

type_synonym delivered = "u64 \<times> account_info"

text \<open>The rows a payload decodes to, as the list a decoder's answer stands for.\<close>

definition decoded_rows :: "bool \<Rightarrow> ('e + 'd) option \<Rightarrow> ('d \<Rightarrow> 'r) \<Rightarrow> 'r list" where
  "decoded_rows wanted result row =
     (if wanted then case result of Some (Inr d) \<Rightarrow> [row d] | _ \<Rightarrow> [] else [])"

definition journal_add :: "external \<Rightarrow> delivered \<Rightarrow> journal \<Rightarrow> journal" where
  "journal_add ext u j =
     (let (slot, info) = u; kind = account_kind_from (x_digest ext) (ai_data info);
          wv = ai_write_version info; key = ai_pubkey info; data = ai_data info
      in \<lparr>jr_updates = jr_updates j @ [update_row slot kind info],
          jr_obligations = jr_obligations j @ decoded_rows (kind = Known ''Obligation'')
            (decode_obligation (x_cast ext) data) (obligation_row slot wv key),
          jr_reserves = jr_reserves j @ decoded_rows (kind = Known ''Reserve'')
            (decode_reserve (x_cast ext) data) (reserve_row slot wv key),
          jr_markets = jr_markets j @ decoded_rows (kind = Known ''LendingMarket'')
            (decode_lending_market (x_cast ext) (x_spl ext) data) (market_row slot wv key)\<rparr>)"

definition delivery_of :: "event \<Rightarrow> delivered option" where
  "delivery_of e =
     (case e of
        Message ts u \<Rightarrow> (case u of Account_Update slot info \<Rightarrow> map_option (Pair slot) info | _ \<Rightarrow> None)
      | _ \<Rightarrow> None)"

text \<open>What a session is delivered before the event that ends it.\<close>

definition deliveries :: "event list \<Rightarrow> delivered list" where
  "deliveries es = List.map_filter delivery_of (takeWhile (\<lambda>e. \<not> ends e) es)"

lemma deliveries_simps [simp]:
  "deliveries [] = []"
  "deliveries (e # es) = (if ends e then [] else (case delivery_of e of None \<Rightarrow> [] | Some u \<Rightarrow> [u]) @ deliveries es)"
  by (simp_all add: deliveries_def map_filter_simps split: option.split)

section \<open>The abstraction\<close>

definition journal_of_db :: "db \<Rightarrow> journal" where
  "journal_of_db db =
     \<lparr>jr_updates = t_updates db, jr_obligations = t_obligations db,
      jr_reserves = t_reserves db, jr_markets = t_markets db\<rparr>"

definition journal_with :: "writer \<Rightarrow> db \<Rightarrow> journal" where
  "journal_with w db =
     \<lparr>jr_updates = t_updates db @ w_buf w, jr_obligations = t_obligations db @ w_snap_buf w,
      jr_reserves = t_reserves db @ w_reserve_buf w, jr_markets = t_markets db @ w_lm_buf w\<rparr>"

lemma journal_with_new [simp]: "journal_with writer_new db = journal_of_db db"
  by (simp add: journal_with_def journal_of_db_def writer_new_def)

text \<open>The checkpoint a store should have: the newest raw row's.\<close>

definition checkpoint_at :: "account_update_row \<Rightarrow> checkpoint_row" where
  "checkpoint_at r = \<lparr>ck_stream = STREAM, ck_last_slot = au_slot r, ck_last_write_version = au_write_version r\<rparr>"

text \<open>
  A state of the process that implements journal \<open>j\<close>: the buffers are behind the tables, and once the
  process has stored anything its newest checkpoint is that of the newest stored row.
\<close>

definition implements :: "db \<Rightarrow> indexer \<Rightarrow> journal \<Rightarrow> bool" where
  "implements db0 ix j \<longleftrightarrow>
     (\<exists>w. ix_writer ix = Some w \<and> tidy w \<and> journal_with w (ix_db ix) = j)
     \<and> (if t_updates (ix_db ix) = t_updates db0 then t_checkpoint (ix_db ix) = t_checkpoint db0
        else t_updates (ix_db ix) \<noteq> [] \<and> t_checkpoint (ix_db ix) \<noteq> []
          \<and> last (t_checkpoint (ix_db ix)) = checkpoint_at (last (t_updates (ix_db ix))))
     \<and> prefix (t_updates db0) (t_updates (ix_db ix))"

lemma implements_cong:
  assumes "ix_writer ix' = ix_writer ix" and "journal_of_db (ix_db ix') = journal_of_db (ix_db ix)"
    and "t_checkpoint (ix_db ix') = t_checkpoint (ix_db ix)"
  shows "implements db0 ix' j = implements db0 ix j"
  using assms by (simp add: implements_def journal_with_def journal_of_db_def)

section \<open>Each step refines the journal\<close>

lemma buffers_decoded:
  "w_snap_buf (buffer_obligation ext slot kind info w) = w_snap_buf w @ decoded_rows (kind = Known ''Obligation'')
     (decode_obligation (x_cast ext) (ai_data info)) (obligation_row slot (ai_write_version info) (ai_pubkey info))"
  "w_reserve_buf (buffer_reserve ext slot kind info w) = w_reserve_buf w @ decoded_rows (kind = Known ''Reserve'')
     (decode_reserve (x_cast ext) (ai_data info)) (reserve_row slot (ai_write_version info) (ai_pubkey info))"
  "w_lm_buf (buffer_market ext slot kind info w) = w_lm_buf w @ decoded_rows (kind = Known ''LendingMarket'')
     (decode_lending_market (x_cast ext) (x_spl ext) (ai_data info)) (market_row slot (ai_write_version info) (ai_pubkey info))"
  by (auto simp: buffer_obligation_def buffer_reserve_def buffer_market_def push_snapshot_def
      push_reserve_snapshot_def push_lm_snapshot_def decoded_rows_def split: option.splits sum.splits)

lemma buffers_apart:
  "w_reserve_buf (buffer_obligation ext slot kind info w) = w_reserve_buf w"
  "w_lm_buf (buffer_obligation ext slot kind info w) = w_lm_buf w"
  "w_snap_buf (buffer_reserve ext slot kind info w) = w_snap_buf w"
  "w_lm_buf (buffer_reserve ext slot kind info w) = w_lm_buf w"
  "w_snap_buf (buffer_market ext slot kind info w) = w_snap_buf w"
  "w_reserve_buf (buffer_market ext slot kind info w) = w_reserve_buf w"
  by (auto simp: buffer_obligation_def buffer_reserve_def buffer_market_def push_snapshot_def
      push_reserve_snapshot_def push_lm_snapshot_def split: option.splits sum.splits)

lemma buffer_update_journal:
  "journal_with (buffer_update ext slot info w) db = journal_add ext (slot, info) (journal_with w db)"
  by (simp add: journal_with_def journal_add_def buffer_update_def push_update_def Let_def
      buffers_decoded buffers_apart)

lemma flush_implements:
  assumes acked: "\<And>n. x_ins ext n = Acked" and ix: "implements db0 ix j"
  shows "\<exists>ix'. flush_writer_step ext ix = Continue ix' \<and> implements db0 ix' j \<and> ix_writer ix' = Some writer_new
    \<and> ix' = ix\<lparr>ix_writer := ix_writer ix', ix_db := ix_db ix'\<rparr>"
proof -
  from ix obtain w where w: "ix_writer ix = Some w" "tidy w" "journal_with w (ix_db ix) = j"
    by (auto simp: implements_def)
  define db' where "db' = fst (snd (flush (x_ins ext) w (ix_db ix)))"
  have step: "flush_writer_step ext ix = Continue (ix\<lparr>ix_writer := Some writer_new, ix_db := db'\<rparr>)"
    using flush_acked [where ins = "x_ins ext" and w = w and db = "ix_db ix"]
      flush_writer [of "x_ins ext" w "ix_db ix"] acked
    by (cases "flush (x_ins ext) w (ix_db ix)") (auto simp: flush_writer_step_def w(1) db'_def)
  have "implements db0 (ix\<lparr>ix_writer := Some writer_new, ix_db := db'\<rparr>) j"
  proof (cases "writer_is_empty w")
    case True
    then have "w = writer_new" by (cases w) (simp add: writer_is_empty_def writer_new_def)
    moreover have "db' = ix_db ix" using True by (simp add: db'_def flush_empty)
    ultimately show ?thesis using ix w by (simp add: implements_def)
  next
    case False
    with w(2) have buf: "w_buf w \<noteq> []" by (auto simp: tidy_def)
    have Done: "snd (snd (flush (x_ins ext) w (ix_db ix))) = Done ()"
      using acked by (rule flush_acked)
    note db' = flush_Done [OF Done False, folded db'_def]
    have "checkpoint_of w = checkpoint_at (last (t_updates db'))"
      using buf by (simp add: db' checkpoint_of_def checkpoint_at_def high_water_updates)
    moreover have "journal_of_db db' = j"
      using w(3) by (auto simp: db' journal_with_def journal_of_db_def)
    moreover have "prefix (t_updates db0) (t_updates db')" "t_updates db' \<noteq> t_updates db0"
      using ix buf by (auto simp: db' implements_def prefix_def)
    ultimately show ?thesis
      using buf by (simp add: implements_def db')
  qed
  with step show ?thesis by (intro exI [of _ "ix\<lparr>ix_writer := Some writer_new, ix_db := db'\<rparr>"]) simp
qed

lemma gap_implements:
  assumes acked: "\<And>n. x_ins ext n = Acked" and ix: "implements db0 ix j"
  shows "\<exists>db. try_record_gap ext lo hi why ix = Continue (ix\<lparr>ix_db := db\<rparr>) \<and> implements db0 (ix\<lparr>ix_db := db\<rparr>) j"
proof -
  from ix obtain w where w: "ix_writer ix = Some w" by (auto simp: implements_def)
  define db where "db = fst (record_gap (x_ins ext) STREAM lo hi why (ix_db ix))"
  have "try_record_gap ext lo hi why ix = Continue (ix\<lparr>ix_db := db\<rparr>)"
    by (simp add: try_record_gap_def w record_gap_def insert_block_def Let_def acked db_def)
  moreover have "implements db0 (ix\<lparr>ix_db := db\<rparr>) j"
    using ix by (subst implements_cong [of _ ix]) (simp_all add: db_def record_gap_def frame_simps journal_of_db_def)
  ultimately show ?thesis by blast
qed

lemma judge_implements:
  assumes acked: "\<And>n. x_ins ext n = Acked" and ix: "implements db0 ix j"
  shows "\<exists>ix'. judge_resume ext r ix = Continue ix' \<and> implements db0 ix' j \<and> ix_shutdown ix' = ix_shutdown ix
    \<and> ix_got_data ix' = ix_got_data ix"
proof -
  let ?ix = "ix\<lparr>ix_resume_judged := True\<rparr>"
  have judged: "implements db0 ?ix j"
    using ix by (subst implements_cong [of _ ix]) simp_all
  show ?thesis
    using ix judged gap_implements [OF acked judged]
    by (fastforce simp: judge_resume_def Let_def split: bool.split option.split resume_verdict.split)
qed

lemma account_implements:
  assumes acked: "\<And>n. x_ins ext n = Acked" and ix: "implements db0 ix j"
  shows "\<exists>ix'. handle_account ext None slot info ix = Continue ix' \<and> implements db0 ix' (journal_add ext (slot, info) j)
    \<and> ix_shutdown ix' = ix_shutdown ix \<and> ix_got_data ix'"
proof -
  from ix obtain w where w: "ix_writer ix = Some w" "journal_with w (ix_db ix) = j"
    by (auto simp: implements_def)
  define ix1 where
    "ix1 = account_stats ext slot info ix\<lparr>ix_writer := map_option (buffer_update ext slot info) (ix_writer ix)\<rparr>"
  have stats: "ix_shutdown ix1 = ix_shutdown ix" "ix_got_data ix1"
    by (simp_all add: ix1_def account_stats_def Let_def split_beta)
  have ix1: "implements db0 ix1 (journal_add ext (slot, info) j)"
    using ix w by (simp add: implements_def ix1_def buffer_update_journal)
  define full where "full = (case ix_writer ix1 of Some w \<Rightarrow> batch_full w | None \<Rightarrow> False)"
  have account: "handle_account ext None slot info ix =
      step_then (if full then flush_writer_step ext ix1 else Continue ix1) Continue"
    by (simp add: handle_account_def Let_def ix1_def full_def budget_reached_def)
  from flush_implements [OF acked ix1] obtain ix2 where
    ix2: "flush_writer_step ext ix1 = Continue ix2" "implements db0 ix2 (journal_add ext (slot, info) j)"
      "ix2 = ix1\<lparr>ix_writer := ix_writer ix2, ix_db := ix_db ix2\<rparr>" by blast
  have "ix_shutdown ix2 = ix_shutdown ix" "ix_got_data ix2"
    using stats by (subst ix2(3), simp)+
  with stats ix1 ix2(1,2) show ?thesis by (cases full) (simp_all add: account)
qed

lemma step_implements:
  assumes acked: "\<And>n. x_ins ext n = Acked" and ix: "implements db0 ix j" and e: "\<not> ends e"
  shows "\<exists>ix'. session_step ext None r e ix = Continue ix'
    \<and> implements db0 ix' (case delivery_of e of None \<Rightarrow> j | Some u \<Rightarrow> journal_add ext u j)
    \<and> ix_shutdown ix' = ix_shutdown ix"
proof (cases e)
  case (Message ts u)
  have ix1: "implements db0 (note_produced ts ix) j"
    using ix by (subst implements_cong [of _ ix]) simp_all
  show ?thesis
  proof (cases u)
    case (Account_Update slot info)
    show ?thesis
    proof (cases info)
      case None
      with ix1 show ?thesis
        by (simp add: Message Account_Update session_step_def handle_message_def Let_def delivery_of_def)
    next
      case (Some i)
      from account_implements [OF acked ix1] obtain ix2 where
        ix2: "handle_account ext None slot i (note_produced ts ix) = Continue ix2"
          "implements db0 ix2 (journal_add ext (slot, i) j)" "ix_shutdown ix2 = ix_shutdown ix"
        by fastforce
      from judge_implements [OF acked ix2(2), of r] ix2 show ?thesis
        by (auto simp: Message Account_Update Some session_step_def handle_message_def Let_def delivery_of_def)
    qed
  next
    case (Slot_Update slot)
    let ?ix = "note_produced ts ix\<lparr>ix_tip_slot := max (ix_tip_slot (note_produced ts ix)) slot\<rparr>"
    have "implements db0 ?ix j" using ix1 by (subst implements_cong [of _ "note_produced ts ix"]) simp_all
    from judge_implements [OF acked this, of r] show ?thesis
      by (auto simp: Message Slot_Update session_step_def handle_message_def Let_def delivery_of_def)
  qed (use judge_implements [OF acked ix1, of r] in
      \<open>auto simp: Message session_step_def handle_message_def Let_def delivery_of_def\<close>)
next
  case Flush_Tick
  from flush_implements [OF acked ix] obtain ix' where
    ix': "flush_writer_step ext ix = Continue ix'" "implements db0 ix' j"
      "ix' = ix\<lparr>ix_writer := ix_writer ix', ix_db := ix_db ix'\<rparr>" by blast
  moreover have "ix_shutdown ix' = ix_shutdown ix" by (subst ix'(3)) simp
  ultimately show ?thesis by (simp add: Flush_Tick session_step_def delivery_of_def)
next
  case Lag_Tick
  have "implements db0 (lag_line ix) j"
    using ix by (subst implements_cong [of _ ix]) (simp_all add: lag_line_def)
  then show ?thesis by (simp add: Lag_Tick session_step_def delivery_of_def lag_line_def)
qed (use e in \<open>simp_all add: ends_def\<close>)

text \<open>
  The two flags a session's end looks at: an update sets \<open>got_data\<close>, nothing in the stream loop clears it or
  touches \<open>force_tip\<close>.
\<close>

lemma flush_step_flags [simp]:
  "ix_got_data (step_state (flush_writer_step ext ix)) = ix_got_data ix"
  "ix_force_tip (step_state (flush_writer_step ext ix)) = ix_force_tip ix"
  by (cases rule: flush_step_cases [of ix ext]; simp)+

lemma gap_step_flags [simp]:
  "ix_got_data (step_state (try_record_gap ext lo hi why ix)) = ix_got_data ix"
  "ix_force_tip (step_state (try_record_gap ext lo hi why ix)) = ix_force_tip ix"
  by (subst try_record_gap_state, simp)+

lemma judge_flags [simp]:
  "ix_got_data (step_state (judge_resume ext r ix)) = ix_got_data ix"
  "ix_force_tip (step_state (judge_resume ext r ix)) = ix_force_tip ix"
  by (auto simp: judge_resume_def Let_def split: option.splits resume_verdict.splits bool.splits)

lemma account_flags [simp]:
  "ix_got_data (step_state (handle_account ext budget slot info ix))"
  "ix_force_tip (step_state (handle_account ext budget slot info ix)) = ix_force_tip ix"
  by (simp_all add: handle_account_state Let_def account_stats_def split_beta)

lemma step_then_flag:
  "(\<And>ix. flag (step_state (k ix)) = flag ix) \<Longrightarrow> flag (step_state (step_then r k)) = flag (step_state r)"
  by (cases r) (simp_all add: step_then_def)

lemma session_step_flags:
  "ix_got_data (step_state (session_step ext budget r e ix)) \<longleftrightarrow> ix_got_data ix \<or> delivery_of e \<noteq> None"
  "ix_force_tip (step_state (session_step ext budget r e ix)) = ix_force_tip ix"
  by (auto simp: session_step_def handle_message_def note_produced_def Let_def lag_line_def delivery_of_def
      step_then_flag [where flag = ix_got_data] step_then_flag [where flag = ix_force_tip]
      split: event.splits update_oneof.splits option.splits)

lemma stream_implements:
  assumes acked: "\<And>n. x_ins ext n = Acked" and fin: "end_of es = Some e"
  shows "implements db0 ix j \<Longrightarrow> \<exists>ix'. run_stream ext None r es ix = Break ix'
    \<and> implements db0 ix' (fold (journal_add ext) (deliveries es) j) \<and> ix_shutdown ix' = (ix_shutdown ix \<or> signal e)
    \<and> ix_got_data ix' = (ix_got_data ix \<or> deliveries es \<noteq> []) \<and> ix_force_tip ix' = ix_force_tip ix"
  using fin
proof (induction es arbitrary: ix j)
  case (Cons x es)
  show ?case
  proof (cases "ends x")
    case True
    with Cons.prems(2) have x: "x = e" by simp
    from end_step [OF True, of ext r ix] obtain ix' where
      ix': "session_step ext None r x ix = Break ix'" "ix_writer ix' = ix_writer ix" "ix_db ix' = ix_db ix"
        "ix_shutdown ix' = (ix_shutdown ix \<or> signal x)" by blast
    have "implements db0 ix' j"
      using Cons.prems(1) ix'(2,3) by (subst implements_cong [of _ ix]) simp_all
    moreover have "ix_got_data ix' = ix_got_data ix" "ix_force_tip ix' = ix_force_tip ix"
      using session_step_flags [of ext None r x ix] ix'(1) True by (auto simp: delivery_of_def ends_def split: event.splits)
    ultimately show ?thesis using ix' x True by simp
  next
    case False
    from step_implements [OF acked Cons.prems(1) False, of r] obtain ix1 where
      ix1: "session_step ext None r x ix = Continue ix1" "ix_shutdown ix1 = ix_shutdown ix"
        "implements db0 ix1 (case delivery_of x of None \<Rightarrow> j | Some u \<Rightarrow> journal_add ext u j)" by blast
    have "ix_got_data ix1 = (ix_got_data ix \<or> delivery_of x \<noteq> None)" "ix_force_tip ix1 = ix_force_tip ix"
      using session_step_flags [of ext None r x ix] ix1(1) by simp_all
    with Cons.IH [OF ix1(3)] Cons.prems(2) False ix1 show ?thesis by (cases "delivery_of x") auto
  qed
qed simp

section \<open>Sessions and runs\<close>

text \<open>A session that opens, and whose stream ends, by itself or with an error.\<close>

definition healthy :: "session_input \<Rightarrow> bool" where
  "healthy inp \<longleftrightarrow>
     si_query_err inp = None \<and> si_connect_err inp = None \<and> si_subscribe_err inp = None
     \<and> (case end_of (si_events inp) of None \<Rightarrow> False | Some e \<Rightarrow> \<not> signal e)"

definition session_deliveries :: "session_input \<Rightarrow> delivered list" where
  "session_deliveries inp = deliveries (si_events inp)"

lemma finish_implements:
  assumes acked: "\<And>n. x_ins ext n = Acked" and ix: "implements db0 ix j" "\<not> ix_shutdown ix"
  shows "\<exists>ix'. finish_session ext None r ix = Reconnect ix' \<and> implements db0 ix' j
    \<and> ix_writer ix' = Some writer_new \<and> \<not> ix_shutdown ix'
    \<and> ix_force_tip ix' = (ix_force_tip ix \<or> \<not> ix_got_data ix \<and> r \<noteq> None)"
proof -
  from flush_implements [OF acked ix(1)] obtain ix1 where
    ix1: "flush_writer_step ext ix = Continue ix1" "implements db0 ix1 j" "ix_writer ix1 = Some writer_new"
      "ix1 = ix\<lparr>ix_writer := ix_writer ix1, ix_db := ix_db ix1\<rparr>" by blast
  have live: "\<not> ix_shutdown ix1" using ix(2) by (subst ix1(4)) simp
  have flags: "ix_got_data ix1 = ix_got_data ix" "ix_force_tip ix1 = ix_force_tip ix"
    by (subst ix1(4), simp)+
  have finish: "finish_session ext None r ix =
      loop_again (check_unreachable ext r ix1) (\<lambda>ix. Reconnect (count_reconnect ix))"
    by (simp add: finish_session_def ix1(1) loop_again_def budget_reached_def live)
  have again: "\<exists>ix'. Reconnect (count_reconnect ix2) = Reconnect ix' \<and> implements db0 ix' j
      \<and> ix_writer ix' = Some writer_new \<and> \<not> ix_shutdown ix' \<and> ix_force_tip ix' = ix_force_tip ix2"
    if "implements db0 ix2 j" "ix_writer ix2 = Some writer_new" "\<not> ix_shutdown ix2" for ix2
  proof -
    have "implements db0 (count_reconnect ix2) j = implements db0 ix2 j"
      by (rule implements_cong) (simp_all add: count_reconnect_def)
    with that show ?thesis by (simp add: count_reconnect_def)
  qed
  show ?thesis
  proof (cases "ix_got_data ix1 \<or> r = None")
    case True
    then have "check_unreachable ext r ix1 = Continue ix1"
      by (cases "ix_got_data ix1") (auto simp: check_unreachable_def)
    with again [OF ix1(2,3) live] True show ?thesis by (auto simp: finish loop_again_def flags)
  next
    case False
    then obtain c where c: "r = Some c" "\<not> ix_got_data ix1" by blast
    from gap_implements [OF acked ix1(2), of c "ix_last_slot ix1" "''resume unreachable: no data before stream error''"]
    obtain db where db: "try_record_gap ext c (ix_last_slot ix1) ''resume unreachable: no data before stream error'' ix1
        = Continue (ix1\<lparr>ix_db := db\<rparr>)" "implements db0 (ix1\<lparr>ix_db := db\<rparr>) j" by blast
    define ix3 where "ix3 = ix1\<lparr>ix_db := db, ix_force_tip := True\<rparr>"
    have "check_unreachable ext r ix1 = Continue ix3"
      using c db(1) by (simp add: check_unreachable_def ix3_def)
    then have fin: "finish_session ext None r ix = Reconnect (count_reconnect ix3)"
      by (simp add: finish loop_again_def)
    have "implements db0 ix3 j"
      using db(2) by (subst implements_cong [of _ "ix1\<lparr>ix_db := db\<rparr>"]) (simp_all add: ix3_def)
    moreover have "ix_writer ix3 = Some writer_new" "\<not> ix_shutdown ix3" "ix_force_tip ix3"
      using ix1(3) live by (simp_all add: ix3_def)
    ultimately obtain ix' where "Reconnect (count_reconnect ix3) = Reconnect ix'" "implements db0 ix' j"
      "ix_writer ix' = Some writer_new" "\<not> ix_shutdown ix'" "ix_force_tip ix'"
      using again [of ix3] by blast
    with fin c flags show ?thesis by simp
  qed
qed

text \<open>
  Where the process would resume: the slot of its checkpoint, unless the flag for a tip restart is set. A session that
  delivers updates moves the checkpoint to the last of them; one that delivers none sets the flag if it had resumed from a
  checkpoint, and leaves it clear if it had started from the tip.
\<close>

type_synonym resume_state = "u64 option \<times> bool"

definition resume_state_of :: "external \<Rightarrow> indexer \<Rightarrow> resume_state" where
  "resume_state_of ext ix = (map_option ck_last_slot (x_final ext (stream_rows (ix_db ix))), ix_force_tip ix)"

definition resume_after :: "delivered list \<Rightarrow> resume_state \<Rightarrow> resume_state" where
  "resume_after us st =
     (case st of (ck, tip) \<Rightarrow> if us = [] then (ck, \<not> tip \<and> ck \<noteq> None) else (Some (fst (last us)), False))"

definition resumes_at :: "resume_state \<Rightarrow> u64 option" where
  "resumes_at st = (case st of (ck, tip) \<Rightarrow> if tip then None else ck)"

lemma resume_point_state:
  "si_query_err inp = None \<Longrightarrow> ix_writer ix = Some w \<Longrightarrow> resume_point ext inp ix = Inr (resumes_at (resume_state_of ext ix))"
  by (simp add: resume_point_def resumes_at_def resume_state_of_def read_resume_slot_def)

lemma journal_updates:
  "jr_updates (fold (journal_add ext) us j) = jr_updates j @ map (row_of ext) us"
  by (induction us arbitrary: j) (auto simp: journal_add_def row_of_def Let_def split_beta)

lemma implements_start: "ix_writer ix = Some writer_new \<Longrightarrow> implements (ix_db ix) ix (journal_of_db (ix_db ix))"
  by (simp add: implements_def)

text \<open>The checkpoint of a store that has gained the updates \<open>us\<close>.\<close>

lemma implements_checkpoint:
  assumes "implements db ix (fold (journal_add ext) us (journal_of_db db))" and "ix_writer ix = Some writer_new"
    and final: "\<And>rows. x_final ext rows = newest rows"
  shows "map_option ck_last_slot (x_final ext (stream_rows (ix_db ix))) =
    (if us = [] then map_option ck_last_slot (x_final ext (stream_rows db)) else Some (fst (last us)))"
proof -
  have "journal_of_db (ix_db ix) = fold (journal_add ext) us (journal_of_db db)"
    using assms(1,2) by (simp add: implements_def)
  from arg_cong [OF this, of jr_updates] have rows: "t_updates (ix_db ix) = t_updates db @ map (row_of ext) us"
    by (simp add: journal_updates journal_of_db_def)
  show ?thesis
  proof (cases "us = []")
    case True
    then have "stream_rows (ix_db ix) = stream_rows db"
      using assms(1) rows by (simp add: implements_def stream_rows_def)
    with True show ?thesis by simp
  next
    case False
    then have "t_checkpoint (ix_db ix) \<noteq> []"
      and final_row: "last (t_checkpoint (ix_db ix)) = checkpoint_at (last (map (row_of ext) us))"
      using assms(1) rows by (auto simp: implements_def)
    then obtain cs where "t_checkpoint (ix_db ix) = cs @ [checkpoint_at (last (map (row_of ext) us))]"
      by (metis append_butlast_last_id)
    then show ?thesis
      using False by (cases "last us") (simp add: stream_rows_def final newest_def checkpoint_at_def last_map)
  qed
qed

lemma session_journal:
  assumes acked: "\<And>n. x_ins ext n = Acked"
    and inp: "healthy inp" and ix: "ix_writer ix = Some writer_new" "\<not> ix_shutdown ix"
  shows "\<exists>ix'. session ext None inp ix = Reconnect ix' \<and> ix_writer ix' = Some writer_new \<and> \<not> ix_shutdown ix'
    \<and> journal_of_db (ix_db ix') = fold (journal_add ext) (session_deliveries inp) (journal_of_db (ix_db ix))
    \<and> ((\<forall>rows. x_final ext rows = newest rows) \<longrightarrow>
          resume_state_of ext ix' = resume_after (session_deliveries inp) (resume_state_of ext ix))"
proof -
  let ?us = "session_deliveries inp" and ?r = "resumes_at (resume_state_of ext ix)"
  from inp obtain e where e: "end_of (si_events inp) = Some e" "\<not> signal e"
    and ok: "si_query_err inp = None" "si_connect_err inp = None" "si_subscribe_err inp = None"
    by (auto simp: healthy_def split: option.splits)
  have r: "resume_point ext inp ix = Inr ?r" by (rule resume_point_state [OF ok(1) ix(1)])
  let ?ix = "start_session (ix\<lparr>ix_force_tip := False\<rparr>)"
  have "implements (ix_db ix) ?ix (journal_of_db (ix_db ix)) = implements (ix_db ix) ix (journal_of_db (ix_db ix))"
    by (rule implements_cong) (simp_all add: start_session_def)
  with implements_start [OF ix(1)]
  have start: "implements (ix_db ix) ?ix (journal_of_db (ix_db ix))" by simp
  from stream_implements [OF acked e(1) start, of ?r] ix(2) e(2) obtain ix1 where
    ix1: "run_stream ext None ?r (si_events inp) ?ix = Break ix1"
      "implements (ix_db ix) ix1 (fold (journal_add ext) ?us (journal_of_db (ix_db ix)))" "\<not> ix_shutdown ix1"
      "ix_got_data ix1 = (?us \<noteq> [])" "\<not> ix_force_tip ix1"
    by (auto simp: session_deliveries_def start_session_def)
  from finish_implements [OF acked ix1(2,3), of ?r] obtain ix2 where
    ix2: "finish_session ext None ?r ix1 = Reconnect ix2"
      "implements (ix_db ix) ix2 (fold (journal_add ext) ?us (journal_of_db (ix_db ix)))"
      "ix_writer ix2 = Some writer_new" "\<not> ix_shutdown ix2" "ix_force_tip ix2 = (?us = [] \<and> ?r \<noteq> None)"
    by (auto simp: ix1(4,5))
  have "session ext None inp ix = Reconnect ix2"
    by (simp add: session_def r Let_def ok ix1(1) ix2(1))
  moreover have "journal_of_db (ix_db ix2) = fold (journal_add ext) ?us (journal_of_db (ix_db ix))"
    using ix2(2,3) by (simp add: implements_def)
  moreover have "resume_state_of ext ix2 = resume_after ?us (resume_state_of ext ix)"
    if "\<forall>rows. x_final ext rows = newest rows"
    using implements_checkpoint [OF ix2(2,3)] that ix2(5)
    by (auto simp: resume_state_of_def resume_after_def resumes_at_def)
  ultimately show ?thesis using ix2(3,4) by blast
qed

lemma run_journal:
  assumes acked: "\<And>n. x_ins ext n = Acked"
  shows "list_all healthy inps \<Longrightarrow> ix_writer ix = Some writer_new \<Longrightarrow> \<not> ix_shutdown ix \<Longrightarrow>
    \<exists>ix'. run ext None inps ix = Waiting ix' \<and> ix_writer ix' = Some writer_new
      \<and> journal_of_db (ix_db ix') = fold (journal_add ext) (concat (map session_deliveries inps)) (journal_of_db (ix_db ix))
      \<and> ((\<forall>rows. x_final ext rows = newest rows) \<longrightarrow>
            resume_state_of ext ix' = fold resume_after (map session_deliveries inps) (resume_state_of ext ix))"
proof (induction inps arbitrary: ix)
  case (Cons inp inps)
  then have "healthy inp" by simp
  from session_journal [OF acked this Cons.prems(2,3)] obtain ix1 where
    ix1: "session ext None inp ix = Reconnect ix1" "ix_writer ix1 = Some writer_new" "\<not> ix_shutdown ix1"
      "journal_of_db (ix_db ix1) = fold (journal_add ext) (session_deliveries inp) (journal_of_db (ix_db ix))"
      "(\<forall>rows. x_final ext rows = newest rows) \<longrightarrow>
          resume_state_of ext ix1 = resume_after (session_deliveries inp) (resume_state_of ext ix)" by blast
  from Cons.IH [OF _ ix1(2,3)] Cons.prems(1) ix1(5) show ?case by (auto simp: ix1(1,4))
qed auto

lemma fold_resume_after:
  "fst (fold resume_after uss st) = (if concat uss = [] then fst st else Some (fst (last (concat uss))))"
proof (induction uss arbitrary: st)
  case (Cons us uss)
  have "fst (resume_after us st) = (if us = [] then fst st else Some (fst (last us)))"
    by (simp add: resume_after_def split_beta)
  with Cons show ?case by (auto simp: last_append)
qed simp

text \<open>The journal of a whole run, and where it leaves the resume point.\<close>

lemma main_journal:
  fixes db :: db
  assumes "\<And>n. x_ins ext n = Acked" and "\<And>rows. x_final ext rows = newest rows" and "list_all healthy inps"
  defines "us \<equiv> concat (map session_deliveries inps)"
    and "st \<equiv> fold resume_after (map session_deliveries inps) (map_option ck_last_slot (newest (stream_rows db)), False)"
  shows "\<exists>ix. indexer_main ext True None inps db = Waiting ix \<and> ix_writer ix = Some writer_new
    \<and> journal_of_db (ix_db ix) = fold (journal_add ext) us (journal_of_db db)
    \<and> resume_state_of ext ix = st
    \<and> (us \<noteq> [] \<longrightarrow> read_resume_slot (x_final ext) None (ix_db ix) = Inr (Some (fst (last us))))"
proof -
  have start: "resume_state_of ext (indexer_new True db) = (map_option ck_last_slot (newest (stream_rows db)), False)"
    by (simp add: resume_state_of_def indexer_new_def assms(2))
  from run_journal [OF assms(1,3), of "indexer_new True db"] obtain ix where
    ix: "indexer_main ext True None inps db = Waiting ix" "ix_writer ix = Some writer_new"
      "journal_of_db (ix_db ix) = fold (journal_add ext) us (journal_of_db db)" "resume_state_of ext ix = st"
    using assms(2) unfolding start by (auto simp: indexer_main_def indexer_new_def us_def st_def)
  moreover have "read_resume_slot (x_final ext) None (ix_db ix) = Inr (fst st)"
    using ix(4) by (auto simp: read_resume_slot_def resume_state_of_def)
  ultimately show ?thesis
    using fold_resume_after [of "map session_deliveries inps"] by (auto simp: st_def us_def)
qed

section \<open>Properties\<close>

text \<open>
  C4 With acknowledged inserts the indexer is a journal. Whatever the sessions are, how often they drop
  and reconnect, how their updates fall into batches and ticks, and whatever gaps they record:
  after any number of sessions that open and end, the four data tables are what they were
  followed by one row per delivered update, in the order of delivery, and by its decoded row where it
  decodes, and nothing is left in the buffers. The resume point is that of the abstract state \<open>st\<close>: a process restarted on
  the tables resumes at the slot of the last update delivered, or where it did before if there was none; the
  running process does so too in its next session, except that it starts from the tip
  after a session that had resumed and was delivered nothing.
\<close>

theorem indexer_refines_journal:
  fixes db :: db
  assumes "\<And>n. x_ins ext n = Acked" and "\<And>rows. x_final ext rows = newest rows" and "list_all healthy inps"
    and query: "si_query_err inp = None"
  defines "us \<equiv> concat (map session_deliveries inps)"
    and "st \<equiv> fold resume_after (map session_deliveries inps) (map_option ck_last_slot (newest (stream_rows db)), False)"
  shows "\<exists>ix. indexer_main ext True None inps db = Waiting ix \<and> ix_writer ix = Some writer_new
    \<and> journal_of_db (ix_db ix) = fold (journal_add ext) us (journal_of_db db)
    \<and> resume_point ext inp ix = Inr (resumes_at st)
    \<and> resume_point ext inp (indexer_new True (ix_db ix)) = Inr (fst st)
    \<and> fst st = (if us = [] then map_option ck_last_slot (newest (stream_rows db)) else Some (fst (last us)))"
proof -
  obtain ix where ix: "indexer_main ext True None inps db = Waiting ix" "ix_writer ix = Some writer_new"
    "journal_of_db (ix_db ix) = fold (journal_add ext) us (journal_of_db db)" "resume_state_of ext ix = st"
    using main_journal [OF assms(1-3), of db] by (auto simp: us_def st_def)
  have "resume_point ext inp (indexer_new True (ix_db ix)) = Inr (fst st)"
    using ix(4) query by (auto simp: resume_point_def read_resume_slot_def indexer_new_def resume_state_of_def)
  with ix resume_point_state [OF query ix(2)] fold_resume_after [of "map session_deliveries inps"]
  show ?thesis by (auto simp: us_def st_def)
qed

text \<open>The last of three sessions hears a slot message only: the next starts from the tip, a new process does not.\<close>

definition journal_sessions :: "session_input list" where
  "journal_sessions =
     [seam_input [Message None (Account_Update 10 (Some seam_account)), Flush_Tick,
        Message None (Account_Update 12 (Some seam_account)), Stream_Error ''reset''],
      seam_input [Message None Ping_Update, Message None (Account_Update 700 (Some seam_account)), Lag_Tick, Stream_Ended],
      seam_input [Message None (Slot_Update 702), Stream_Ended]]"

theorem indexer_refines_journal_witness:
  "\<exists>ix. indexer_main seam_ext True None journal_sessions empty_db = Waiting ix
    \<and> map au_slot (t_updates (ix_db ix)) = [10, 12, 700]
    \<and> resume_point seam_ext (seam_input []) ix = Inr None
    \<and> resume_point seam_ext (seam_input []) (indexer_new True (ix_db ix)) = Inr (Some 700)"
proof -
  have us: "map session_deliveries journal_sessions = [[(10, seam_account), (12, seam_account)], [(700, seam_account)], []]"
    by (simp add: journal_sessions_def session_deliveries_def seam_input_def ends_def delivery_of_def)
  have healthy: "list_all healthy journal_sessions"
    by (simp add: journal_sessions_def healthy_def seam_input_def ends_def signal_def)
  have query: "si_query_err (seam_input []) = None" by (simp add: seam_input_def)
  obtain ix where ix: "indexer_main seam_ext True None journal_sessions empty_db = Waiting ix"
    "journal_of_db (ix_db ix) = fold (journal_add seam_ext) [(10, seam_account), (12, seam_account), (700, seam_account)]
       (journal_of_db empty_db)"
    "resume_point seam_ext (seam_input []) ix = Inr None"
    "resume_point seam_ext (seam_input []) (indexer_new True (ix_db ix)) = Inr (Some 700)"
    using indexer_refines_journal [OF _ _ healthy query, of seam_ext empty_db]
    by (auto simp: us seam_ext_def resume_after_def resumes_at_def)
  from arg_cong [OF ix(2), of jr_updates] have "t_updates (ix_db ix) =
      map (row_of seam_ext) [(10, seam_account), (12, seam_account), (700, seam_account)]"
    by (simp add: journal_updates journal_of_db_def empty_db_def del: fold.simps)
  with ix(1,3,4) show ?thesis by simp
qed

end
