(* ===== verification/Catch_Up.thy ===== *)
theory Catch_Up
  imports Journal Delivery
begin

text \<open>
  The process catches up. \<open>Delivery\<close> says what a history with faults leaves behind; here the faults
  stop: the process is restarted on the tables it left, inserts are acknowledged, and the server
  honours \<open>from_slot\<close>. \<open>Journal\<close> says what such a run adds; together they give the whole chain.
\<close>

section \<open>The journal as a set of rows\<close>

definition journal_rows :: "journal \<Rightarrow> data_row set" where
  "journal_rows j = data_rows (jr_updates j) (jr_obligations j) (jr_reserves j) (jr_markets j)"

lemma rows_in_journal: "rows_in db = journal_rows (journal_of_db db)"
  by (simp add: rows_in_def journal_rows_def journal_of_db_def)

lemma decoded_rows_simps:
  "decoded_rows wanted None row = []" "decoded_rows wanted (Some (Inl e)) row = []"
  "decoded_rows wanted (Some (Inr d)) row = (if wanted then [row d] else [])"
  by (simp_all add: decoded_rows_def)

lemma in_decoded_rows:
  "r \<in> set (decoded_rows wanted result row) \<longleftrightarrow> wanted \<and> (\<exists>d. result = Some (Inr d) \<and> r = row d)"
proof (cases result)
  case (Some x)
  then show ?thesis by (cases x) (auto simp: decoded_rows_simps)
qed (simp add: decoded_rows_simps)

lemma journal_rows_add: "journal_rows (journal_add ext u j) = journal_rows j \<union> rows_of ext u"
  by (cases u) (auto simp: journal_rows_def journal_add_def data_rows_def rows_of_def row_of_def Let_def in_decoded_rows)

lemma journal_rows_fold:
  "journal_rows (fold (journal_add ext) us j) = journal_rows j \<union> \<Union> (rows_of ext ` set us)"
  by (induction us arbitrary: j) (auto simp: journal_rows_add)

section \<open>The world without faults\<close>

text \<open>The same program and decoders, with every insert acknowledged.\<close>

definition fault_free :: "external \<Rightarrow> external" where
  "fault_free ext = ext\<lparr>x_ins := \<lambda>_. Acked\<rparr>"

lemma fault_free_simps [simp]:
  "x_ins (fault_free ext) n = Acked" "x_final (fault_free ext) = x_final ext"
  "rows_of (fault_free ext) = rows_of ext"
  by (auto simp: fault_free_def rows_of_def row_of_def fun_eq_iff Let_def)

text \<open>
  The server honours a request: every update of the chain from \<open>from_slot\<close> on, that slot included,
  is among what it delivers.
\<close>

definition replays :: "update list \<Rightarrow> subscribe_request \<Rightarrow> update list \<Rightarrow> bool" where
  "replays chain req us \<longleftrightarrow>
     (case sub_from_slot req of None \<Rightarrow> True | Some c \<Rightarrow> \<forall>u \<in> set chain. c \<le> fst u \<longrightarrow> u \<in> set us)"

lemma resume_point_new:
  assumes "healthy inp"
  shows "resume_point ext inp (indexer_new True db) = Inr (resume_slot ext db)"
  using assms by (simp add: healthy_def resume_point_def indexer_new_def read_resume_slot_def resume_slot_def)

section \<open>Properties\<close>

text \<open>
  C3 The process catches up with the chain. Take any history of kills, restarts, refused
  and late replays and failed inserts that has left a checkpoint. Restart the process with inserts
  acknowledged, and let the server honour the request of its first session: the slot it asks for
  with \<open>from_slot\<close> is delivered, and all after it. However the sessions after it go, and however
  the updates fall into batches, the process keeps running with nothing in its buffers, every
  update of the chain, and not only those below a checkpoint, has all its rows stored or lies in a
  hole of the history, every hole is still accounted for, and a process restarted after it would resume at the last
  update delivered.
\<close>

theorem catches_up:
  assumes "\<And>rows. x_final ext rows = newest rows" and "slot_sorted chain"
    and "(world_step ext chain)\<^sup>*\<^sup>* (start, Down db) (holes, ph)"
    and "good_db ext chain start db" and "\<And>h. h \<in> set start \<Longrightarrow> accounted ext db h"
    and c: "resume_slot ext (phase_db ph) = Some c"
    and inps: "healthy inp" "list_all healthy inps"
    and server: "\<And>r. resume_point (fault_free ext) inp (indexer_new True (phase_db ph)) = Inr r \<Longrightarrow>
      replays chain (build_request r) (session_deliveries inp)"
  shows "\<exists>ix. indexer_main (fault_free ext) True None (inp # inps) (phase_db ph) = Waiting ix
    \<and> ix_writer ix = Some writer_new
    \<and> (\<forall>u \<in> set chain. rows_of ext u \<subseteq> rows_in (ix_db ix) \<or> (\<exists>h \<in> set holes. in_hole h (fst u)))
    \<and> (\<forall>h \<in> set holes. accounted ext (ix_db ix) h)
    \<and> (let us = concat (map session_deliveries (inp # inps))
       in us \<noteq> [] \<longrightarrow> resume_slot ext (ix_db ix) = Some (fst (last us)))"
proof -
  let ?ext = "fault_free ext" and ?us = "concat (map session_deliveries (inp # inps))" and ?db = "phase_db ph"
  have acked: "x_ins ?ext n = Acked" for n by simp
  have final: "x_final ?ext rows = newest rows" for rows using assms(1) by simp
  have all: "list_all healthy (inp # inps)" using inps by simp
  obtain ix where ix: "indexer_main ?ext True None (inp # inps) ?db = Waiting ix" "ix_writer ix = Some writer_new"
    and journal: "journal_of_db (ix_db ix) = fold (journal_add ?ext) ?us (journal_of_db ?db)"
    and resume: "?us \<noteq> [] \<longrightarrow> read_resume_slot (x_final ?ext) None (ix_db ix) = Inr (Some (fst (last ?us)))"
    using main_journal [OF acked final all, of ?db] by blast
  have rows: "rows_in (ix_db ix) = rows_in ?db \<union> \<Union> (rows_of ext ` set ?us)"
    by (simp only: rows_in_journal journal journal_rows_fold fault_free_simps)
  have asked: "replays chain (build_request (Some c)) (session_deliveries inp)"
    by (rule server) (use resume_point_new [OF inps(1), of ?ext ?db] c in \<open>simp add: resume_slot_def\<close>)
  have good: "good_db ext chain holes ?db"
    by (rule good_db_reachable [OF assms(1-5)])
  have kept: "rows_of ext u \<subseteq> rows_in (ix_db ix) \<or> (\<exists>h \<in> set holes. in_hole h (fst u))" if u: "u \<in> set chain" for u
  proof (cases "c \<le> fst u")
    case True
    with asked u have "u \<in> set ?us" by (simp add: replays_def build_request_def)
    with rows show ?thesis by blast
  next
    case False
    with good c u rows show ?thesis by (auto simp: good_db_def covered_def kept_def not_le)
  qed
  have "told_world ext (holes, ph)"
    using told_reachable [OF assms(3)] assms(5) by (simp add: told_world_def)
  then have told: "accounted ext ?db h" if "h \<in> set holes" for h
    using that by (simp add: told_world_def)
  have "set (t_gaps ?db) \<subseteq> set (t_gaps (ix_db ix))"
    using gaps_grow.run [of "set (t_gaps ?db)" "indexer_new True ?db" ?ext None "inp # inps"] ix(1)
    by (simp add: indexer_main_def indexer_new_def)
  then have "\<forall>h \<in> set holes. accounted ext (ix_db ix) h"
    using told by (blast intro: accounted_mono)
  with ix kept resume show ?thesis
    by (auto simp: Let_def resume_slot_def read_resume_slot_def)
qed

text \<open>After its first life the example process is restarted and replays from slot 12.\<close>

definition catch_up_input :: session_input where
  "catch_up_input = \<lparr>si_query_err = None, si_connect_err = None, si_subscribe_err = None,
     si_events = map (\<lambda>(slot, info). Message None (Account_Update slot (Some info))) (tl demo_chain) @ [Stream_Ended]\<rparr>"

theorem catches_up_witness:
  "\<exists>ix. indexer_main (fault_free demo_ext) True None [catch_up_input] (ix_db demo4) = Waiting ix
    \<and> \<Union> (rows_of demo_ext ` set demo_chain) \<subseteq> rows_in (ix_db ix)
    \<and> resume_slot demo_ext (ix_db ix) = Some 2000"
proof -
  have us: "session_deliveries catch_up_input = tl demo_chain"
    by (simp add: catch_up_input_def session_deliveries_def demo_chain_def ends_def delivery_of_def)
  have healthy: "healthy catch_up_input"
    by (simp add: healthy_def catch_up_input_def demo_chain_def ends_def signal_def)
  have good: "good_db demo_ext demo_chain [] empty_db"
    by (simp add: good_db_def resume_slot_def stream_rows_def empty_db_def demo_ext_simps newest_def
        rows_in_def data_rows_def)
  have sorted: "slot_sorted demo_chain"
    by (simp add: slot_sorted_def demo_chain_def)
  have c: "resume_slot demo_ext (phase_db (Down (ix_db demo4))) = Some 12"
    using demo_eval_4 resume_point_new [of demo_input demo_ext "ix_db demo4"]
    by (simp add: resume_point_def indexer_new_def read_resume_slot_def resume_slot_def demo_input_def)
  have server: "replays demo_chain (build_request r) (session_deliveries catch_up_input)"
    if "resume_point (fault_free demo_ext) catch_up_input (indexer_new True (phase_db (Down (ix_db demo4)))) = Inr r" for r
    using that c resume_point_new [OF healthy, of "fault_free demo_ext" "ix_db demo4"]
    by (simp add: resume_slot_def us) (auto simp: replays_def build_request_def demo_chain_def)
  from catches_up [OF demo_ext_simps(2) sorted demo_first_life good _ c healthy _ server, of "[]"]
  obtain ix where ix: "indexer_main (fault_free demo_ext) True None [catch_up_input] (ix_db demo4) = Waiting ix"
    "\<forall>u \<in> set demo_chain. rows_of demo_ext u \<subseteq> rows_in (ix_db ix) \<or> fst u < 10"
    "resume_slot demo_ext (ix_db ix) = Some 2000"
    by (auto simp: us demo_chain_def)
  then show ?thesis by (auto simp: demo_chain_def)
qed

end
