(* ===== verification/Snapshot_Facts.thy ===== *)
theory Snapshot_Facts
  imports Snapshot
begin

text \<open>
  What the snapshot writer guarantees: chunks partition the rows and every insert stores each
  row at most once, pages partition the obligations, every account of a page gets exactly one raw
  row and at most one decoded row, and the stream's own tables are never touched.
\<close>

section \<open>Chunks\<close>

lemma split_chunks_concat: "concat (rev (split_chunks rows)) = rows"
proof (induction rows rule: split_chunks.induct)
  case (1 rows)
  then show ?case by (subst split_chunks.simps) auto
qed

lemma split_chunks_bounded:
  "rows \<noteq> [] \<Longrightarrow> list_all (\<lambda>c. c \<noteq> [] \<and> length c \<le> INSERT_BATCH) (split_chunks rows)"
proof (induction rows rule: split_chunks.induct)
  case (1 rows)
  then show ?case by (subst split_chunks.simps) (auto simp: const_defs)
qed

lemma mset_split_chunks: "mset (concat (split_chunks rows)) = mset rows"
proof -
  have "mset (concat (split_chunks rows)) = mset (concat (rev (split_chunks rows)))"
    by (simp add: mset_concat rev_map [symmetric] sum_mset_sum_list [symmetric])
  then show ?thesis by (simp only: split_chunks_concat)
qed

lemma mset_landed: "mset (landed keep rows) \<subseteq># mset rows"
proof -
  have "mset (filter (\<lambda>(i, r). keep i) (enumerate 0 rows)) \<subseteq># mset (enumerate 0 rows)"
    by (simp add: multiset_filter_subset)
  then have "mset (map snd (filter (\<lambda>(i, r). keep i) (enumerate 0 rows))) \<subseteq># mset (map snd (enumerate 0 rows))"
    unfolding mset_map by (rule image_mset_subseteq_mono)
  then show ?thesis by (simp add: landed_def)
qed

context table
begin

lemma insert_block_mset:
  "\<exists>part. get (fst (insert_block upd ins rows db)) = get db @ part \<and> mset part \<subseteq># mset rows"
  by (auto simp: insert_block_def Let_def get_upd get_op mset_landed split: ins_outcome.splits)

lemma insert_chunks_Done:
  "snd (insert_chunks upd ins chunks db) = Done () \<Longrightarrow>
     get (fst (insert_chunks upd ins chunks db)) = get db @ concat chunks"
proof (induction chunks arbitrary: db)
  case (Cons c cs)
  then show ?case
    by (auto simp: fst_and_then and_then_Done insert_Done_get)
qed simp

lemma insert_chunks_part:
  "\<exists>part. get (fst (insert_chunks upd ins chunks db)) = get db @ part \<and> mset part \<subseteq># mset (concat chunks)"
proof (induction chunks arbitrary: db)
  case Nil
  then show ?case by simp
next
  case (Cons c cs)
  obtain p where p: "get (fst (insert_block upd ins c db)) = get db @ p" "mset p \<subseteq># mset c"
    using insert_block_mset by blast
  show ?case
  proof (cases "snd (insert_block upd ins c db) = Done ()")
    case True
    then have c: "get (fst (insert_block upd ins c db)) = get db @ c" by (rule insert_Done_get)
    obtain q where "get (fst (insert_chunks upd ins cs (fst (insert_block upd ins c db))))
        = get (fst (insert_block upd ins c db)) @ q" "mset q \<subseteq># mset (concat cs)"
      using Cons.IH by blast
    with True c show ?thesis by (intro exI [of _ "c @ q"]) (simp add: fst_and_then)
  next
    case False
    with p show ?thesis
      by (intro exI [of _ p]) (auto simp: fst_and_then intro: subset_mset.order_trans)
  qed
qed

lemma insert_chunked_part:
  "\<exists>part. get (fst (insert_chunked upd ins rows db)) = get db @ part \<and> mset part \<subseteq># mset rows"
  using insert_chunks_part [of ins "split_chunks rows" db]
  by (auto simp: insert_chunked_def mset_split_chunks split: prod.splits outcome.splits)

lemma insert_chunked_Done:
  "insert_chunked upd ins rows db = (db', Done n) \<Longrightarrow>
     n = length rows \<and> mset (get db') = mset (get db) + mset rows"
  using insert_chunks_Done [of ins "split_chunks rows" db]
  by (auto simp: insert_chunked_def mset_split_chunks split: prod.splits outcome.splits if_splits)

end

lemma insert_chunks_frame:
  assumes "\<And>rows db. other (fst (insert_block upd ins rows db)) = other db"
  shows "other (fst (insert_chunks upd ins chunks db)) = other db"
  by (induction chunks arbitrary: db) (auto simp: fst_and_then assms)

lemma insert_chunked_frame:
  assumes "\<And>rows db. other (fst (insert_block upd ins rows db)) = other db"
  shows "other (fst (insert_chunked upd ins rows db)) = other db"
  using insert_chunks_frame [of other upd ins, OF assms, of "split_chunks rows" db]
  by (auto simp: insert_chunked_def split: prod.splits outcome.splits)

text \<open>The stream's tables and the run table.\<close>

definition stream_tables :: "db \<Rightarrow> checkpoint_row list \<times> gap_row list \<times> snapshot_run_row list" where
  "stream_tables db = (t_checkpoint db, t_gaps db, t_runs db)"

lemma chunked_frames [frame_simps]:
  "stream_tables (fst (insert_chunked t_updates_update ins urows db)) = stream_tables db"
  "stream_tables (fst (insert_chunked t_obligations_update ins orows db)) = stream_tables db"
  "stream_tables (fst (insert_chunked t_reserves_update ins rrows db)) = stream_tables db"
  "stream_tables (fst (insert_chunked t_markets_update ins mrows db)) = stream_tables db"
  "t_updates (fst (insert_chunked t_obligations_update ins orows db)) = t_updates db"
  "t_updates (fst (insert_chunked t_reserves_update ins rrows db)) = t_updates db"
  "t_updates (fst (insert_chunked t_markets_update ins mrows db)) = t_updates db"
  "t_obligations (fst (insert_chunked t_updates_update ins urows db)) = t_obligations db"
  "t_obligations (fst (insert_chunked t_reserves_update ins rrows db)) = t_obligations db"
  "t_obligations (fst (insert_chunked t_markets_update ins mrows db)) = t_obligations db"
  "t_reserves (fst (insert_chunked t_updates_update ins urows db)) = t_reserves db"
  "t_reserves (fst (insert_chunked t_obligations_update ins orows db)) = t_reserves db"
  "t_reserves (fst (insert_chunked t_markets_update ins mrows db)) = t_reserves db"
  "t_markets (fst (insert_chunked t_updates_update ins urows db)) = t_markets db"
  "t_markets (fst (insert_chunked t_obligations_update ins orows db)) = t_markets db"
  "t_markets (fst (insert_chunked t_reserves_update ins rrows db)) = t_markets db"
  by (rule insert_chunked_frame; simp add: stream_tables_def frame_simps)+

section \<open>One page\<close>

lemma fst_then_count:
  "fst (then_count r k) = (case snd r of Done n \<Rightarrow> fst (k n (fst r)) | _ \<Rightarrow> fst r)"
  by (cases r) (auto simp: then_count_def split: outcome.splits)

lemma then_count_Done:
  "then_count r k = (db', Done x) \<longleftrightarrow> (\<exists>n db1. r = (db1, Done n) \<and> k n db1 = (db', Done x))"
  by (cases r) (auto simp: then_count_def split: outcome.splits)

definition account_kind_of :: "decoder_env \<Rightarrow> rpc_account \<Rightarrow> account_kind" where
  "account_kind_of de a = account_kind_from (de_digest de) (rp_data a)"

definition decodable :: "account_kind \<Rightarrow> bool" where
  "decodable k \<longleftrightarrow> k = Known ''Obligation'' \<or> k = Known ''Reserve'' \<or> k = Known ''LendingMarket''"

definition row_of_account :: "decoder_env \<Rightarrow> u64 \<Rightarrow> rpc_account \<Rightarrow> account_update_row" where
  "row_of_account de slot a = raw_row slot (account_kind_from (de_digest de) (rp_data a)) a"

lemma decode_account_raw [simp]:
  "pa_raw (decode_account de slot kind a acc) = pa_raw acc"
  "pa_by_kind (decode_account de slot kind a acc) = pa_by_kind acc"
  by (auto simp: decode_account_def note_failure_def split: option.splits sum.splits)

lemma page_account_raw [simp]:
  "pa_raw (page_account de slot a acc) = pa_raw acc @ [row_of_account de slot a]"
  by (simp add: page_account_def Let_def row_of_account_def)

lemma fold_page_raw:
  "pa_raw (fold (page_account de slot) accts acc) = pa_raw acc @ map (row_of_account de slot) accts"
  by (induction accts arbitrary: acc) simp_all

lemma page_raw: "pa_raw (fold (page_account de slot) accts page_acc_new) = map (row_of_account de slot) accts"
  by (simp add: fold_page_raw page_acc_new_def)

lemma write_page_tables [simp]: "stream_tables (fst (write_page ins acc db)) = stream_tables db"
  by (auto simp: write_page_def fst_then_count frame_simps split: outcome.splits)

section \<open>What a page writes\<close>

text \<open>The data rows of the store and of a page, each as often as it occurs.\<close>

definition data_bag ::
  "account_update_row list \<Rightarrow> obligation_snapshot_row list \<Rightarrow> reserve_snapshot_row list
     \<Rightarrow> lending_market_snapshot_row list \<Rightarrow> data_row multiset" where
  "data_bag us os rs ms =
     image_mset Raw (mset us) + image_mset Obligation_Snapshot (mset os)
     + image_mset Reserve_Snapshot (mset rs) + image_mset Market_Snapshot (mset ms)"

definition bag_in :: "db \<Rightarrow> data_row multiset" where
  "bag_in db = data_bag (t_updates db) (t_obligations db) (t_reserves db) (t_markets db)"

definition page_bag :: "page_acc \<Rightarrow> data_row multiset" where
  "page_bag acc = data_bag (pa_raw acc) (pa_obligations acc) (pa_reserves acc) (pa_markets acc)"

text \<open>The rows of one account: its raw row, and its decoded row when its kind decodes.\<close>

definition snapshot_rows :: "decoder_env \<Rightarrow> u64 \<Rightarrow> rpc_account \<Rightarrow> data_row list" where
  "snapshot_rows de slot a =
     (let kind = account_kind_of de a; data = rp_data a; key = rp_pubkey a; wv = SNAPSHOT_WRITE_VERSION
      in Raw (row_of_account de slot a) #
        (if kind = Known ''Obligation'' then
           (case decode_obligation (de_cast de) data of
              Some (Inr d) \<Rightarrow> [Obligation_Snapshot (obligation_row slot wv key d)] | _ \<Rightarrow> [])
         else if kind = Known ''Reserve'' then
           (case decode_reserve (de_cast de) data of
              Some (Inr d) \<Rightarrow> [Reserve_Snapshot (reserve_row slot wv key d)] | _ \<Rightarrow> [])
         else if kind = Known ''LendingMarket'' then
           (case decode_lending_market (de_cast de) (de_spl de) data of
              Some (Inr d) \<Rightarrow> [Market_Snapshot (market_row slot wv key d)] | _ \<Rightarrow> [])
         else []))"

text \<open>A decodable kind that has its raw row only.\<close>

definition decode_fails :: "decoder_env \<Rightarrow> rpc_account \<Rightarrow> bool" where
  "decode_fails de a \<longleftrightarrow> decodable (account_kind_of de a) \<and> length (snapshot_rows de 0 a) = 1"

lemma page_bag_account:
  "page_bag (page_account de slot a acc) = page_bag acc + mset (snapshot_rows de slot a)"
proof -
  define kind where "kind = account_kind_of de a"
  have decoded: "page_bag (decode_account de slot kind a acc) + {#Raw (row_of_account de slot a)#}
      = page_bag acc + mset (snapshot_rows de slot a)" for acc
    by (auto simp: decode_account_def note_failure_def snapshot_rows_def Let_def kind_def page_bag_def
        data_bag_def split: option.splits sum.splits)
  have raw: "page_bag (acc\<lparr>pa_raw := pa_raw acc @ [r]\<rparr>) = page_bag acc + {#Raw r#}" for acc r
    by (simp add: page_bag_def data_bag_def)
  have count: "page_bag (acc\<lparr>pa_by_kind := m\<rparr>) = page_bag acc" for acc m
    by (simp add: page_bag_def)
  show ?thesis
    using decoded [of "acc\<lparr>pa_by_kind := btree_add (kind_text kind) 1 (pa_by_kind acc)\<rparr>"]
    by (simp only: page_account_def Let_def raw count kind_def account_kind_of_def row_of_account_def)
qed

lemma page_failures_account:
  "pa_failures (page_account de slot a acc) = pa_failures acc + (if decode_fails de a then 1 else 0)"
  by (auto simp: page_account_def Let_def decode_account_def note_failure_def decode_fails_def decodable_def
      snapshot_rows_def account_kind_of_def split: option.splits sum.splits)

lemma fold_page_bag:
  "page_bag (fold (page_account de slot) accts page_acc_new) = mset (concat (map (snapshot_rows de slot) accts))"
  by (induction accts rule: rev_induct)
    (simp_all add: page_bag_account, simp add: page_bag_def data_bag_def page_acc_new_def)

lemma fold_page_failures:
  "pa_failures (fold (page_account de slot) accts page_acc_new) = of_nat (length (filter (decode_fails de) accts))"
  by (induction accts rule: rev_induct) (simp_all add: page_failures_account, simp add: page_acc_new_def)

lemma write_page_Done:
  assumes "write_page ins acc db = (db', Done n)"
  shows "bag_in db' = bag_in db + page_bag acc" and "n = size (page_bag acc)"
proof -
  obtain n1 d1 n2 d2 n3 d3 n4 d4 where
    steps: "insert_chunked t_updates_update ins (pa_raw acc) db = (d1, Done n1)"
      "insert_chunked t_obligations_update ins (pa_obligations acc) d1 = (d2, Done n2)"
      "insert_chunked t_reserves_update ins (pa_reserves acc) d2 = (d3, Done n3)"
      "insert_chunked t_markets_update ins (pa_markets acc) d3 = (d4, Done n4)"
      and last: "d4 = db'" "n = n1 + n2 + n3 + n4"
    using assms by (auto simp: write_page_def then_count_Done)
  have tables: "mset (t_updates d4) = mset (t_updates db) + mset (pa_raw acc)"
    "mset (t_obligations d4) = mset (t_obligations db) + mset (pa_obligations acc)"
    "mset (t_reserves d4) = mset (t_reserves db) + mset (pa_reserves acc)"
    "mset (t_markets d4) = mset (t_markets db) + mset (pa_markets acc)"
    using updates.insert_chunked_Done [OF steps(1)] obligations.insert_chunked_Done [OF steps(2)]
      reserves.insert_chunked_Done [OF steps(3)] markets.insert_chunked_Done [OF steps(4)]
      chunked_frames(5) [of ins "pa_obligations acc" d1] chunked_frames(6) [of ins "pa_reserves acc" d2]
      chunked_frames(7) [of ins "pa_markets acc" d3] chunked_frames(8) [of ins "pa_raw acc" db]
      chunked_frames(9) [of ins "pa_reserves acc" d2] chunked_frames(10) [of ins "pa_markets acc" d3]
      chunked_frames(11) [of ins "pa_raw acc" db] chunked_frames(12) [of ins "pa_obligations acc" d1]
      chunked_frames(13) [of ins "pa_markets acc" d3] chunked_frames(14) [of ins "pa_raw acc" db]
      chunked_frames(15) [of ins "pa_obligations acc" d1] chunked_frames(16) [of ins "pa_reserves acc" d2]
    by (simp_all add: steps)
  show "bag_in db' = bag_in db + page_bag acc"
    unfolding bag_in_def page_bag_def data_bag_def last(1) [symmetric] tables by simp
  show "n = size (page_bag acc)"
    using updates.insert_chunked_Done [OF steps(1)] obligations.insert_chunked_Done [OF steps(2)]
      reserves.insert_chunked_Done [OF steps(3)] markets.insert_chunked_Done [OF steps(4)] last
    by (simp add: page_bag_def data_bag_def)
qed

lemma fetch_tables:
  "stream_tables (fst (fetch_and_write api de ins client rpc_url disc page db)) = stream_tables db"
  by (auto simp: fetch_and_write_def fst_then_count Let_def split: sum.splits prod.splits outcome.splits)

lemma fetch_dry:
  "fst (fetch_and_write api de ins False rpc_url disc page db) = db"
  by (auto simp: fetch_and_write_def fst_then_count Let_def split: sum.splits prod.splits outcome.splits)

lemma fetch_Done:
  assumes "fetch_and_write api de ins client rpc_url disc page db = (db', Done r)"
  obtains slot accounts where "get_program_accounts api rpc_url disc page = Inr (slot, accounts)"
    and "pr_slot r = slot" and "pr_accounts r = of_nat (length accounts)"
    and "pr_decode_failures r = of_nat (length (filter (decode_fails de) accounts))"
    and "client \<Longrightarrow> bag_in db' = bag_in db + mset (concat (map (snapshot_rows de slot) accounts))"
    and "client \<Longrightarrow> pr_rows_written r = of_nat (length (concat (map (snapshot_rows de slot) accounts)))"
proof -
  from assms obtain slot accounts where got: "get_program_accounts api rpc_url disc page = Inr (slot, accounts)"
    by (auto simp: fetch_and_write_def split: sum.splits)
  define acc where "acc = fold (page_account de slot) accounts page_acc_new"
  have fetch: "fetch_and_write api de ins client rpc_url disc page db =
      then_count (if client then write_page ins acc db else (db, Done 0)) (\<lambda>written db.
        (db, Done \<lparr>pr_slot = slot, pr_accounts = of_nat (length (pa_raw acc)), pr_rows_written = of_nat written,
                   pr_decode_failures = pa_failures acc, pr_by_kind = pa_by_kind acc\<rparr>))"
    unfolding fetch_and_write_def got acc_def Let_def by simp
  obtain n where written: "(if client then write_page ins acc db else (db, Done 0)) = (db', Done n)"
    and r: "r = \<lparr>pr_slot = slot, pr_accounts = of_nat (length (pa_raw acc)), pr_rows_written = of_nat n,
      pr_decode_failures = pa_failures acc, pr_by_kind = pa_by_kind acc\<rparr>"
    using assms unfolding fetch then_count_Done by auto
  have size: "size (page_bag acc) = length (concat (map (snapshot_rows de slot) accounts))"
    unfolding acc_def fold_page_bag by (rule size_mset)
  show thesis
  proof (rule that [OF got])
    show "bag_in db' = bag_in db + mset (concat (map (snapshot_rows de slot) accounts))" if client
      using write_page_Done(1) [of ins acc db db' n] written that by (simp add: acc_def fold_page_bag)
    show "pr_rows_written r = of_nat (length (concat (map (snapshot_rows de slot) accounts)))" if client
      using write_page_Done(2) [of ins acc db db' n] written that size by (simp add: r)
  qed (simp_all add: r acc_def page_raw fold_page_failures)
qed

section \<open>Paging\<close>

text \<open>
  Which accounts the RPC returns for a list of filters, as its documentation says: every filter's
  bytes, decoded, are found at its offset.
\<close>

definition rpc_admits :: "(string \<Rightarrow> bytes option) \<Rightarrow> memcmp list \<Rightarrow> bytes \<Rightarrow> bool" where
  "rpc_admits b64_decode filters data \<longleftrightarrow>
     list_all (\<lambda>f. case b64_decode (mc_bytes f) of
         Some bs \<Rightarrow> slice (mc_offset f) (length bs) data = bs
       | None \<Rightarrow> False) filters"

definition admitting_calls ::
  "(bytes \<Rightarrow> string) \<Rightarrow> (string \<Rightarrow> bytes option) \<Rightarrow> page_request list \<Rightarrow> bytes \<Rightarrow> page_request list" where
  "admitting_calls b64 b64_decode calls data =
     filter (\<lambda>(disc, page). rpc_admits b64_decode (memcmp_filters b64 disc page) data) calls"

lemma filter_upt_eq: "filter (\<lambda>b. b = k) [0..<n] = (if k < n then [k] else [])"
  by (induction n) auto

lemma filter_byte: "filter (\<lambda>b. of_nat b = x) [0..<256] = [unat x]" for x :: u8
proof -
  have "unat x < 256" using unsigned_less [of x] by simp
  moreover have "filter (\<lambda>b. of_nat b = x) [0..<256] = filter (\<lambda>b. b = unat x) [0..<256]"
    by (rule filter_cong) (auto simp: word_unat_eq_iff unat_of_nat take_bit_eq_mod)
  ultimately show ?thesis by (simp only: filter_upt_eq if_True)
qed

lemma slice_byte: "slice n 1 data = [x] \<longleftrightarrow> n < length data \<and> data ! n = x"
  by (cases "n < length data") (auto simp: slice_def take_Suc_conv_app_nth Cons_nth_drop_Suc [symmetric])

lemma admits_disc:
  "(\<And>bs. b64_decode (b64 bs) = Some bs) \<Longrightarrow> length d = 8 \<Longrightarrow>
     rpc_admits b64_decode (memcmp_filters b64 (Some d) None) data \<longleftrightarrow> take 8 data = d"
  by (simp add: rpc_admits_def memcmp_filters_def disc_b64_def slice_eq_takeI)

lemma admits_page:
  "(\<And>bs. b64_decode (b64 bs) = Some bs) \<Longrightarrow> length d = 8 \<Longrightarrow>
     rpc_admits b64_decode (memcmp_filters b64 (Some d) (Some (n, x))) data \<longleftrightarrow>
       take 8 data = d \<and> n < length data \<and> data ! n = x"
  using slice_byte [of n data x]
  by (simp add: rpc_admits_def memcmp_filters_def disc_b64_def slice_eq_takeI)

text \<open>
  C14 The calls of the known scope neither miss nor repeat an account: an obligation long enough to
  have an owner is returned by exactly one of the 256 pages, the one of its owner's first byte,
  a reserve and a lending market by exactly their one call, and any other account by none.
  Base64 is only assumed to decode what it encodes.
\<close>

theorem pages_partition_accounts:
  assumes "\<And>bs. b64_decode (b64 bs) = Some bs"
  shows "map_option (\<lambda>filters. admitting_calls b64 b64_decode (concat (map filter_pages filters)) data)
      (scope_filters ''known'')
    = Some (if take 8 data = OBLIGATION_DISC
            then (if 64 < length data then [(Some OBLIGATION_DISC, Some (64, data ! 64))] else [])
            else if take 8 data = RESERVE_DISC then [(Some RESERVE_DISC, None)]
            else if take 8 data = LENDING_MARKET_DISC then [(Some LENDING_MARKET_DISC, None)]
            else [])
    \<and> (if length data < 96 then True else ob_owner (dec_obligation (drop 8 data)) ! 0 = data ! 64)"
proof -
  have distinct: "OBLIGATION_DISC \<noteq> RESERVE_DISC" "OBLIGATION_DISC \<noteq> LENDING_MARKET_DISC"
    "RESERVE_DISC \<noteq> LENDING_MARKET_DISC"
    by (simp_all add: const_defs)
  have pages: "admitting_calls b64 b64_decode (filter_pages (Some OBLIGATION_DISC, Some OBLIGATION_OWNER_OFFSET)) data
    = (if take 8 data = OBLIGATION_DISC \<and> 64 < length data
       then [(Some OBLIGATION_DISC, Some (64, data ! 64))] else [])"
  proof -
    have "admitting_calls b64 b64_decode (filter_pages (Some OBLIGATION_DISC, Some OBLIGATION_OWNER_OFFSET)) data
      = map (\<lambda>b. (Some OBLIGATION_DISC, Some (64, of_nat b)))
          (filter (\<lambda>b. take 8 data = OBLIGATION_DISC \<and> 64 < length data \<and> data ! 64 = of_nat b) [0..<256])"
      by (simp add: admitting_calls_def filter_pages_def filter_map comp_def admits_page [OF assms]
          OBLIGATION_OWNER_OFFSET_def OBLIGATION_PAGES_def del: upt_rec_numeral)
    also have "\<dots> = (if take 8 data = OBLIGATION_DISC \<and> 64 < length data
        then map (\<lambda>b. (Some OBLIGATION_DISC, Some (64, of_nat b))) (filter (\<lambda>b. of_nat b = data ! 64) [0..<256])
        else [])"
      by (auto simp: eq_commute [of "data ! 64"] filter_empty_conv simp del: upt_rec_numeral)
    finally show ?thesis by (simp only: filter_byte list.map of_nat_unat ucast_id)
  qed
  have "map_option (\<lambda>filters. admitting_calls b64 b64_decode (concat (map filter_pages filters)) data)
      (scope_filters ''known'')
    = Some (admitting_calls b64 b64_decode (filter_pages (Some OBLIGATION_DISC, Some OBLIGATION_OWNER_OFFSET)) data
        @ (if take 8 data = RESERVE_DISC then [(Some RESERVE_DISC, None)] else [])
        @ (if take 8 data = LENDING_MARKET_DISC then [(Some LENDING_MARKET_DISC, None)] else []))"
    by (simp add: scope_filters_def admitting_calls_def filter_pages_def [of "(_, None)"] admits_disc [OF assms])
  then show ?thesis
    using distinct unfolding pages
    by (auto simp: dec_obligation_def nth_slice)
qed

theorem pages_partition_accounts_witness:
  "map_option (\<lambda>filters. admitting_calls (map (\<lambda>b. char_of (unat b))) (\<lambda>s. Some (map (\<lambda>c. of_nat (of_char c)) s))
        (concat (map filter_pages filters)) (OBLIGATION_DISC @ replicate 3336 7))
      (scope_filters ''known'')
    = Some [(Some OBLIGATION_DISC, Some (64, 7))]"
proof -
  have byte: "of_nat (of_char (char_of (unat b))) = b" for b :: u8
  proof -
    have "unat b < 256" using unsigned_less [of b] by simp
    then have "unat b mod 256 = unat b" by simp
    then show ?thesis by (simp only: of_char_of of_nat_unat ucast_id)
  qed
  have "Some (map (\<lambda>c. of_nat (of_char c)) (map (\<lambda>b. char_of (unat b)) bs)) = Some bs" for bs :: bytes
    by (simp add: comp_def byte del: of_char_of)
  from pages_partition_accounts [of "\<lambda>s. Some (map (\<lambda>c. of_nat (of_char c)) s)" "map (\<lambda>b. char_of (unat b))", OF this,
      of "OBLIGATION_DISC @ replicate 3336 7"]
  show ?thesis by (simp add: nth_append)
qed

section \<open>Accounting\<close>

lemma btree_add_keys: "set (map fst (btree_add k n t)) = insert k (set (map fst t))"
  by (induction k n t rule: btree_add.induct) auto

lemma btree_add_sorted: "sorted_wrt (<) (map fst t) \<Longrightarrow> sorted_wrt (<) (map fst (btree_add k n t))"
proof (induction k n t rule: btree_add.induct)
  case (2 k n k' m t)
  then show ?case
    using btree_add_keys [of k n t] by (auto simp del: set_map)
qed simp

lemma btree_add_map_of:
  "sorted_wrt (<) (map fst t) \<Longrightarrow>
     map_of (btree_add k n t) = (map_of t)(k \<mapsto> unwrap_or (map_of t k) 0 + n)"
proof (induction k n t rule: btree_add.induct)
  case (2 k n k' m t)
  have "k < k' \<Longrightarrow> map_of t k = None"
    using "2.prems" by (auto simp: map_of_eq_None_iff dest: less_trans)
  with 2 show ?case by (auto simp: fun_eq_iff unwrap_or_def)
qed (simp add: unwrap_or_def)

lemma btree_add_sum: "sum_list (map snd (btree_add k n t)) = sum_list (map snd t) + n"
  by (induction k n t rule: btree_add.induct) (auto simp: algebra_simps)

definition kind_counts_of :: "string list \<Rightarrow> kind_counts" where
  "kind_counts_of ks = fold (\<lambda>k. btree_add k 1) ks []"

lemma kind_counts_snoc [simp]: "kind_counts_of (ks @ [k]) = btree_add k 1 (kind_counts_of ks)"
  by (simp add: kind_counts_of_def)

lemma kind_counts_Nil [simp]: "kind_counts_of [] = []"
  by (simp add: kind_counts_of_def)

lemma kind_counts_sorted: "sorted_wrt (<) (map fst (kind_counts_of ks))"
  by (induction ks rule: rev_induct) (simp_all add: btree_add_sorted)

lemma kind_counts_map_of:
  "map_of (kind_counts_of ks) k = (if k \<in> set ks then Some (of_nat (count_list ks k)) else None)"
  by (induction ks rule: rev_induct)
    (auto simp: btree_add_map_of kind_counts_sorted unwrap_or_def algebra_simps)

lemma kind_counts_sum: "sum_list (map snd (kind_counts_of ks)) = of_nat (length ks)"
  by (induction ks rule: rev_induct) (simp_all add: btree_add_sum algebra_simps)

definition decoded_or_failed :: "page_acc \<Rightarrow> u64" where
  "decoded_or_failed acc =
     of_nat (length (pa_obligations acc) + length (pa_reserves acc) + length (pa_markets acc)) + pa_failures acc"

lemma decode_account_accounted:
  "decoded_or_failed (decode_account de slot kind a acc) =
     decoded_or_failed acc + (if decodable kind then 1 else 0)"
  by (auto simp: decode_account_def decoded_or_failed_def note_failure_def decodable_def
      split: option.splits sum.splits)

lemma page_account_accounted:
  "decoded_or_failed (page_account de slot a acc) =
     decoded_or_failed acc + (if decodable (account_kind_of de a) then 1 else 0)"
proof -
  have frame: "decoded_or_failed (acc\<lparr>pa_raw := x\<rparr>) = decoded_or_failed acc"
    "decoded_or_failed (acc\<lparr>pa_by_kind := y\<rparr>) = decoded_or_failed acc" for acc x y
    by (simp_all add: decoded_or_failed_def)
  show ?thesis
    by (simp add: page_account_def Let_def frame decode_account_accounted account_kind_of_def)
qed

lemma page_account_by_kind:
  "pa_by_kind (page_account de slot a acc) = btree_add (kind_text (account_kind_of de a)) 1 (pa_by_kind acc)"
  by (simp add: page_account_def Let_def account_kind_of_def)

lemma fold_page_by_kind:
  "pa_by_kind (fold (page_account de slot) accts page_acc_new) =
     kind_counts_of (map (\<lambda>a. kind_text (account_kind_of de a)) accts)"
  by (induction accts rule: rev_induct) (simp_all add: page_account_by_kind page_acc_new_def)

lemma fold_page_accounted:
  "decoded_or_failed (fold (page_account de slot) accts page_acc_new) =
     of_nat (length (filter (\<lambda>a. decodable (account_kind_of de a)) accts))"
  by (induction accts rule: rev_induct)
    (simp_all add: page_account_accounted, simp add: page_acc_new_def decoded_or_failed_def)

text \<open>
  The chunked insert loses and duplicates nothing: the chunks are at most 4096 rows, none
  empty, and read backwards they are the rows; when it returns it reports their number and the
  table gained exactly them, and however it fails the table only gained some of them, each at
  most as often as it was given.
\<close>

lemma insert_chunked_exact:
  "concat (rev (split_chunks rows)) = rows
   \<and> (rows = [] \<or> list_all (\<lambda>c. c \<noteq> [] \<and> length c \<le> 4096) (split_chunks rows))
   \<and> (case insert_chunked t_updates_update ins rows db of
        (db', Done n) \<Rightarrow> n = length rows \<and> mset (t_updates db') = mset (t_updates db) + mset rows
      | (db', _) \<Rightarrow> \<exists>part. t_updates db' = t_updates db @ part \<and> mset part \<subseteq># mset rows)"
proof -
  obtain db' res where ins: "insert_chunked t_updates_update ins rows db = (db', res)" by fastforce
  have "\<exists>part. t_updates db' = t_updates db @ part \<and> mset part \<subseteq># mset rows"
    using updates.insert_chunked_part [of ins rows db] by (simp add: ins)
  then show ?thesis
    using split_chunks_bounded [of rows] updates.insert_chunked_Done [of ins rows db db']
    by (cases res) (auto simp: ins split_chunks_concat const_defs)
qed

text \<open>
  C23 A page accounts for everything it was sent: each account has exactly one raw row in order,
  stored undecoded whatever its decoder says and marked with write version zero; each account
  of a decodable kind is either decoded or counted as a failure; and the counts by kind are in
  key order, exact for every label, and add up to the number of accounts.
\<close>

theorem page_accounting:
  "let acc = fold (page_account de slot) accts page_acc_new;
       labels = map (\<lambda>a. kind_text (account_kind_of de a)) accts
   in map au_data (pa_raw acc) = map rp_data accts \<and> map au_pubkey (pa_raw acc) = map rp_pubkey accts
     \<and> map au_kind (pa_raw acc) = labels
     \<and> map (\<lambda>r. (au_slot r, au_write_version r)) (pa_raw acc) = replicate (length accts) (slot, 0)
     \<and> decoded_or_failed acc = of_nat (length (filter (\<lambda>a. decodable (account_kind_of de a)) accts))
     \<and> sorted_wrt (<) (map fst (pa_by_kind acc))
     \<and> map_of (pa_by_kind acc) = (\<lambda>k. if k \<in> set labels then Some (of_nat (count_list labels k)) else None)
     \<and> sum_list (map snd (pa_by_kind acc)) = of_nat (length accts)"
  unfolding Let_def page_raw fold_page_by_kind fold_page_accounted
  by (auto simp: row_of_account_def raw_row_def account_kind_of_def kind_counts_sorted kind_counts_sum
      kind_counts_map_of const_defs comp_def map_replicate_const)

end
