(* ===== verification/Two_Writers.thy ===== *)
theory Two_Writers
  imports Journal Snapshot_Facts
begin

text \<open>
  Two binaries write the data tables: the indexer from a stream, \<open>src/main.rs\<close>, and the snapshot
  writer from RPC pages, \<open>src/bin/snapshot.rs\<close>. Their decode blocks are written twice. Here they
  are compared: a page stores what the indexer would store, were it delivered the page's accounts
  as updates of write version zero at the page's slot.
\<close>

section \<open>The journal of a page\<close>

text \<open>An account of a page as the update the stream would carry.\<close>

definition streamed :: "rpc_account \<Rightarrow> account_info" where
  "streamed a =
     \<lparr>ai_pubkey = rp_pubkey a, ai_owner = rp_owner a, ai_lamports = rp_lamports a,
      ai_write_version = SNAPSHOT_WRITE_VERSION, ai_data = rp_data a\<rparr>"

definition decoders :: "external \<Rightarrow> decoder_env" where
  "decoders ext = \<lparr>de_digest = x_digest ext, de_cast = x_cast ext, de_spl = x_spl ext\<rparr>"

definition journal_bag :: "journal \<Rightarrow> data_row multiset" where
  "journal_bag j = data_bag (jr_updates j) (jr_obligations j) (jr_reserves j) (jr_markets j)"

lemma journal_bag_db: "journal_bag (journal_of_db db) = bag_in db"
  by (simp add: journal_bag_def journal_of_db_def bag_in_def)

text \<open>The two pieces of code compute the same rows from one account.\<close>

lemma journal_bag_add:
  "journal_bag (journal_add ext (slot, streamed a) j) = journal_bag j + mset (snapshot_rows (decoders ext) slot a)"
proof -
  define kind where "kind = account_kind_from (x_digest ext) (rp_data a)"
  have raw: "row_of_account (decoders ext) slot a = update_row slot kind (streamed a)"
    by (simp add: row_of_account_def raw_row_def update_row_def streamed_def decoders_def kind_def)
  have kind: "account_kind_of (decoders ext) a = kind"
    by (simp add: account_kind_of_def decoders_def kind_def)
  show ?thesis
    unfolding snapshot_rows_def raw kind Let_def
    by (simp add: journal_bag_def data_bag_def journal_add_def decoded_rows_def streamed_def decoders_def Let_def
        flip: kind_def split: option.split sum.split)
qed

lemma journal_bag_fold:
  "journal_bag (fold (journal_add ext) (map (\<lambda>a. (slot, streamed a)) accts) j) =
     journal_bag j + mset (concat (map (snapshot_rows (decoders ext) slot) accts))"
  by (induction accts arbitrary: j) (simp_all add: journal_bag_add)

section \<open>A page whose inserts are acknowledged\<close>

lemma insert_chunks_acked:
  "(\<And>n. ins n = Acked) \<Longrightarrow> snd (insert_chunks upd ins chunks db) = Done ()"
  by (induction chunks arbitrary: db) (simp_all add: and_then_def insert_block_def Let_def)

lemma insert_chunked_acked:
  "(\<And>n. ins n = Acked) \<Longrightarrow> \<exists>db'. insert_chunked upd ins rows db = (db', Done (length rows))"
  using insert_chunks_acked [of ins upd "split_chunks rows" db]
  by (cases "insert_chunks upd ins (split_chunks rows) db") (auto simp: insert_chunked_def)

lemma write_page_acked:
  assumes "\<And>n. ins n = Acked"
  shows "\<exists>db' n. write_page ins acc db = (db', Done n)"
proof -
  note chunked = insert_chunked_acked [where ins = ins, OF assms]
  obtain d1 where "insert_chunked t_updates_update ins (pa_raw acc) db = (d1, Done (length (pa_raw acc)))"
    using chunked by blast
  moreover obtain d2 where
    "insert_chunked t_obligations_update ins (pa_obligations acc) d1 = (d2, Done (length (pa_obligations acc)))"
    using chunked by blast
  moreover obtain d3 where
    "insert_chunked t_reserves_update ins (pa_reserves acc) d2 = (d3, Done (length (pa_reserves acc)))"
    using chunked by blast
  moreover obtain d4 where
    "insert_chunked t_markets_update ins (pa_markets acc) d3 = (d4, Done (length (pa_markets acc)))"
    using chunked by blast
  ultimately show ?thesis by (simp add: write_page_def then_count_def)
qed

lemma fetch_acked:
  assumes "\<And>n. ins n = Acked" and "get_program_accounts api rpc_url disc page = Inr (slot, accts)"
  shows "\<exists>db' res. fetch_and_write api de ins True rpc_url disc page db = (db', Done res)
    \<and> pr_slot res = slot \<and> bag_in db' = bag_in db + mset (concat (map (snapshot_rows de slot) accts))"
proof -
  define acc where "acc = fold (page_account de slot) accts page_acc_new"
  from write_page_acked [where ins = ins, OF assms(1)] obtain db' n where w: "write_page ins acc db = (db', Done n)"
    by blast
  from write_page_Done(1) [OF w] have "bag_in db' = bag_in db + mset (concat (map (snapshot_rows de slot) accts))"
    by (simp add: acc_def fold_page_bag)
  then show ?thesis
    using w by (simp add: fetch_and_write_def assms(2) then_count_def Let_def flip: acc_def)
qed

section \<open>Properties\<close>

text \<open>
  C20 The two writers are one function. Take any page of accounts that the RPC returns, and any session
  of the stream that delivers those accounts in that order, at the page's slot, with write version
  zero. With acknowledged inserts the snapshot writer and the indexer leave the same rows in the
  four data tables, each as often: the raw row of every account and the same decoded row, field by
  field, of every account that decodes.
\<close>

theorem two_writers_agree:
  assumes "\<And>n. x_ins ext n = Acked" and "healthy inp"
    and "get_program_accounts api rpc_url disc page = Inr (slot, accts)"
    and "session_deliveries inp = map (\<lambda>a. (slot, streamed a)) accts"
  shows "\<exists>ix db' res. indexer_main ext True None [inp] db = Waiting ix
    \<and> fetch_and_write api (decoders ext) (x_ins ext) True rpc_url disc page db = (db', Done res)
    \<and> bag_in (ix_db ix) = bag_in db'"
proof -
  from fetch_acked [where ins = "x_ins ext", OF assms(1,3)] obtain db' res where
    fetch: "fetch_and_write api (decoders ext) (x_ins ext) True rpc_url disc page db = (db', Done res)"
      "bag_in db' = bag_in db + mset (concat (map (snapshot_rows (decoders ext) slot) accts))" by blast
  from run_journal [OF assms(1), of "[inp]" "indexer_new True db"] assms(2,4) obtain ix where
    ix: "indexer_main ext True None [inp] db = Waiting ix"
      "journal_of_db (ix_db ix) = fold (journal_add ext) (map (\<lambda>a. (slot, streamed a)) accts) (journal_of_db db)"
    by (auto simp: indexer_main_def indexer_new_def)
  from arg_cong [OF ix(2), of journal_bag] have "bag_in (ix_db ix) = bag_in db'"
    by (simp add: journal_bag_fold journal_bag_db fetch(2))
  with ix(1) fetch(1) show ?thesis by blast
qed

text \<open>A small JSON, and a response with two accounts.\<close>

datatype json = J_Null | J_Num u64 | J_Str string | J_Arr "json list" | J_Obj "(string \<times> json) list"

fun json_get :: "json \<Rightarrow> string \<Rightarrow> json option" where
  "json_get (J_Obj m) k = map_of m k"
| "json_get _ k = None"

definition json_key :: "json \<Rightarrow> string \<Rightarrow> json" where
  "json_key v k = (case json_get v k of None \<Rightarrow> J_Null | Some x \<Rightarrow> x)"

definition text_bytes :: "string \<Rightarrow> bytes" where
  "text_bytes s = map (\<lambda>c. of_nat (of_char c)) s"

definition json_account :: "string \<Rightarrow> string \<Rightarrow> json" where
  "json_account key data = J_Obj [(''pubkey'', J_Str key), (''account'', J_Obj
     [(''owner'', J_Str ''own''), (''lamports'', J_Num 5), (''data'', J_Arr [J_Str data, J_Str ''base64''])])]"

definition sample_api :: "json rpc_api" where
  "sample_api =
     \<lparr>js_parse = (\<lambda>_. Some (J_Obj [(''result'', J_Obj [(''context'', J_Obj [(''slot'', J_Num 437000000)]),
        (''value'', J_Arr [json_account ''a'' ''short'', json_account ''b'' ''long enough''])])])),
      js_get = json_get, js_key = json_key,
      js_nth = (\<lambda>v i. case v of J_Arr xs \<Rightarrow> (if i < length xs then xs ! i else J_Null) | _ \<Rightarrow> J_Null),
      js_u64 = (\<lambda>v. case v of J_Num n \<Rightarrow> Some n | _ \<Rightarrow> None),
      js_str = (\<lambda>v. case v of J_Str s \<Rightarrow> Some s | _ \<Rightarrow> None),
      js_array = (\<lambda>v. case v of J_Arr xs \<Rightarrow> Some xs | _ \<Rightarrow> None),
      ra_post = (\<lambda>_ _. Response 200 ''{}''), ra_b58_decode = Some \<circ> text_bytes,
      ra_b64_encode = (\<lambda>_. ''''), ra_b64_decode = Some \<circ> text_bytes\<rparr>"

definition sample_accounts :: "rpc_account list" where
  "sample_accounts = map (\<lambda>(k, d). \<lparr>rp_pubkey = text_bytes k, rp_owner = text_bytes ''own'', rp_lamports = 5,
     rp_data = text_bytes d\<rparr>) [(''a'', ''short''), (''b'', ''long enough'')]"

theorem two_writers_agree_witness:
  "\<exists>ix db' res. indexer_main seam_ext True None
        [seam_input (map (\<lambda>a. Message None (Account_Update 437000000 (Some (streamed a)))) sample_accounts @ [Stream_Ended])]
        empty_db = Waiting ix
    \<and> fetch_and_write sample_api (decoders seam_ext) (\<lambda>_. Acked) True ''url'' None None empty_db = (db', Done res)
    \<and> bag_in (ix_db ix) = bag_in db'"
proof -
  let ?inp = "seam_input (map (\<lambda>a. Message None (Account_Update 437000000 (Some (streamed a)))) sample_accounts @ [Stream_Ended])"
  have "healthy ?inp"
    by (simp add: healthy_def seam_input_def sample_accounts_def ends_def signal_def)
  moreover have "session_deliveries ?inp = map (\<lambda>a. (437000000, streamed a)) sample_accounts"
    by (simp add: session_deliveries_def seam_input_def sample_accounts_def ends_def delivery_of_def)
  moreover have "get_program_accounts sample_api ''url'' None None = Inr (437000000, sample_accounts)"
    by (simp add: get_program_accounts_def parse_response_def parse_account_def bind_result_def context_of_def
        sample_api_def json_account_def json_key_def sample_accounts_def unwrap_or_def Let_def)
  moreover have "x_ins seam_ext = (\<lambda>_. Acked)" by (simp add: seam_ext_def)
  ultimately show ?thesis
    using two_writers_agree [of seam_ext ?inp sample_api "''url''" None None 437000000 sample_accounts empty_db]
    by simp
qed

end
