(* ===== verification/Instruction_Tags.thy ===== *)
theory Instruction_Tags
  imports Discriminators
begin

text \<open>
  The instruction discriminators of \<open>vendor/klend-interface/src/discriminators.rs\<close>: the
  constants of the \<open>disc!\<close> macro, the \<open>KlendInstruction\<close> enumeration, and
  \<open>identify_instruction\<close>.
\<close>

section \<open>Instruction discriminators\<close>

text \<open>
  The \<open>disc!\<close> macro: a constant is the hash prefix of \<open>global:<name>\<close>, computed when the
  crate is compiled (a panic there is a compile error, the empty list here).
\<close>

definition disc :: "string \<Rightarrow> bytes" where
  "disc ix = (case sha256_first8 (ascii (''global:'' @ ix)) of Some d \<Rightarrow> d | None \<Rightarrow> [])"

definition compute_discriminator :: "(bytes \<Rightarrow> bytes) \<Rightarrow> string \<Rightarrow> bytes" where
  "compute_discriminator digest name = take 8 (digest (ascii (''global:'' @ name)))"

definition REFRESH_RESERVE :: bytes where "REFRESH_RESERVE = disc ''refresh_reserve''"
definition REFRESH_RESERVES_BATCH :: bytes where "REFRESH_RESERVES_BATCH = disc ''refresh_reserves_batch''"
definition REFRESH_OBLIGATION :: bytes where "REFRESH_OBLIGATION = disc ''refresh_obligation''"
definition CALCULATE_CTOKEN_EXCHANGE_RATE :: bytes where "CALCULATE_CTOKEN_EXCHANGE_RATE = disc ''calculate_ctoken_exchange_rate''"
definition DEPOSIT_RESERVE_LIQUIDITY :: bytes where "DEPOSIT_RESERVE_LIQUIDITY = disc ''deposit_reserve_liquidity''"
definition DEPOSIT_OBLIGATION_COLLATERAL_V2 :: bytes where "DEPOSIT_OBLIGATION_COLLATERAL_V2 = disc ''deposit_obligation_collateral_v2''"
definition DEPOSIT_RESERVE_LIQUIDITY_AND_OBLIGATION_COLLATERAL_V2 :: bytes where "DEPOSIT_RESERVE_LIQUIDITY_AND_OBLIGATION_COLLATERAL_V2 = disc ''deposit_reserve_liquidity_and_obligation_collateral_v2''"
definition REDEEM_RESERVE_COLLATERAL :: bytes where "REDEEM_RESERVE_COLLATERAL = disc ''redeem_reserve_collateral''"
definition WITHDRAW_OBLIGATION_COLLATERAL_V2 :: bytes where "WITHDRAW_OBLIGATION_COLLATERAL_V2 = disc ''withdraw_obligation_collateral_v2''"
definition WITHDRAW_OBLIGATION_COLLATERAL_AND_REDEEM_RESERVE_COLLATERAL_V2 :: bytes where "WITHDRAW_OBLIGATION_COLLATERAL_AND_REDEEM_RESERVE_COLLATERAL_V2 = disc ''withdraw_obligation_collateral_and_redeem_reserve_collateral_v2''"
definition BORROW_OBLIGATION_LIQUIDITY_V2 :: bytes where "BORROW_OBLIGATION_LIQUIDITY_V2 = disc ''borrow_obligation_liquidity_v2''"
definition REPAY_OBLIGATION_LIQUIDITY_V2 :: bytes where "REPAY_OBLIGATION_LIQUIDITY_V2 = disc ''repay_obligation_liquidity_v2''"
definition REPAY_AND_WITHDRAW_AND_REDEEM :: bytes where "REPAY_AND_WITHDRAW_AND_REDEEM = disc ''repay_and_withdraw_and_redeem''"
definition DEPOSIT_AND_WITHDRAW :: bytes where "DEPOSIT_AND_WITHDRAW = disc ''deposit_and_withdraw''"
definition LIQUIDATE_OBLIGATION_AND_REDEEM_RESERVE_COLLATERAL_V2 :: bytes where "LIQUIDATE_OBLIGATION_AND_REDEEM_RESERVE_COLLATERAL_V2 = disc ''liquidate_obligation_and_redeem_reserve_collateral_v2''"
definition FLASH_BORROW_RESERVE_LIQUIDITY :: bytes where "FLASH_BORROW_RESERVE_LIQUIDITY = disc ''flash_borrow_reserve_liquidity''"
definition FLASH_REPAY_RESERVE_LIQUIDITY :: bytes where "FLASH_REPAY_RESERVE_LIQUIDITY = disc ''flash_repay_reserve_liquidity''"
definition INIT_OBLIGATION :: bytes where "INIT_OBLIGATION = disc ''init_obligation''"
definition INIT_OBLIGATION_FARMS_FOR_RESERVE :: bytes where "INIT_OBLIGATION_FARMS_FOR_RESERVE = disc ''init_obligation_farms_for_reserve''"
definition REFRESH_OBLIGATION_FARMS_FOR_RESERVE :: bytes where "REFRESH_OBLIGATION_FARMS_FOR_RESERVE = disc ''refresh_obligation_farms_for_reserve''"
definition REQUEST_ELEVATION_GROUP :: bytes where "REQUEST_ELEVATION_GROUP = disc ''request_elevation_group''"
definition SET_OBLIGATION_ORDER :: bytes where "SET_OBLIGATION_ORDER = disc ''set_obligation_order''"
definition SET_BORROW_ORDER :: bytes where "SET_BORROW_ORDER = disc ''set_borrow_order''"
definition SET_BORROW_ORDER_V2 :: bytes where "SET_BORROW_ORDER_V2 = disc ''set_borrow_order_v2''"
definition FILL_BORROW_ORDER :: bytes where "FILL_BORROW_ORDER = disc ''fill_borrow_order''"
definition FILL_BORROW_ORDER_V2 :: bytes where "FILL_BORROW_ORDER_V2 = disc ''fill_borrow_order_v2''"
definition INIT_REFERRER_TOKEN_STATE :: bytes where "INIT_REFERRER_TOKEN_STATE = disc ''init_referrer_token_state''"
definition INIT_USER_METADATA :: bytes where "INIT_USER_METADATA = disc ''init_user_metadata''"
definition WITHDRAW_REFERRER_FEES :: bytes where "WITHDRAW_REFERRER_FEES = disc ''withdraw_referrer_fees''"
definition INIT_REFERRER_STATE_AND_SHORT_URL :: bytes where "INIT_REFERRER_STATE_AND_SHORT_URL = disc ''init_referrer_state_and_short_url''"
definition DELETE_REFERRER_STATE_AND_SHORT_URL :: bytes where "DELETE_REFERRER_STATE_AND_SHORT_URL = disc ''delete_referrer_state_and_short_url''"
definition ENQUEUE_TO_WITHDRAW :: bytes where "ENQUEUE_TO_WITHDRAW = disc ''enqueue_to_withdraw''"
definition WITHDRAW_QUEUED_LIQUIDITY :: bytes where "WITHDRAW_QUEUED_LIQUIDITY = disc ''withdraw_queued_liquidity''"
definition RECOVER_INVALID_TICKET_COLLATERAL :: bytes where "RECOVER_INVALID_TICKET_COLLATERAL = disc ''recover_invalid_ticket_collateral''"
definition CANCEL_WITHDRAW_TICKET :: bytes where "CANCEL_WITHDRAW_TICKET = disc ''cancel_withdraw_ticket''"
definition ROLLOVER_FIXED_TERM_BORROW :: bytes where "ROLLOVER_FIXED_TERM_BORROW = disc ''rollover_fixed_term_borrow''"
definition UPDATE_OBLIGATION_CONFIG :: bytes where "UPDATE_OBLIGATION_CONFIG = disc ''update_obligation_config''"
definition CLONE_RESERVE_CONFIG :: bytes where "CLONE_RESERVE_CONFIG = disc ''clone_reserve_config''"
definition INITIATE_OBLIGATION_OWNERSHIP_TRANSFER :: bytes where "INITIATE_OBLIGATION_OWNERSHIP_TRANSFER = disc ''initiate_obligation_ownership_transfer''"
definition APPROVE_OBLIGATION_OWNERSHIP_TRANSFER :: bytes where "APPROVE_OBLIGATION_OWNERSHIP_TRANSFER = disc ''approve_obligation_ownership_transfer''"
definition ACCEPT_OBLIGATION_OWNERSHIP :: bytes where "ACCEPT_OBLIGATION_OWNERSHIP = disc ''accept_obligation_ownership''"
definition ABORT_OBLIGATION_OWNERSHIP_TRANSFER :: bytes where "ABORT_OBLIGATION_OWNERSHIP_TRANSFER = disc ''abort_obligation_ownership_transfer''"

datatype klend_instruction =
    RefreshReserve
  | RefreshReservesBatch
  | RefreshObligation
  | DepositReserveLiquidity
  | DepositObligationCollateralV2
  | DepositReserveLiquidityAndObligationCollateralV2
  | RedeemReserveCollateral
  | WithdrawObligationCollateralV2
  | WithdrawObligationCollateralAndRedeemReserveCollateralV2
  | BorrowObligationLiquidityV2
  | RepayObligationLiquidityV2
  | RepayAndWithdrawAndRedeem
  | DepositAndWithdraw
  | LiquidateObligationAndRedeemReserveCollateralV2
  | FlashBorrowReserveLiquidity
  | FlashRepayReserveLiquidity
  | InitObligation
  | InitObligationFarmsForReserve
  | RefreshObligationFarmsForReserve
  | RequestElevationGroup
  | SetObligationOrder
  | SetBorrowOrder
  | SetBorrowOrderV2
  | FillBorrowOrder
  | FillBorrowOrderV2
  | InitReferrerTokenState
  | InitUserMetadata
  | WithdrawReferrerFees
  | InitReferrerStateAndShortUrl
  | DeleteReferrerStateAndShortUrl
  | EnqueueToWithdraw
  | WithdrawQueuedLiquidity
  | RecoverInvalidTicketCollateral
  | CancelWithdrawTicket
  | RolloverFixedTermBorrow
  | UpdateObligationConfig
  | CloneReserveConfig
  | InitiateObligationOwnershipTransfer
  | ApproveObligationOwnershipTransfer
  | AcceptObligationOwnership
  | AbortObligationOwnershipTransfer

text \<open>The arms of the \<open>match\<close> in \<open>identify_instruction\<close>, tried from the top.\<close>

definition instruction_arms :: "(bytes \<times> klend_instruction) list" where
  "instruction_arms =
     [(REFRESH_RESERVE, RefreshReserve),
      (REFRESH_RESERVES_BATCH, RefreshReservesBatch),
      (REFRESH_OBLIGATION, RefreshObligation),
      (DEPOSIT_RESERVE_LIQUIDITY, DepositReserveLiquidity),
      (DEPOSIT_OBLIGATION_COLLATERAL_V2, DepositObligationCollateralV2),
      (DEPOSIT_RESERVE_LIQUIDITY_AND_OBLIGATION_COLLATERAL_V2, DepositReserveLiquidityAndObligationCollateralV2),
      (REDEEM_RESERVE_COLLATERAL, RedeemReserveCollateral),
      (WITHDRAW_OBLIGATION_COLLATERAL_V2, WithdrawObligationCollateralV2),
      (WITHDRAW_OBLIGATION_COLLATERAL_AND_REDEEM_RESERVE_COLLATERAL_V2, WithdrawObligationCollateralAndRedeemReserveCollateralV2),
      (BORROW_OBLIGATION_LIQUIDITY_V2, BorrowObligationLiquidityV2),
      (REPAY_OBLIGATION_LIQUIDITY_V2, RepayObligationLiquidityV2),
      (REPAY_AND_WITHDRAW_AND_REDEEM, RepayAndWithdrawAndRedeem),
      (DEPOSIT_AND_WITHDRAW, DepositAndWithdraw),
      (LIQUIDATE_OBLIGATION_AND_REDEEM_RESERVE_COLLATERAL_V2, LiquidateObligationAndRedeemReserveCollateralV2),
      (FLASH_BORROW_RESERVE_LIQUIDITY, FlashBorrowReserveLiquidity),
      (FLASH_REPAY_RESERVE_LIQUIDITY, FlashRepayReserveLiquidity),
      (INIT_OBLIGATION, InitObligation),
      (INIT_OBLIGATION_FARMS_FOR_RESERVE, InitObligationFarmsForReserve),
      (REFRESH_OBLIGATION_FARMS_FOR_RESERVE, RefreshObligationFarmsForReserve),
      (REQUEST_ELEVATION_GROUP, RequestElevationGroup),
      (SET_OBLIGATION_ORDER, SetObligationOrder),
      (SET_BORROW_ORDER, SetBorrowOrder),
      (SET_BORROW_ORDER_V2, SetBorrowOrderV2),
      (FILL_BORROW_ORDER, FillBorrowOrder),
      (FILL_BORROW_ORDER_V2, FillBorrowOrderV2),
      (INIT_REFERRER_TOKEN_STATE, InitReferrerTokenState),
      (INIT_USER_METADATA, InitUserMetadata),
      (WITHDRAW_REFERRER_FEES, WithdrawReferrerFees),
      (INIT_REFERRER_STATE_AND_SHORT_URL, InitReferrerStateAndShortUrl),
      (DELETE_REFERRER_STATE_AND_SHORT_URL, DeleteReferrerStateAndShortUrl),
      (ENQUEUE_TO_WITHDRAW, EnqueueToWithdraw),
      (WITHDRAW_QUEUED_LIQUIDITY, WithdrawQueuedLiquidity),
      (RECOVER_INVALID_TICKET_COLLATERAL, RecoverInvalidTicketCollateral),
      (CANCEL_WITHDRAW_TICKET, CancelWithdrawTicket),
      (ROLLOVER_FIXED_TERM_BORROW, RolloverFixedTermBorrow),
      (UPDATE_OBLIGATION_CONFIG, UpdateObligationConfig),
      (CLONE_RESERVE_CONFIG, CloneReserveConfig),
      (INITIATE_OBLIGATION_OWNERSHIP_TRANSFER, InitiateObligationOwnershipTransfer),
      (APPROVE_OBLIGATION_OWNERSHIP_TRANSFER, ApproveObligationOwnershipTransfer),
      (ACCEPT_OBLIGATION_OWNERSHIP, AcceptObligationOwnership),
      (ABORT_OBLIGATION_OWNERSHIP_TRANSFER, AbortObligationOwnershipTransfer)]"

definition identify_instruction :: "bytes \<Rightarrow> klend_instruction option" where
  "identify_instruction data =
     (if length data < 8 then None else map_of instruction_arms (take 8 data))"

text \<open>\<open>write!(f, "{self:?}")\<close>: the variant's own name.\<close>

fun instruction_text :: "klend_instruction \<Rightarrow> string" where
  "instruction_text RefreshReserve = ''RefreshReserve''"
| "instruction_text RefreshReservesBatch = ''RefreshReservesBatch''"
| "instruction_text RefreshObligation = ''RefreshObligation''"
| "instruction_text DepositReserveLiquidity = ''DepositReserveLiquidity''"
| "instruction_text DepositObligationCollateralV2 = ''DepositObligationCollateralV2''"
| "instruction_text DepositReserveLiquidityAndObligationCollateralV2 = ''DepositReserveLiquidityAndObligationCollateralV2''"
| "instruction_text RedeemReserveCollateral = ''RedeemReserveCollateral''"
| "instruction_text WithdrawObligationCollateralV2 = ''WithdrawObligationCollateralV2''"
| "instruction_text WithdrawObligationCollateralAndRedeemReserveCollateralV2 = ''WithdrawObligationCollateralAndRedeemReserveCollateralV2''"
| "instruction_text BorrowObligationLiquidityV2 = ''BorrowObligationLiquidityV2''"
| "instruction_text RepayObligationLiquidityV2 = ''RepayObligationLiquidityV2''"
| "instruction_text RepayAndWithdrawAndRedeem = ''RepayAndWithdrawAndRedeem''"
| "instruction_text DepositAndWithdraw = ''DepositAndWithdraw''"
| "instruction_text LiquidateObligationAndRedeemReserveCollateralV2 = ''LiquidateObligationAndRedeemReserveCollateralV2''"
| "instruction_text FlashBorrowReserveLiquidity = ''FlashBorrowReserveLiquidity''"
| "instruction_text FlashRepayReserveLiquidity = ''FlashRepayReserveLiquidity''"
| "instruction_text InitObligation = ''InitObligation''"
| "instruction_text InitObligationFarmsForReserve = ''InitObligationFarmsForReserve''"
| "instruction_text RefreshObligationFarmsForReserve = ''RefreshObligationFarmsForReserve''"
| "instruction_text RequestElevationGroup = ''RequestElevationGroup''"
| "instruction_text SetObligationOrder = ''SetObligationOrder''"
| "instruction_text SetBorrowOrder = ''SetBorrowOrder''"
| "instruction_text SetBorrowOrderV2 = ''SetBorrowOrderV2''"
| "instruction_text FillBorrowOrder = ''FillBorrowOrder''"
| "instruction_text FillBorrowOrderV2 = ''FillBorrowOrderV2''"
| "instruction_text InitReferrerTokenState = ''InitReferrerTokenState''"
| "instruction_text InitUserMetadata = ''InitUserMetadata''"
| "instruction_text WithdrawReferrerFees = ''WithdrawReferrerFees''"
| "instruction_text InitReferrerStateAndShortUrl = ''InitReferrerStateAndShortUrl''"
| "instruction_text DeleteReferrerStateAndShortUrl = ''DeleteReferrerStateAndShortUrl''"
| "instruction_text EnqueueToWithdraw = ''EnqueueToWithdraw''"
| "instruction_text WithdrawQueuedLiquidity = ''WithdrawQueuedLiquidity''"
| "instruction_text RecoverInvalidTicketCollateral = ''RecoverInvalidTicketCollateral''"
| "instruction_text CancelWithdrawTicket = ''CancelWithdrawTicket''"
| "instruction_text RolloverFixedTermBorrow = ''RolloverFixedTermBorrow''"
| "instruction_text UpdateObligationConfig = ''UpdateObligationConfig''"
| "instruction_text CloneReserveConfig = ''CloneReserveConfig''"
| "instruction_text InitiateObligationOwnershipTransfer = ''InitiateObligationOwnershipTransfer''"
| "instruction_text ApproveObligationOwnershipTransfer = ''ApproveObligationOwnershipTransfer''"
| "instruction_text AcceptObligationOwnership = ''AcceptObligationOwnership''"
| "instruction_text AbortObligationOwnershipTransfer = ''AbortObligationOwnershipTransfer''"

definition instruction_consts :: "(bytes \<times> string) list" where
  "instruction_consts =
     [(REFRESH_RESERVE, ''refresh_reserve''),
      (REFRESH_RESERVES_BATCH, ''refresh_reserves_batch''),
      (REFRESH_OBLIGATION, ''refresh_obligation''),
      (CALCULATE_CTOKEN_EXCHANGE_RATE, ''calculate_ctoken_exchange_rate''),
      (DEPOSIT_RESERVE_LIQUIDITY, ''deposit_reserve_liquidity''),
      (DEPOSIT_OBLIGATION_COLLATERAL_V2, ''deposit_obligation_collateral_v2''),
      (DEPOSIT_RESERVE_LIQUIDITY_AND_OBLIGATION_COLLATERAL_V2, ''deposit_reserve_liquidity_and_obligation_collateral_v2''),
      (REDEEM_RESERVE_COLLATERAL, ''redeem_reserve_collateral''),
      (WITHDRAW_OBLIGATION_COLLATERAL_V2, ''withdraw_obligation_collateral_v2''),
      (WITHDRAW_OBLIGATION_COLLATERAL_AND_REDEEM_RESERVE_COLLATERAL_V2, ''withdraw_obligation_collateral_and_redeem_reserve_collateral_v2''),
      (BORROW_OBLIGATION_LIQUIDITY_V2, ''borrow_obligation_liquidity_v2''),
      (REPAY_OBLIGATION_LIQUIDITY_V2, ''repay_obligation_liquidity_v2''),
      (REPAY_AND_WITHDRAW_AND_REDEEM, ''repay_and_withdraw_and_redeem''),
      (DEPOSIT_AND_WITHDRAW, ''deposit_and_withdraw''),
      (LIQUIDATE_OBLIGATION_AND_REDEEM_RESERVE_COLLATERAL_V2, ''liquidate_obligation_and_redeem_reserve_collateral_v2''),
      (FLASH_BORROW_RESERVE_LIQUIDITY, ''flash_borrow_reserve_liquidity''),
      (FLASH_REPAY_RESERVE_LIQUIDITY, ''flash_repay_reserve_liquidity''),
      (INIT_OBLIGATION, ''init_obligation''),
      (INIT_OBLIGATION_FARMS_FOR_RESERVE, ''init_obligation_farms_for_reserve''),
      (REFRESH_OBLIGATION_FARMS_FOR_RESERVE, ''refresh_obligation_farms_for_reserve''),
      (REQUEST_ELEVATION_GROUP, ''request_elevation_group''),
      (SET_OBLIGATION_ORDER, ''set_obligation_order''),
      (SET_BORROW_ORDER, ''set_borrow_order''),
      (SET_BORROW_ORDER_V2, ''set_borrow_order_v2''),
      (FILL_BORROW_ORDER, ''fill_borrow_order''),
      (FILL_BORROW_ORDER_V2, ''fill_borrow_order_v2''),
      (INIT_REFERRER_TOKEN_STATE, ''init_referrer_token_state''),
      (INIT_USER_METADATA, ''init_user_metadata''),
      (WITHDRAW_REFERRER_FEES, ''withdraw_referrer_fees''),
      (INIT_REFERRER_STATE_AND_SHORT_URL, ''init_referrer_state_and_short_url''),
      (DELETE_REFERRER_STATE_AND_SHORT_URL, ''delete_referrer_state_and_short_url''),
      (ENQUEUE_TO_WITHDRAW, ''enqueue_to_withdraw''),
      (WITHDRAW_QUEUED_LIQUIDITY, ''withdraw_queued_liquidity''),
      (RECOVER_INVALID_TICKET_COLLATERAL, ''recover_invalid_ticket_collateral''),
      (CANCEL_WITHDRAW_TICKET, ''cancel_withdraw_ticket''),
      (ROLLOVER_FIXED_TERM_BORROW, ''rollover_fixed_term_borrow''),
      (UPDATE_OBLIGATION_CONFIG, ''update_obligation_config''),
      (CLONE_RESERVE_CONFIG, ''clone_reserve_config''),
      (INITIATE_OBLIGATION_OWNERSHIP_TRANSFER, ''initiate_obligation_ownership_transfer''),
      (APPROVE_OBLIGATION_OWNERSHIP_TRANSFER, ''approve_obligation_ownership_transfer''),
      (ACCEPT_OBLIGATION_OWNERSHIP, ''accept_obligation_ownership''),
      (ABORT_OBLIGATION_OWNERSHIP_TRANSFER, ''abort_obligation_ownership_transfer'')]"

lemmas instruction_const_defs =
  REFRESH_RESERVE_def REFRESH_RESERVES_BATCH_def REFRESH_OBLIGATION_def
  CALCULATE_CTOKEN_EXCHANGE_RATE_def DEPOSIT_RESERVE_LIQUIDITY_def
  DEPOSIT_OBLIGATION_COLLATERAL_V2_def DEPOSIT_RESERVE_LIQUIDITY_AND_OBLIGATION_COLLATERAL_V2_def
  REDEEM_RESERVE_COLLATERAL_def WITHDRAW_OBLIGATION_COLLATERAL_V2_def
  WITHDRAW_OBLIGATION_COLLATERAL_AND_REDEEM_RESERVE_COLLATERAL_V2_def
  BORROW_OBLIGATION_LIQUIDITY_V2_def REPAY_OBLIGATION_LIQUIDITY_V2_def
  REPAY_AND_WITHDRAW_AND_REDEEM_def DEPOSIT_AND_WITHDRAW_def
  LIQUIDATE_OBLIGATION_AND_REDEEM_RESERVE_COLLATERAL_V2_def FLASH_BORROW_RESERVE_LIQUIDITY_def
  FLASH_REPAY_RESERVE_LIQUIDITY_def INIT_OBLIGATION_def INIT_OBLIGATION_FARMS_FOR_RESERVE_def
  REFRESH_OBLIGATION_FARMS_FOR_RESERVE_def REQUEST_ELEVATION_GROUP_def SET_OBLIGATION_ORDER_def
  SET_BORROW_ORDER_def SET_BORROW_ORDER_V2_def FILL_BORROW_ORDER_def FILL_BORROW_ORDER_V2_def
  INIT_REFERRER_TOKEN_STATE_def INIT_USER_METADATA_def WITHDRAW_REFERRER_FEES_def
  INIT_REFERRER_STATE_AND_SHORT_URL_def DELETE_REFERRER_STATE_AND_SHORT_URL_def
  ENQUEUE_TO_WITHDRAW_def WITHDRAW_QUEUED_LIQUIDITY_def RECOVER_INVALID_TICKET_COLLATERAL_def
  CANCEL_WITHDRAW_TICKET_def ROLLOVER_FIXED_TERM_BORROW_def UPDATE_OBLIGATION_CONFIG_def
  CLONE_RESERVE_CONFIG_def INITIATE_OBLIGATION_OWNERSHIP_TRANSFER_def
  APPROVE_OBLIGATION_OWNERSHIP_TRANSFER_def ACCEPT_OBLIGATION_OWNERSHIP_def
  ABORT_OBLIGATION_OWNERSHIP_TRANSFER_def

section \<open>Names\<close>

definition is_upper :: "char \<Rightarrow> bool" where
  "is_upper c \<longleftrightarrow> (65 :: nat) \<le> of_char c \<and> of_char c \<le> (90 :: nat)"

definition lower :: "char \<Rightarrow> char" where
  "lower c =
     (if is_upper c then case c of Char b0 b1 b2 b3 b4 b5 b6 b7 \<Rightarrow> Char b0 b1 b2 b3 b4 True b6 b7 else c)"

fun snake_rest :: "string \<Rightarrow> string" where
  "snake_rest [] = []"
| "snake_rest (c # s) = (if is_upper c then CHR ''_'' # lower c # snake_rest s else c # snake_rest s)"

text \<open>The naming convention of the hashed instruction names.\<close>

fun snake_case :: "string \<Rightarrow> string" where
  "snake_case [] = []"
| "snake_case (c # s) = lower c # snake_rest s"

lemma disc_sha256: "length name \<le> 112 \<Longrightarrow> disc name = take 8 (sha256 (ascii (''global:'' @ name)))"
  using sha256_first8_short [of "ascii (''global:'' @ name)"] by (simp add: disc_def ascii_def)

lemma identify_Some:
  "identify_instruction data = Some k \<Longrightarrow> 8 \<le> length data \<and> (take 8 data, k) \<in> set instruction_arms"
  by (auto simp: identify_instruction_def split: if_splits dest: map_of_SomeD)

lemma identify_None_iff:
  "identify_instruction data = None \<longleftrightarrow> length data < 8 \<or> take 8 data \<notin> fst ` set instruction_arms"
  by (auto simp: identify_instruction_def map_of_eq_None_iff)

section \<open>Properties\<close>

text \<open>
  C33 The discriminator table is the one it says it is: every constant, the 42 of the macro,
  is what \<open>compute_discriminator\<close> gives for its name with SHA-256 as the hash, and every arm
  of \<open>identify_instruction\<close> compares with the hash of the snake-case name of the variant it
  returns, with exactly one arm per variant.
\<close>

theorem instruction_table:
  "map fst instruction_consts = map (\<lambda>c. compute_discriminator sha256 (snd c)) instruction_consts
   \<and> map fst instruction_arms = map (\<lambda>a. disc (snake_case (instruction_text (snd a)))) instruction_arms
   \<and> distinct (map snd instruction_arms) \<and> k \<in> set (map snd instruction_arms)"
proof -
  have "map fst instruction_consts = map (\<lambda>c. disc (snd c)) instruction_consts"
    by (simp add: instruction_consts_def instruction_const_defs)
  moreover have "list_all (\<lambda>c. length (snd c) \<le> 112) instruction_consts"
    by (simp add: instruction_consts_def)
  then have "map (\<lambda>c. disc (snd c)) instruction_consts
      = map (\<lambda>c. compute_discriminator sha256 (snd c)) instruction_consts"
    by (auto simp: list_all_iff disc_sha256 compute_discriminator_def)
  moreover have "map fst instruction_arms = map (\<lambda>a. disc (snake_case (instruction_text (snd a)))) instruction_arms"
    by (simp add: instruction_arms_def instruction_const_defs is_upper_def lower_def)
  moreover have "distinct (map snd instruction_arms)"
    by (simp add: instruction_arms_def)
  moreover have "k \<in> set (map snd instruction_arms)"
    by (cases k) (simp_all add: instruction_arms_def)
  ultimately show ?thesis by simp
qed

text \<open>
  \<open>identify_instruction\<close> is sound and complete for the table: what it names has that
  variant's hash as its first eight bytes, and it gives up exactly on data shorter than
  eight bytes or with an unlisted tag. It looks at nothing past byte eight.
\<close>

lemma identify_instruction_exact:
  "(case identify_instruction data of
      Some k \<Rightarrow> 8 \<le> length data \<and> (take 8 data, k) \<in> set instruction_arms
    | None \<Rightarrow> length data < 8 \<or> take 8 data \<notin> fst ` set instruction_arms)
   \<and> (8 \<le> length data \<longrightarrow> identify_instruction (take 8 data @ rest) = identify_instruction data)"
  using identify_Some [of data] identify_None_iff [of data]
  by (auto simp: identify_instruction_def split: option.splits)

lemma identify_instruction_exact_witness:
  "identify_instruction (take 8 [1, 2, 3, 4, 5, 6, 7, 8, 9] @ [0]) = identify_instruction [1, 2, 3, 4, 5, 6, 7, 8, 9]"
  using identify_instruction_exact [of "[1, 2, 3, 4, 5, 6, 7, 8, 9]" "[0]"] by simp

end
