(* ===== verification/Coldquery.thy ===== *)
theory Coldquery
  imports Coldpath Resume "HOL-Library.Multiset"
begin

text \<open>
  The query tool of \<open>src/bin/coldquery.rs\<close>: what its stored queries compute over the cold copy,
  the \<open>base58\<close> function, and the command dispatch of \<open>main\<close>. The stored queries are given both
  as the text the program sends and as the function the text denotes. DataFusion (registering a
  directory, planning, executing) and base58 are parameters.
\<close>

section \<open>The stored queries\<close>

text \<open>A text literal that starts with a line break before each of its lines.\<close>

definition text_lines :: "string list \<Rightarrow> string" where
  "text_lines ls = concat (map (\<lambda>l. CHR 0x0A # l) ls)"

definition GAPS_SQL :: string where
  "GAPS_SQL =
     text_lines
       [''    WITH observed AS ('',
        ''        SELECT DISTINCT slot FROM account_updates'',
        ''    ),'',
        ''    stepped AS ('',
        ''        SELECT slot, lag(slot) OVER (ORDER BY slot) AS prev'',
        ''        FROM observed'',
        ''    )'',
        ''    SELECT'',
        ''        prev              AS start_slot,'',
        ''        slot              AS end_slot,'',
        ''        slot - prev - 1   AS slots_missed'',
        ''    FROM stepped'',
        ''    WHERE prev IS NOT NULL AND slot - prev - 1 > {threshold}'',
        ''    ORDER BY slots_missed DESC'',
        '''']"

definition ACTIVITY_SQL :: string where
  "ACTIVITY_SQL =
     text_lines
       [''    SELECT'',
        ''        slot_bucket,'',
        ''        count(*)                  AS updates,'',
        ''        count(DISTINCT pubkey)    AS accounts,'',
        ''        sum(data_len)             AS payload_bytes,'',
        ''        min(slot)                 AS first_slot,'',
        ''        max(slot)                 AS last_slot,'',
        ''        max(slot) - min(slot)     AS slot_span'',
        ''    FROM account_updates'',
        ''    GROUP BY slot_bucket'',
        ''    ORDER BY slot_bucket'',
        '''']"

definition HOT_ACCOUNTS_SQL :: string where
  "HOT_ACCOUNTS_SQL =
     text_lines
       [''    SELECT'',
        ''        base58(pubkey)                       AS pubkey,'',
        ''        -- `max`, not `any_value` (absent in DataFusion 54). `kind` is derived'',
        ''        -- from the account's Anchor discriminator, so it is constant per pubkey'',
        ''        -- and any aggregate over the group returns the same label.'',
        ''        max(kind)                            AS kind,'',
        ''        count(*)                             AS updates,'',
        ''        count(DISTINCT slot)                 AS slots_touched,'',
        ''        max(slot)                            AS last_seen'',
        ''    FROM account_updates'',
        ''    GROUP BY pubkey'',
        ''    ORDER BY updates DESC'',
        ''    LIMIT 20'',
        '''']"

definition gaps_sql :: string where
  "gaps_sql = str_replace ''{threshold}'' (decimal (unat RESUME_TOLERANCE_SLOTS)) GAPS_SQL"

section \<open>What they compute\<close>

text \<open>\<open>observed\<close>: the distinct slots; \<open>stepped\<close>: each with its predecessor, by \<open>lag\<close>.\<close>

definition observed :: "u64 list \<Rightarrow> u64 list" where
  "observed slots = sort (remdups slots)"

definition stepped :: "u64 list \<Rightarrow> (u64 option \<times> u64) list" where
  "stepped slots = (let xs = observed slots in zip (None # map Some xs) xs)"

text \<open>One row of the answer: \<open>start_slot\<close>, \<open>end_slot\<close>, \<open>slots_missed\<close>.\<close>

type_synonym gap_answer = "u64 \<times> u64 \<times> u64"

fun gap_candidate :: "u64 \<Rightarrow> u64 option \<times> u64 \<Rightarrow> gap_answer list" where
  "gap_candidate threshold (None, slot) = []"
| "gap_candidate threshold (Some prev, slot) =
     (if threshold < slot - prev - 1 then [(prev, slot, slot - prev - 1)] else [])"

definition gaps_query :: "u64 \<Rightarrow> u64 list \<Rightarrow> gap_answer list" where
  "gaps_query threshold slots =
     sort_key (\<lambda>(s, e, missed). 2 ^ 64 - unat missed) (concat (map (gap_candidate threshold) (stepped slots)))"

record activity_row =
  ac_bucket :: string
  ac_updates :: nat
  ac_accounts :: nat
  ac_payload_bytes :: nat
  ac_first_slot :: nat
  ac_last_slot :: nat
  ac_slot_span :: nat

text \<open>The columns of \<open>account_updates\<close> the queries read: slot, key, payload length.\<close>

type_synonym query_row = "u64 \<times> bytes \<times> u32"

definition slot_bucket :: "u64 \<Rightarrow> string" where
  "slot_bucket slot = zero_pad 12 (decimal (unat (partition_start slot)))"

definition activity_of :: "string \<Rightarrow> query_row list \<Rightarrow> activity_row" where
  "activity_of bucket rows =
     (let slots = map (\<lambda>(slot, key, len). unat slot) rows in
      \<lparr>ac_bucket = bucket,
       ac_updates = length rows,
       ac_accounts = length (remdups (map (\<lambda>(slot, key, len). key) rows)),
       ac_payload_bytes = sum_list (map (\<lambda>(slot, key, len). unat len) rows),
       ac_first_slot = Min (set slots),
       ac_last_slot = Max (set slots),
       ac_slot_span = Max (set slots) - Min (set slots)\<rparr>)"

definition activity_query :: "query_row list \<Rightarrow> activity_row list" where
  "activity_query rows =
     map (\<lambda>bucket. activity_of bucket (filter (\<lambda>(slot, key, len). slot_bucket slot = bucket) rows))
       (sort (remdups (map (\<lambda>(slot, key, len). slot_bucket slot) rows)))"

record hot_account =
  ha_pubkey :: string
  ha_kind :: string
  ha_updates :: nat
  ha_slots_touched :: nat
  ha_last_seen :: nat

text \<open>The columns this statement reads: slot, key, kind.\<close>

type_synonym hot_row = "u64 \<times> bytes \<times> string"

definition hot_account_of :: "(bytes \<Rightarrow> string) \<Rightarrow> bytes \<Rightarrow> hot_row list \<Rightarrow> hot_account" where
  "hot_account_of b58 key rows =
     \<lparr>ha_pubkey = b58 key,
      ha_kind = Max (set (map (\<lambda>(slot, key, kind). kind) rows)),
      ha_updates = length rows,
      ha_slots_touched = length (remdups (map (\<lambda>(slot, key, kind). slot) rows)),
      ha_last_seen = Max (set (map (\<lambda>(slot, key, kind). unat slot) rows))\<rparr>"

definition rows_of_key :: "hot_row list \<Rightarrow> bytes \<Rightarrow> hot_row list" where
  "rows_of_key rows key = filter (\<lambda>(slot, key', kind). key' = key) rows"

text \<open>
  Descending by updates, the first twenty. The order of the groups, and so of ties, is the
  engine's: \<open>groups\<close> lists them in it.
\<close>

definition hot_accounts_query ::
  "(bytes list \<Rightarrow> bytes list) \<Rightarrow> (bytes \<Rightarrow> string) \<Rightarrow> hot_row list \<Rightarrow> hot_account list" where
  "hot_accounts_query groups b58 rows =
     (let keys = groups (remdups (map (\<lambda>(slot, key, kind). key) rows));
          ranked = sort_key (\<lambda>key. length rows - length (rows_of_key rows key)) keys
      in map (\<lambda>key. hot_account_of b58 key (rows_of_key rows key)) (take 20 ranked))"

section \<open>\<open>base58\<close>\<close>

text \<open>Null stays null; every other key is encoded.\<close>

definition base58_udf :: "(bytes \<Rightarrow> string) \<Rightarrow> bytes option list \<Rightarrow> string option list" where
  "base58_udf b58 keys = map (map_option b58) keys"

section \<open>\<open>main\<close>\<close>

datatype query_error =
    Usage
  | Register_Failed string \<comment> \<open>path\<close>
  | Missing_Statement
  | Unknown_Command string
  | Plan_Failed string
  | Execute_Failed string

definition table_path :: "string \<Rightarrow> string \<Rightarrow> string" where
  "table_path dir tbl = trim_end_matches (CHR ''/'') dir @ ''/'' @ tbl"

text \<open>
  \<open>register path\<close> is the error of registering the tree at that path, if any. The tables
  registered are returned with the statement that is run.
\<close>

fun register_tables ::
  "(string \<Rightarrow> string option) \<Rightarrow> string \<Rightarrow> (string \<times> bool) list \<Rightarrow> query_error + (string \<times> string) list" where
  "register_tables register dir [] = Inr []"
| "register_tables register dir ((tbl, required) # tbls) =
     (let path = table_path dir tbl in
      case register path of
        None \<Rightarrow> (case register_tables register dir tbls of Inl e \<Rightarrow> Inl e | Inr ts \<Rightarrow> Inr ((tbl, path) # ts))
      | Some e \<Rightarrow> if required then Inl (Register_Failed path) else register_tables register dir tbls)"

definition command_sql :: "string list \<Rightarrow> query_error + string" where
  "command_sql args =
     (let command = args ! 0 in
      if command = ''gaps'' then Inr gaps_sql
      else if command = ''activity'' then Inr ACTIVITY_SQL
      else if command = ''hot-accounts'' then Inr HOT_ACCOUNTS_SQL
      else if command = ''sql'' then (if 1 < length args then Inr (args ! 1) else Inl Missing_Statement)
      else Inl (Unknown_Command command))"

definition coldquery_main ::
  "string option \<Rightarrow> string list \<Rightarrow> (string \<Rightarrow> string option) \<Rightarrow> (string \<Rightarrow> string option) \<Rightarrow> (string \<Rightarrow> string option)
     \<Rightarrow> query_error + (string \<times> string) list \<times> string" where
  "coldquery_main dir_env args register plan execute =
     (let dir = (case dir_env of Some d \<Rightarrow> d | None \<Rightarrow> ''./parquet'') in
      if args = [] then Inl Usage
      else case register_tables register dir [(''account_updates'', True), (''obligation_snapshots'', False)] of
        Inl e \<Rightarrow> Inl e
      | Inr tables \<Rightarrow>
          (case command_sql args of
             Inl e \<Rightarrow> Inl e
           | Inr sql \<Rightarrow>
               (case plan sql of
                  Some e \<Rightarrow> Inl (Plan_Failed e)
                | None \<Rightarrow>
                    (case execute sql of
                       Some e \<Rightarrow> Inl (Execute_Failed e)
                     | None \<Rightarrow> Inr (tables, sql)))))"

section \<open>Consecutive observed slots\<close>

lemma observed_set [simp]: "set (observed slots) = set slots"
  by (simp add: observed_def)

lemma observed_strict: "sorted_wrt (<) (observed slots)"
  by (simp add: observed_def strict_sorted_iff)

lemma stepped_iff:
  "sorted_wrt (<) xs \<Longrightarrow>
     (Some a, b) \<in> set (zip (None # map Some xs) xs) \<longleftrightarrow>
       a \<in> set xs \<and> b \<in> set xs \<and> a < b \<and> (\<forall>c\<in>set xs. c \<le> a \<or> b \<le> c)"
  for a b :: "'a::linorder"
proof -
  have pairs: "sorted_wrt (<) xs \<Longrightarrow> (Some a, b) \<in> set (zip (map Some xs) (tl xs)) \<longleftrightarrow>
       a \<in> set xs \<and> b \<in> set xs \<and> a < b \<and> (\<forall>c\<in>set xs. c \<le> a \<or> b \<le> c)" for xs
  proof (induction xs)
    case Nil
    then show ?case by simp
  next
    case (Cons x xs)
    show ?case
    proof (cases xs)
      case (Cons y ys)
      have y: "x < y" "\<forall>z\<in>set ys. y < z" "\<forall>z\<in>set ys. x < z" and "sorted_wrt (<) xs"
        using Cons.prems Cons by auto
      with Cons.IH Cons show ?thesis
        by (auto dest: leD less_imp_le)
    qed auto
  qed
  have "zip (None # map Some xs) xs = (case xs of [] \<Rightarrow> [] | y # ys \<Rightarrow> (None, y) # zip (map Some xs) (tl xs))" for xs :: "'a list"
    by (cases xs) simp_all
  then show "sorted_wrt (<) xs \<Longrightarrow> ?thesis"
    using pairs [of xs] by (cases xs) auto
qed

lemma gap_candidate_iff:
  "(s, e, m) \<in> set (gap_candidate threshold p) \<longleftrightarrow>
     p = (Some s, e) \<and> threshold < e - s - 1 \<and> m = e - s - 1"
  by (cases "(threshold, p)" rule: gap_candidate.cases) auto

lemma missed_between:
  "s < e \<Longrightarrow> unat (e - s - 1) = unat e - unat s - 1" for s e :: u64
proof -
  assume "s < e"
  then have lt: "unat s < unat e" by (simp add: word_less_nat_alt)
  then have "unat (e - s) = unat e - unat s" by (intro unat_diff_u64) (simp add: word_le_nat_alt)
  moreover from this lt have "(1 :: u64) \<le> e - s" by (simp add: word_le_nat_alt)
  ultimately show ?thesis using unat_diff_u64 [of 1 "e - s"] by simp
qed

lemma gaps_query_iff:
  "(s, e, m) \<in> set (gaps_query threshold slots) \<longleftrightarrow>
     s \<in> set slots \<and> e \<in> set slots \<and> s < e \<and> (\<forall>c\<in>set slots. c \<le> s \<or> e \<le> c)
     \<and> unat threshold + 1 < unat e - unat s \<and> m = e - s - 1"
proof -
  have "(s, e, m) \<in> set (gaps_query threshold slots) \<longleftrightarrow>
      (Some s, e) \<in> set (stepped slots) \<and> threshold < e - s - 1 \<and> m = e - s - 1"
    by (auto simp: gaps_query_def gap_candidate_iff)
  also have "(Some s, e) \<in> set (stepped slots) \<longleftrightarrow>
      s \<in> set slots \<and> e \<in> set slots \<and> s < e \<and> (\<forall>c\<in>set slots. c \<le> s \<or> e \<le> c)"
    using stepped_iff [OF observed_strict [of slots]] by (simp add: stepped_def Let_def)
  finally show ?thesis
    using missed_between [of s e] by (auto simp: word_less_nat_alt)
qed

text \<open>
  However the engine orders groups and ties, at most twenty distinct keys are ranked, none has
  fewer updates than one left out, and the ranking is by descending updates.
\<close>

lemma hot_accounts_ranked:
  assumes "\<And>ks. mset (groups ks) = mset ks"
  obtains top where "hot_accounts_query groups b58 rows = map (\<lambda>key. hot_account_of b58 key (rows_of_key rows key)) top"
    and "distinct top" and "length top \<le> 20"
    and "sorted_wrt (\<lambda>a b. length (rows_of_key rows b) \<le> length (rows_of_key rows a)) top"
    and "\<And>slot key kind. (slot, key, kind) \<in> set rows \<Longrightarrow> key \<notin> set top \<Longrightarrow>
       length top = 20 \<and> (\<forall>k\<in>set top. length (rows_of_key rows key) \<le> length (rows_of_key rows k))"
proof -
  define n where "n key = length (rows_of_key rows key)" for key
  have bound: "n key \<le> length rows" for key
    by (simp add: n_def rows_of_key_def)
  define keys where "keys = remdups (map (\<lambda>(slot, key, kind). key) rows)"
  define ranked where "ranked = sort_key (\<lambda>key. length rows - n key) (groups keys)"
  have mset: "mset ranked = mset keys" unfolding ranked_def mset_sort by (rule assms)
  then have distinct: "distinct ranked"
    by (metis keys_def distinct_remdups mset_eq_imp_distinct_iff)
  have keys: "set ranked = (\<lambda>(slot, key, kind). key) ` set rows"
    using mset_eq_setD [OF mset] by (simp add: keys_def)
  have "sorted (map (\<lambda>key. length rows - n key) ranked)"
    unfolding ranked_def by (rule sorted_sort_key)
  then have desc: "sorted_wrt (\<lambda>a b. n b \<le> n a) ranked"
    unfolding sorted_map by (rule sorted_wrt_mono_rel [rotated]) (use bound in \<open>simp add: diff_le_mono2 le_diff_iff'\<close>)
  let ?top = "take 20 ranked"
  show thesis
  proof (rule that [of ?top])
    show "hot_accounts_query groups b58 rows = map (\<lambda>key. hot_account_of b58 key (rows_of_key rows key)) ?top"
      by (simp add: hot_accounts_query_def Let_def ranked_def keys_def n_def)
    show "distinct ?top" "length ?top \<le> 20" using distinct by simp_all
    show "sorted_wrt (\<lambda>a b. length (rows_of_key rows b) \<le> length (rows_of_key rows a)) ?top"
      using desc by (simp add: sorted_wrt_take flip: n_def)
    fix slot key kind
    assume "(slot, key, kind) \<in> set rows" "key \<notin> set ?top"
    then have "key \<in> set (drop 20 ranked)"
      using keys set_append [of ?top "drop 20 ranked"] by force
    moreover from this have "20 < length ranked" by (cases "20 < length ranked") auto
    moreover have "sorted_wrt (\<lambda>a b. n b \<le> n a) (?top @ drop 20 ranked)" using desc by simp
    ultimately show "length ?top = 20 \<and> (\<forall>k\<in>set ?top. length (rows_of_key rows key) \<le> length (rows_of_key rows k))"
      unfolding sorted_wrt_append by (simp flip: n_def)
  qed
qed

section \<open>Properties\<close>

text \<open>
  C16 The gap audit lists exactly the consecutive observed slots with more than the threshold of
  slots missing between them, each with that number of missing slots, largest first; no
  subtraction underflows.
\<close>

theorem gaps_query_exact:
  "((s, e, m) \<in> set (gaps_query threshold slots) \<longleftrightarrow>
      s \<in> set slots \<and> e \<in> set slots \<and> s < e \<and> slots_between s e \<inter> unat ` set slots = {}
      \<and> unat threshold < card (slots_between s e) \<and> unat m = card (slots_between s e))
   \<and> sorted (map (\<lambda>(s, e, m). 2 ^ 64 - unat m) (gaps_query threshold slots))"
proof -
  have gap: "slots_between s e \<inter> unat ` set slots = {} \<longleftrightarrow> (\<forall>c\<in>set slots. c \<le> s \<or> e \<le> c)"
    by (auto simp: slots_between_def word_le_nat_alt disjoint_iff not_less) (meson imageI leI)
  have "s < e \<Longrightarrow> m = e - s - 1 \<longleftrightarrow> unat m = card (slots_between s e)"
    using missed_between [of s e] by (auto simp: slots_between_def word_unat_eq_iff)
  then have "(s, e, m) \<in> set (gaps_query threshold slots) \<longleftrightarrow>
      s \<in> set slots \<and> e \<in> set slots \<and> s < e \<and> slots_between s e \<inter> unat ` set slots = {}
      \<and> unat threshold < card (slots_between s e) \<and> unat m = card (slots_between s e)"
    unfolding gaps_query_iff gap by (auto simp: slots_between_def)
  moreover have "sorted (map (\<lambda>(s, e, m). 2 ^ 64 - unat m) (gaps_query threshold slots))"
    unfolding gaps_query_def by (rule sorted_sort_key)
  ultimately show ?thesis by blast
qed

text \<open>
  C35 The audit and the live detector do not share one definition of a hole: for two consecutive
  slots the live classifier reports a gap and the audit, run with the same constant, does not,
  exactly when they are 601 apart; at every other distance they agree.
\<close>

theorem audit_disagrees_at_601:
  "((classify_resume (Some s) e = Gap s e (e - s - 1)) \<noteq>
      ((s, e, e - s - 1) \<in> set (gaps_query RESUME_TOLERANCE_SLOTS [s, e])))
   \<longleftrightarrow> unat e = unat s + 601"
proof -
  have "unat RESUME_TOLERANCE_SLOTS = 600" by (simp add: const_defs)
  then show ?thesis
    by (auto simp: gaps_query_iff classify_resume_Gap_iff word_less_nat_alt)
qed

text \<open>
  The tool fails exactly where the source says: without a command; when \<open>account_updates\<close>
  cannot be registered, but not when \<open>obligation_snapshots\<close> cannot; on \<open>sql\<close> without a
  statement and on an unknown command; when planning or executing fails. Otherwise it runs one
  statement, over tables that all registered.
\<close>

lemma coldquery_main_branches:
  "(let dir = (case dir_env of Some d \<Rightarrow> d | None \<Rightarrow> ''./parquet'');
        updates = table_path dir ''account_updates'';
        snapshots = table_path dir ''obligation_snapshots''
    in coldquery_main dir_env args register plan execute =
      (if args = [] then Inl Usage
       else if register updates \<noteq> None then Inl (Register_Failed updates)
       else case command_sql args of
         Inl e \<Rightarrow> Inl e
       | Inr sql \<Rightarrow>
           if plan sql \<noteq> None then Inl (Plan_Failed (the (plan sql)))
           else if execute sql \<noteq> None then Inl (Execute_Failed (the (execute sql)))
           else Inr ((''account_updates'', updates)
                      # (if register snapshots = None then [(''obligation_snapshots'', snapshots)] else []), sql)))
   \<and> (case command_sql args of
        Inl Missing_Statement \<Rightarrow> args ! 0 = ''sql'' \<and> length args \<le> 1
      | Inl e \<Rightarrow> e = Unknown_Command (args ! 0)
      | Inr sql \<Rightarrow> args ! 0 \<in> {''gaps'', ''activity'', ''hot-accounts'', ''sql''})"
proof -
  have tables: "register_tables register dir [(''account_updates'', True), (''obligation_snapshots'', False)] =
      (if register (table_path dir ''account_updates'') \<noteq> None
       then Inl (Register_Failed (table_path dir ''account_updates''))
       else Inr ((''account_updates'', table_path dir ''account_updates'')
              # (if register (table_path dir ''obligation_snapshots'') = None
                 then [(''obligation_snapshots'', table_path dir ''obligation_snapshots'')] else [])))" for dir
    by (auto simp: Let_def split: option.splits)
  have "coldquery_main dir_env args register plan execute =
      (let dir = (case dir_env of Some d \<Rightarrow> d | None \<Rightarrow> ''./parquet'');
           updates = table_path dir ''account_updates'';
           snapshots = table_path dir ''obligation_snapshots''
       in if args = [] then Inl Usage
       else if register updates \<noteq> None then Inl (Register_Failed updates)
       else case command_sql args of
         Inl e \<Rightarrow> Inl e
       | Inr sql \<Rightarrow>
           if plan sql \<noteq> None then Inl (Plan_Failed (the (plan sql)))
           else if execute sql \<noteq> None then Inl (Execute_Failed (the (execute sql)))
           else Inr ((''account_updates'', updates)
                      # (if register snapshots = None then [(''obligation_snapshots'', snapshots)] else []), sql))"
    unfolding coldquery_main_def tables by (auto simp: Let_def split: option.splits sum.splits)
  moreover have "case command_sql args of
        Inl Missing_Statement \<Rightarrow> args ! 0 = ''sql'' \<and> length args \<le> 1
      | Inl e \<Rightarrow> e = Unknown_Command (args ! 0)
      | Inr sql \<Rightarrow> args ! 0 \<in> {''gaps'', ''activity'', ''hot-accounts'', ''sql''}"
    unfolding command_sql_def Let_def by (simp split: if_split)
  ultimately show ?thesis unfolding Let_def by blast
qed

text \<open>
  The statement \<open>gaps\<close> sends names the shared tolerance: its text is the stored query with
  \<open>600\<close> in the place of the placeholder, which occurs once.
\<close>

lemma gaps_sql_threshold:
  "gaps_sql = take 385 GAPS_SQL @ ''600'' @ drop 396 GAPS_SQL
   \<and> take 11 (drop 385 GAPS_SQL) = ''{threshold}''"
proof -
  define before after where "before = take 385 GAPS_SQL" and "after = drop 396 GAPS_SQL"
  have sql: "GAPS_SQL = before @ ''{threshold}'' @ after"
    and here: "take 11 (drop 385 GAPS_SQL) = ''{threshold}''"
    unfolding before_def after_def by (simp_all add: GAPS_SQL_def text_lines_def)
  have clear: "CHR ''{'' \<notin> set before" "CHR ''{'' \<notin> set after"
    unfolding before_def after_def by (simp_all add: GAPS_SQL_def text_lines_def)
  have "decimal (unat RESUME_TOLERANCE_SLOTS) = ''600''"
    by (simp add: const_defs decimal_small decimal_large digit_char_def char_of_def bit_0)
  then have "gaps_sql = before @ ''600'' @ after"
    unfolding gaps_sql_def sql
    by (simp only: str_replace_skip [OF clear(1)] str_replace_here str_replace_absent [OF clear(2)])
  with here show ?thesis by (simp add: before_def after_def)
qed

end
