(* ===== verification/Summary.thy ===== *)
theory Summary
  imports Indexer_Facts "HOL-Library.List_Lexorder" "HOL-Library.Char_ord" "HOL-Library.Product_Lexorder"
    "HOL-Library.Multiset"
begin

text \<open>
  The summary \<open>main\<close> of \<open>src/main.rs\<close> prints when it ends: the totals, the tally sorted by
  descending count with ties broken by account kind and length, and the verdict on payload
  shapes. \<open>AccountKind\<close> derives its order in the source; the instance here is that order.
\<close>

section \<open>The order on account kinds\<close>

definition kind_rank :: "account_kind \<Rightarrow> nat \<times> string \<times> bytes \<times> nat" where
  "kind_rank k =
     (case k of
        Known name \<Rightarrow> (0, name, [], 0)
      | Unknown disc \<Rightarrow> (1, [], disc, 0)
      | Untagged len \<Rightarrow> (2, [], [], len))"

lemma kind_rank_inj: "kind_rank a = kind_rank b \<Longrightarrow> a = b"
  by (auto simp: kind_rank_def split: account_kind.splits)

text \<open>The derived \<open>PartialOrd\<close>: variants in the order of their declaration, then their fields.\<close>

definition kind_le :: "account_kind \<Rightarrow> account_kind \<Rightarrow> bool" where
  "kind_le a b \<longleftrightarrow> kind_rank a \<le> kind_rank b"

definition kind_less :: "account_kind \<Rightarrow> account_kind \<Rightarrow> bool" where
  "kind_less a b \<longleftrightarrow> kind_rank a < kind_rank b"

instantiation account_kind :: linorder
begin

definition less_eq_account_kind :: "account_kind \<Rightarrow> account_kind \<Rightarrow> bool" where
  "a \<le> b \<longleftrightarrow> kind_le a b"

definition less_account_kind :: "account_kind \<Rightarrow> account_kind \<Rightarrow> bool" where
  "a < b \<longleftrightarrow> kind_less a b"

instance
  by standard
    (auto simp only: less_eq_account_kind_def less_account_kind_def kind_le_def kind_less_def less_le_not_le
      intro: kind_rank_inj)

end

lemma not_order:
  "NOT a \<le> NOT b \<longleftrightarrow> b \<le> a" "NOT a < NOT b \<longleftrightarrow> b < a" for a b :: u64
proof -
  have complement: "unat (NOT c) = unat (- 1 :: u64) - unat c" for c :: u64
  proof -
    have "NOT c = - 1 - c" by (simp add: not_eq_complement)
    then show ?thesis using unat_sub [of c "- 1"] by simp
  qed
  have bound: "unat c \<le> unat (- 1 :: u64)" for c :: u64
    by (simp flip: word_le_nat_alt)
  show "NOT a \<le> NOT b \<longleftrightarrow> b \<le> a" "NOT a < NOT b \<longleftrightarrow> b < a"
    using bound [of a] bound [of b] unfolding word_le_nat_alt word_less_nat_alt complement by linarith+
qed

section \<open>The report\<close>

record summary =
  sm_first_slot :: u64
  sm_last_slot :: u64
  sm_slot_span :: u64
  sm_slots_with_updates :: u64
  sm_total_updates :: u64
  sm_total_bytes :: u64
  sm_reconnects :: u64
  sm_rows :: tally
  sm_payload_line :: string

text \<open>\<open>sort_by_key(|\<dots>| (Reverse(count), kind, len))\<close>; complementing a word reverses its order.\<close>

definition row_key :: "(account_kind \<times> nat) \<times> u64 \<Rightarrow> u64 \<times> account_kind \<times> nat" where
  "row_key row = (case row of ((kind, len), n) \<Rightarrow> (NOT n, kind, len))"

definition summary_rows :: "tally \<Rightarrow> tally" where
  "summary_rows t = sort_key row_key t"

definition payload_line :: "payload_guard \<Rightarrow> string" where
  "payload_line g =
     (if is_firing g then
        ''PAYLOAD SHAPE FAULT: '' @ payload_guard_text g @ ''. '' @ show_u64 (impossible_count g)
        @ '' updates were stored with no payload.''
      else ''payload shape: '' @ payload_guard_text g)"

definition summarize :: "indexer \<Rightarrow> summary" where
  "summarize ix =
     \<lparr>sm_first_slot = (case ix_first_slot ix of Some s \<Rightarrow> s | None \<Rightarrow> 0),
      sm_last_slot = ix_last_slot ix,
      sm_slot_span = slot_span ix,
      sm_slots_with_updates = ix_slots_with_updates ix,
      sm_total_updates = total_updates ix,
      sm_total_bytes = ix_total_bytes ix,
      sm_reconnects = ix_reconnects ix,
      sm_rows = summary_rows (ix_tally ix),
      sm_payload_line = payload_line (ix_guard ix)\<rparr>"

section \<open>Counting with \<open>tally_add\<close>\<close>

lemma tally_add_keys: "set (map fst (tally_add k t)) = insert k (set (map fst t))"
  by (induction k t rule: tally_add.induct) auto

lemma tally_add_distinct: "distinct (map fst t) \<Longrightarrow> distinct (map fst (tally_add k t))"
proof (induction k t rule: tally_add.induct)
  case (2 k k' n t)
  then show ?case
    using tally_add_keys [of k t] by auto
qed simp

lemma tally_add_map_of:
  "map_of (tally_add k t) = (map_of t)(k \<mapsto> (case map_of t k of None \<Rightarrow> 1 | Some n \<Rightarrow> n + 1))"
  by (induction k t rule: tally_add.induct) (auto simp: fun_eq_iff)

lemma tally_add_sum: "sum_list (map snd (tally_add k t)) = sum_list (map snd t) + 1"
  by (induction k t rule: tally_add.induct) (auto simp: algebra_simps)

definition tally_of :: "(account_kind \<times> nat) list \<Rightarrow> tally" where
  "tally_of keys = fold tally_add keys []"

lemma tally_of_snoc [simp]: "tally_of (keys @ [k]) = tally_add k (tally_of keys)"
  by (simp add: tally_of_def)

lemma tally_of_Nil [simp]: "tally_of [] = []"
  by (simp add: tally_of_def)

lemma tally_of_distinct: "distinct (map fst (tally_of keys))"
  by (induction keys rule: rev_induct) (simp_all add: tally_add_distinct)

lemma tally_of_map_of:
  "map_of (tally_of keys) k = (if k \<in> set keys then Some (of_nat (count_list keys k)) else None)"
  by (induction keys rule: rev_induct) (auto simp: tally_add_map_of algebra_simps)

lemma tally_of_sum: "sum_list (map snd (tally_of keys)) = of_nat (length keys)"
  by (induction keys rule: rev_induct) (simp_all add: tally_add_sum algebra_simps)

section \<open>The tally of a run\<close>

definition account_key :: "external \<Rightarrow> event \<Rightarrow> (account_kind \<times> nat) list" where
  "account_key ext e =
     (case e of
        Message ts (Account_Update slot (Some info)) \<Rightarrow>
          [(account_kind_from (x_digest ext) (ai_data info), length (ai_data info))]
      | _ \<Rightarrow> [])"

text \<open>
  The events a process takes from its streams: each session those up to and with the one that ends it, whether
  that breaks out of the loop, fails a flush or waits for ever, and no event of a session that does not
  open. They are read off the states the process goes through.
\<close>

fun taken :: "external \<Rightarrow> u64 option \<Rightarrow> u64 option \<Rightarrow> event list \<Rightarrow> indexer \<Rightarrow> event list" where
  "taken ext budget r [] ix = []"
| "taken ext budget r (e # es) ix =
     e # (case session_step ext budget r e ix of Continue ix' \<Rightarrow> taken ext budget r es ix' | _ \<Rightarrow> [])"

definition session_taken :: "external \<Rightarrow> u64 option \<Rightarrow> session_input \<Rightarrow> indexer \<Rightarrow> event list" where
  "session_taken ext budget inp ix =
     (case (resume_point ext inp ix, si_connect_err inp, si_subscribe_err inp) of
        (Inr r, None, None) \<Rightarrow> taken ext budget r (si_events inp) (start_session (ix\<lparr>ix_force_tip := False\<rparr>))
      | _ \<Rightarrow> [])"

fun run_taken :: "external \<Rightarrow> u64 option \<Rightarrow> session_input list \<Rightarrow> indexer \<Rightarrow> event list" where
  "run_taken ext budget [] ix = []"
| "run_taken ext budget (inp # inps) ix =
     session_taken ext budget inp ix
     @ (case session ext budget inp ix of Reconnect ix' \<Rightarrow> run_taken ext budget inps ix' | _ \<Rightarrow> [])"

text \<open>The two counters of an update, and what a list of updates adds to them.\<close>

definition counted :: "indexer \<Rightarrow> tally \<times> u64" where
  "counted ix = (ix_tally ix, ix_total_bytes ix)"

definition count_keys :: "(account_kind \<times> nat) list \<Rightarrow> tally \<times> u64 \<Rightarrow> tally \<times> u64" where
  "count_keys keys c = (fold tally_add keys (fst c), snd c + of_nat (sum_list (map snd keys)))"

lemma count_keys_simps [simp]:
  "count_keys [] c = c" "count_keys (ks @ ks') c = count_keys ks' (count_keys ks c)"
  by (simp_all add: count_keys_def)

lemma flush_step_counted [simp]: "counted (step_state (flush_writer_step ext ix)) = counted ix"
  by (auto simp: counted_def flush_writer_step_def split: option.splits prod.splits outcome.splits)

lemma gap_step_counted [simp]: "counted (step_state (try_record_gap ext s e r ix)) = counted ix"
  by (auto simp: counted_def try_record_gap_def split: option.splits prod.splits outcome.splits)

lemma judge_counted [simp]: "counted (step_state (judge_resume ext r ix)) = counted ix"
proof -
  have "counted (step_state (try_record_gap ext s e w (ix\<lparr>ix_resume_judged := True\<rparr>))) = counted ix" for s e w
    by (simp only: gap_step_counted) (simp add: counted_def)
  then show ?thesis
    by (auto simp: judge_resume_def Let_def counted_def split: option.splits resume_verdict.splits bool.splits)
qed

lemma step_then_counted:
  "(\<And>ix. counted (step_state (k ix)) = counted ix) \<Longrightarrow>
     counted (step_state (step_then r k)) = counted (step_state r)"
  by (cases r) (auto simp: step_then_def)

lemma handle_account_counted:
  "counted (step_state (handle_account ext budget slot info ix)) =
     count_keys [(account_kind_from (x_digest ext) (ai_data info), length (ai_data info))] (counted ix)"
proof -
  have "counted (account_stats ext slot info ix\<lparr>ix_writer := w\<rparr>) =
      count_keys [(account_kind_from (x_digest ext) (ai_data info), length (ai_data info))] (counted ix)" for w
    by (simp add: counted_def count_keys_def account_stats_def Let_def split_beta)
  then show ?thesis by (simp add: handle_account_state Let_def)
qed

lemma session_step_counted:
  "counted (step_state (session_step ext budget r e ix)) = count_keys (account_key ext e) (counted ix)"
proof -
  have same: "counted (note_produced ts ix) = counted ix" "counted (ix\<lparr>ix_tip_slot := t\<rparr>) = counted ix"
    "counted (lag_line ix) = counted ix" "counted (ix\<lparr>ix_stream_err := m\<rparr>) = counted ix"
    "counted (ix\<lparr>ix_shutdown := True\<rparr>) = counted ix" for ts t m and ix :: indexer
    by (simp_all add: counted_def note_produced_def lag_line_def split: option.split)
  show ?thesis
    by (auto simp: session_step_def account_key_def handle_message_def Let_def same handle_account_counted
        step_then_counted split: event.splits update_oneof.splits option.splits)
qed

lemma run_stream_counted:
  "counted (step_state (run_stream ext budget r es ix)) =
     count_keys (concat (map (account_key ext) (taken ext budget r es ix))) (counted ix)"
proof (induction es arbitrary: ix)
  case (Cons e es)
  show ?case
    using session_step_counted [of ext budget r e ix] Cons.IH
    by (cases "session_step ext budget r e ix") (simp_all add: step_then_def)
qed simp

lemma finish_session_counted: "counted (result_state (finish_session ext budget r ix)) = counted ix"
proof -
  have again: "counted (result_state (loop_again res k)) = counted ix"
    if "counted (step_state res) = counted ix" "\<And>ix'. counted ix' = counted ix \<Longrightarrow> counted (result_state (k ix')) = counted ix"
    for res k using that by (cases res) (simp_all add: loop_again_def)
  have "counted (step_state (check_unreachable ext r ix')) = counted ix'" for ix'
  proof -
    have "counted (ix'\<lparr>ix_force_tip := True\<rparr>) = counted ix'" for ix' by (simp add: counted_def)
    then show ?thesis
      by (auto simp: check_unreachable_def step_then_counted split: option.split bool.split)
  qed
  moreover have "counted (count_reconnect ix') = counted ix'" for ix'
    by (simp add: counted_def count_reconnect_def)
  ultimately show ?thesis
    by (auto simp: finish_session_def intro!: again)
qed

lemma subscribe_failed_counted: "counted (result_state (subscribe_failed ext budget r e ix)) = counted ix"
proof -
  have "counted (ix'\<lparr>ix_force_tip := True\<rparr>) = counted ix'" for ix' by (simp add: counted_def)
  then have "counted (result_state (loop_again res (\<lambda>ix. Reconnect (ix\<lparr>ix_force_tip := True\<rparr>)))) = counted (step_state res)" for res
    by (cases res) (simp_all add: loop_again_def)
  then show ?thesis by (auto simp: subscribe_failed_def split: option.split)
qed

lemma session_counted:
  "counted (result_state (session ext budget inp ix)) =
     count_keys (concat (map (account_key ext) (session_taken ext budget inp ix))) (counted ix)"
proof (cases "resume_point ext inp ix")
  case (Inr r)
  define ix0 where "ix0 = ix\<lparr>ix_force_tip := False\<rparr>"
  have start: "counted ix0 = counted ix" "counted (start_session ix0) = counted ix"
    by (simp_all add: counted_def ix0_def start_session_def)
  show ?thesis
  proof (cases "si_connect_err inp = None \<and> si_subscribe_err inp = None")
    case True
    define res where "res = run_stream ext budget r (si_events inp) (start_session ix0)"
    have "session ext budget inp ix = (case res of Continue ix \<Rightarrow> Waiting ix | Wedge ix \<Rightarrow> Wedged ix
        | Return_Err e ix \<Rightarrow> Failed e ix | Break ix \<Rightarrow> finish_session ext budget r ix)"
      using True by (simp add: session_def Inr ix0_def res_def)
    then have "counted (result_state (session ext budget inp ix)) = counted (step_state res)"
      by (cases res) (simp_all add: finish_session_counted)
    then show ?thesis
      using True by (simp add: res_def run_stream_counted start session_taken_def Inr flip: ix0_def)
  next
    case False
    then show ?thesis
      by (auto simp: session_def session_taken_def Inr subscribe_failed_counted start
          simp flip: ix0_def split: option.splits)
  qed
qed (simp add: session_def session_taken_def)

lemma run_counted:
  "counted (result_state (run ext budget inps ix)) =
     count_keys (concat (map (account_key ext) (run_taken ext budget inps ix))) (counted ix)"
proof (induction inps arbitrary: ix)
  case (Cons inp inps)
  show ?case
    using session_counted [of ext budget inp ix] Cons.IH by (cases "session ext budget inp ix") simp_all
qed simp

section \<open>Properties\<close>

text \<open>
  C31 The summary table is exact. Whatever its sessions are given and however it ends, the summary of a process counts the
  account updates among the events it took, \<open>run_taken\<close>, all of them and nothing else: each
  (kind, payload length) that occurred has one row with its number of occurrences, modulo
  \<open>2^64\<close>, the rows are sorted by descending count and then by kind and length, the reported total is the number
  of account updates, and the payload bytes are the sum of their lengths.
\<close>

theorem summary_table_exact:
  "let s = summarize (result_state (indexer_main ext sink budget inps db));
       keys = concat (map (account_key ext) (run_taken ext budget inps (indexer_new sink db)))
   in mset (sm_rows s) = mset (map (\<lambda>k. (k, of_nat (count_list keys k))) (remdups keys))
      \<and> sorted_wrt (\<lambda>((k, l), c) ((k', l'), c'). c' < c \<or> (c = c' \<and> (k, l) \<le> (k', l'))) (sm_rows s)
      \<and> sm_total_updates s = of_nat (length keys)
      \<and> sm_total_bytes s = of_nat (sum_list (map snd keys))"
proof -
  define ix where "ix = result_state (indexer_main ext sink budget inps db)"
  define keys where "keys = concat (map (account_key ext) (run_taken ext budget inps (indexer_new sink db)))"
  have "counted ix = count_keys keys (counted (indexer_new sink db))"
    unfolding ix_def keys_def indexer_main_def by (rule run_counted)
  then have tally: "ix_tally ix = tally_of keys" and bytes: "ix_total_bytes ix = of_nat (sum_list (map snd keys))"
    by (simp_all add: counted_def count_keys_def indexer_new_def tally_of_def)
  have row: "(k, c) \<in> set (tally_of keys) \<longleftrightarrow> k \<in> set keys \<and> c = of_nat (count_list keys k)" for k c
  proof -
    have "(k, c) \<in> set (tally_of keys) \<longleftrightarrow> map_of (tally_of keys) k = Some c"
      using tally_of_distinct [of keys] by simp
    then show ?thesis by (auto simp: tally_of_map_of)
  qed
  have "distinct (tally_of keys)"
    using tally_of_distinct [of keys] by (simp add: distinct_map)
  moreover have "distinct (map (\<lambda>k. (k, of_nat (count_list keys k) :: u64)) (remdups keys))"
    by (auto simp: distinct_map inj_on_def)
  moreover have "set (tally_of keys) = set (map (\<lambda>k. (k, of_nat (count_list keys k))) (remdups keys))"
    using row by auto
  ultimately have "mset (tally_of keys) = mset (map (\<lambda>k. (k, of_nat (count_list keys k))) (remdups keys))"
    by (rule set_eq_iff_mset_eq_distinct [THEN iffD1])
  moreover have "sorted_wrt (\<lambda>((k, l), c) ((k', l'), c'). c' < c \<or> (c = c' \<and> (k, l) \<le> (k', l')))
      (summary_rows (tally_of keys))"
  proof -
    have "sorted (map row_key (summary_rows (tally_of keys)))"
      unfolding summary_rows_def by (rule sorted_sort_key)
    then show ?thesis
      unfolding sorted_wrt_map
      by (rule sorted_wrt_mono_rel [rotated]) (auto simp: row_key_def not_order less_eq_prod_def)
  qed
  moreover have "total_updates ix = of_nat (length keys)"
    using tally_of_sum [of keys] tally by (simp add: total_updates_def)
  ultimately show ?thesis
    using tally bytes by (simp add: Let_def summarize_def summary_rows_def flip: ix_def keys_def)
qed

end
