(* ===== verification/Float64.thy ===== *)
theory Float64
  imports Prelude "HOL-Library.Log_Nat"
begin

text \<open>
  The \<open>f64\<close> arithmetic of the log lines. A finite \<open>f64\<close> is the rational number it stands for, and an
  operation is the exact one followed by a rounding to 53 significant bits, to the nearest and at a
  tie to the even one; the exponent stops at that of the smallest subnormal. The lines only
  compute with numbers between zero and \<open>2 ^ 71\<close> and never divide by zero, so infinities, \<open>NaN\<close> and the
  sign of zero do not arise.
\<close>

section \<open>Rounding to an integer\<close>

definition half_even :: "rat \<Rightarrow> int" where
  "half_even x =
     (let n = \<lfloor>x\<rfloor>; d = x - of_int n in if d < 1 / 2 \<or> d = 1 / 2 \<and> even n then n else n + 1)"

lemma half_even_cases:
  obtains "half_even x = \<lfloor>x\<rfloor>" "x - of_int \<lfloor>x\<rfloor> \<le> 1 / 2"
  | "half_even x = \<lfloor>x\<rfloor> + 1" "1 / 2 \<le> x - of_int \<lfloor>x\<rfloor>"
  by (cases "x - of_int \<lfloor>x\<rfloor> < 1 / 2 \<or> x - of_int \<lfloor>x\<rfloor> = 1 / 2 \<and> even \<lfloor>x\<rfloor>")
    (auto simp: half_even_def Let_def)

lemma half_even_near: "\<bar>of_int (half_even x) - x\<bar> \<le> 1 / 2"
proof (cases rule: half_even_cases [of x])
  case 1
  with of_int_floor_le [of x] show ?thesis by simp
next
  case 2
  with floor_correct [of x] show ?thesis by simp
qed

lemma half_even_of_int [simp]: "half_even (of_int n) = n"
  by (simp add: half_even_def)

lemma half_even_0 [simp]: "half_even 0 = 0"
  using half_even_of_int [of 0] by simp

text \<open>Closer than a half there is one integer.\<close>

lemma half_even_unique:
  assumes "\<bar>x - of_int n\<bar> < 1 / 2"
  shows "half_even x = n"
proof -
  have "\<bar>of_int (half_even x) - of_int n :: rat\<bar> < 1"
    using half_even_near [of x] assms by linarith
  then have "\<bar>half_even x - n\<bar> < 1" by (simp flip: of_int_diff of_int_abs)
  then show ?thesis by simp
qed

lemma half_even_mono:
  assumes "x \<le> y"
  shows "half_even x \<le> half_even y"
proof (cases "\<lfloor>x\<rfloor> = \<lfloor>y\<rfloor>")
  case True
  with assms show ?thesis by (auto simp: half_even_def Let_def)
next
  case False
  with assms have "\<lfloor>x\<rfloor> + 1 \<le> \<lfloor>y\<rfloor>" using floor_mono [of x y] by simp
  moreover have "half_even x \<le> \<lfloor>x\<rfloor> + 1" and "\<lfloor>y\<rfloor> \<le> half_even y"
    by (simp_all add: half_even_def Let_def)
  ultimately show ?thesis by simp
qed

lemma half_even_nonneg: "0 \<le> x \<Longrightarrow> 0 \<le> half_even x"
  using half_even_mono [of 0 x] by simp

section \<open>Rounding to 53 bits\<close>

text \<open>The binary logarithm, rounded down, from the lengths of numerator and denominator.\<close>

definition ilog2 :: "rat \<Rightarrow> int" where
  "ilog2 x = (let (n, d) = quotient_of x; k = bitlen n - bitlen d in if 2 powi k \<le> x then k else k - 1)"

definition ulp_exponent :: "rat \<Rightarrow> int" where
  "ulp_exponent x = max (ilog2 \<bar>x\<bar> - 52) (- 1074)"

type_synonym f64 = rat

definition round_f64 :: "rat \<Rightarrow> f64" where
  "round_f64 x = (if x = 0 then 0 else let u = 2 powi ulp_exponent x in of_int (half_even (x / u)) * u)"

definition f64_of_u64 :: "u64 \<Rightarrow> f64" where
  "f64_of_u64 w = round_f64 (of_nat (unat w))"

definition f64_of_int :: "int \<Rightarrow> f64" where
  "f64_of_int z = round_f64 (of_int z)"

definition f64_add :: "f64 \<Rightarrow> f64 \<Rightarrow> f64" where
  "f64_add a b = round_f64 (a + b)"

definition f64_sub :: "f64 \<Rightarrow> f64 \<Rightarrow> f64" where
  "f64_sub a b = round_f64 (a - b)"

definition f64_mul :: "f64 \<Rightarrow> f64 \<Rightarrow> f64" where
  "f64_mul a b = round_f64 (a * b)"

definition f64_div :: "f64 \<Rightarrow> f64 \<Rightarrow> f64" where
  "f64_div a b = round_f64 (a / b)"

lemma powi_pos [simp]: "0 < (2::rat) powi k"
  by (rule zero_less_power_int) simp

lemma powi_mono: "j \<le> k \<Longrightarrow> (2::rat) powi j \<le> 2 powi k"
  by (rule power_int_increasing) simp_all

lemma powi_Suc: "(2::rat) powi (k + 1) = 2 * 2 powi k"
  by (subst power_int_add_1') auto

lemma powi_of_nat: "0 \<le> k \<Longrightarrow> (2::rat) powi k = of_int (2 ^ nat k)"
  by (simp add: power_int_def)

lemma bitlen_powi:
  assumes "0 < n"
  shows "2 powi (bitlen n - 1) \<le> (of_int n :: rat)" and "(of_int n :: rat) < 2 powi bitlen n"
proof -
  have "1 \<le> bitlen n" using assms bitlen_nonneg [of n] bitlen_eq_zero_iff [of n] by linarith
  then have "2 powi (bitlen n - 1) = (of_int (2 ^ nat (bitlen n - 1)) :: rat)"
    "2 powi bitlen n = (of_int (2 ^ nat (bitlen n)) :: rat)"
    using powi_of_nat [of "bitlen n - 1"] powi_of_nat [of "bitlen n"] by simp_all
  with bitlen_bounds [OF assms] show "2 powi (bitlen n - 1) \<le> (of_int n :: rat)"
    "(of_int n :: rat) < 2 powi bitlen n"
    by (simp_all only: of_int_le_iff of_int_less_iff)
qed

lemma ilog2_bounds:
  assumes "0 < x"
  shows "2 powi ilog2 x \<le> x" and "x < 2 powi (ilog2 x + 1)"
proof -
  obtain n d where q: "quotient_of x = (n, d)" by fastforce
  then have x: "x = of_int n / of_int d" and d: "0 < d"
    using quotient_of_div quotient_of_denom_pos by blast+
  with assms have n: "0 < n" by (simp add: zero_less_divide_iff)
  define k where "k = bitlen n - bitlen d"
  have "2 powi (k - 1) = 2 powi (bitlen n - 1) / (2::rat) powi bitlen d"
    by (subst power_int_diff [symmetric]) (simp_all add: k_def algebra_simps)
  also have "\<dots> \<le> of_int n / of_int d"
    using bitlen_powi(1) [OF n] bitlen_powi(2) [OF d] d n by (intro frac_le) auto
  finally have low: "2 powi (k - 1) \<le> x" by (simp add: x)
  have "of_int n / of_int d < (2::rat) powi bitlen n / 2 powi (bitlen d - 1)"
    using bitlen_powi(2) [OF n] bitlen_powi(1) [OF d] d n by (intro frac_less) auto
  also have "\<dots> = 2 powi (k + 1)"
    by (subst power_int_diff [symmetric]) (simp_all add: k_def algebra_simps)
  finally have high: "x < 2 powi (k + 1)" by (simp add: x)
  show "2 powi ilog2 x \<le> x" "x < 2 powi (ilog2 x + 1)"
    using low high by (simp_all add: ilog2_def q k_def [symmetric] Let_def not_le)
qed

lemma ilog2_le: "0 < x \<Longrightarrow> x < 2 powi (k + 1) \<Longrightarrow> ilog2 x \<le> k"
  using ilog2_bounds(1) [of x] powi_mono [of "k + 1" "ilog2 x"] by (cases "ilog2 x \<le> k") auto

lemma ilog2_ge: "0 < x \<Longrightarrow> 2 powi k \<le> x \<Longrightarrow> k \<le> ilog2 x"
  using ilog2_bounds(2) [of x] powi_mono [of "ilog2 x + 1" k] by (cases "k \<le> ilog2 x") auto

text \<open>The error of a rounding is half a unit in the last place.\<close>

lemma round_f64_ulp: "\<bar>round_f64 x - x\<bar> \<le> 2 powi ulp_exponent x / 2"
proof (cases "x = 0")
  case False
  define u where "u = (2::rat) powi ulp_exponent x"
  have u: "0 < u" by (simp add: u_def)
  have "round_f64 x - x = (of_int (half_even (x / u)) - x / u) * u"
    using False u by (simp add: round_f64_def u_def [symmetric] Let_def field_simps)
  then have "\<bar>round_f64 x - x\<bar> = \<bar>of_int (half_even (x / u)) - x / u\<bar> * u"
    using u by (simp add: abs_mult)
  also have "\<dots> \<le> 1 / 2 * u"
    using half_even_near u by (intro mult_right_mono) auto
  finally show ?thesis by (simp add: u_def)
qed (simp add: round_f64_def)

lemma round_f64_error:
  assumes "2 powi (- 1022) \<le> x"
  shows "\<bar>round_f64 x - x\<bar> \<le> x / 2 ^ 53"
proof -
  have x: "0 < x" using assms powi_pos [of "- 1022"] by linarith
  with assms have "- 1022 \<le> ilog2 x" by (rule ilog2_ge [rotated])
  with x have "ulp_exponent x = ilog2 x - 52" by (simp add: ulp_exponent_def)
  then have "2 powi ulp_exponent x = 2 powi ilog2 x / (2::rat) ^ 52"
    by (simp add: power_int_diff)
  also have "\<dots> \<le> x / 2 ^ 52"
    using ilog2_bounds(1) [OF x] by (intro divide_right_mono) auto
  finally show ?thesis using round_f64_ulp [of x] by simp
qed

text \<open>Numbers of 53 significant bits are exact.\<close>

lemma round_f64_exact:
  assumes "\<bar>m\<bar> < 2 ^ 53" and "- 1074 \<le> k"
  shows "round_f64 (of_int m * 2 powi k) = of_int m * 2 powi k"
proof (cases "m = 0")
  case False
  define x where "x = (of_int m :: rat) * 2 powi k"
  have "\<bar>of_int m :: rat\<bar> < 2 ^ 53"
    using assms(1) by (metis of_int_abs of_int_less_iff of_int_numeral of_int_power)
  then have "\<bar>x\<bar> < 2 ^ 53 * 2 powi k"
    by (simp add: x_def abs_mult)
  also have "\<dots> = 2 powi (k + 53)" by (simp add: power_int_add)
  also have "\<dots> = 2 powi ((k + 52) + 1)" by (simp add: algebra_simps)
  finally have "ilog2 \<bar>x\<bar> \<le> k + 52" using False by (intro ilog2_le) (simp_all add: x_def)
  with assms(2) have le: "ulp_exponent x \<le> k" by (simp add: ulp_exponent_def)
  define j where "j = nat (k - ulp_exponent x)"
  define u where "u = (2::rat) powi ulp_exponent x"
  have "2 powi k = u * 2 ^ j"
    using le by (simp add: j_def u_def flip: power_int_of_nat power_int_add)
  then have x: "x = of_int (m * 2 ^ j) * u" by (simp add: x_def)
  moreover have u: "0 < u" by (simp add: u_def)
  ultimately have "x / u = of_int (m * 2 ^ j)" by simp
  then have "half_even (x / u) = m * 2 ^ j" by (simp only: half_even_of_int)
  moreover have "x \<noteq> 0" using False by (simp add: x_def)
  ultimately have "round_f64 x = of_int (m * 2 ^ j) * u"
    unfolding round_f64_def Let_def u_def [symmetric] by (simp only: if_False)
  with x show ?thesis unfolding x_def by (simp only:)
qed (simp add: round_f64_def)

lemma round_f64_int: "\<bar>m\<bar> < 2 ^ 53 \<Longrightarrow> round_f64 (of_int m) = of_int m"
  using round_f64_exact [of m 0] by simp

lemma f64_of_u64_exact:
  assumes "unat w < 2 ^ 53"
  shows "f64_of_u64 w = of_nat (unat w)"
proof -
  have "\<bar>int (unat w)\<bar> < 2 ^ 53"
    using assms by (metis abs_of_nat of_nat_less_numeral_power_cancel_iff)
  from round_f64_int [OF this] show ?thesis
    unfolding f64_of_u64_def by (simp only: of_int_of_nat_eq)
qed

text \<open>Rounding keeps the order.\<close>

lemma ulp_quotient:
  assumes "0 < x"
  shows "x / 2 powi ulp_exponent x < 2 ^ 53"
    and "- 1074 < ulp_exponent x \<Longrightarrow> 2 ^ 52 \<le> x / 2 powi ulp_exponent x"
proof -
  have "ilog2 x + 1 \<le> ulp_exponent x + 53" using assms by (simp add: ulp_exponent_def)
  from powi_mono [OF this] ilog2_bounds(2) [OF assms] have "x < 2 powi (ulp_exponent x + 53)" by linarith
  then show "x / 2 powi ulp_exponent x < 2 ^ 53" by (simp add: power_int_add divide_simps mult.commute)
  assume "- 1074 < ulp_exponent x"
  with assms have "ulp_exponent x = ilog2 x - 52" by (simp add: ulp_exponent_def max_def split: if_splits)
  then have "2 powi (ulp_exponent x + 52) \<le> x" using ilog2_bounds(1) [OF assms] by simp
  then show "2 ^ 52 \<le> x / 2 powi ulp_exponent x" by (simp add: power_int_add divide_simps mult.commute)
qed

lemma round_f64_nonneg: "0 \<le> x \<Longrightarrow> 0 \<le> round_f64 x"
  by (simp add: round_f64_def Let_def half_even_nonneg zero_le_mult_iff)

lemma round_f64_mono:
  assumes "0 \<le> x" and "x \<le> y"
  shows "round_f64 x \<le> round_f64 y"
proof (cases "x = 0")
  case True
  then have "round_f64 x = 0" by (simp add: round_f64_def)
  with assms round_f64_nonneg [of y] show ?thesis by simp
next
  case False
  with assms have pos: "0 < x" "0 < y" by simp_all
  define a b where "a = ulp_exponent x" and "b = ulp_exponent y"
  have x: "round_f64 x = of_int (half_even (x / 2 powi a)) * 2 powi a"
    and y: "round_f64 y = of_int (half_even (y / 2 powi b)) * 2 powi b"
    using pos by (simp_all add: round_f64_def Let_def a_def b_def)
  have "ilog2 x \<le> ilog2 y"
    using pos ilog2_bounds(1) [of x] assms(2) by (intro ilog2_ge) auto
  then have le: "a \<le> b" using pos by (simp add: a_def b_def ulp_exponent_def)
  show ?thesis
  proof (cases "a = b")
    case True
    have "half_even (x / 2 powi b) \<le> half_even (y / 2 powi b)"
      using assms(2) by (intro half_even_mono divide_right_mono) simp_all
    then show ?thesis by (simp add: x y True)
  next
    case False
    have "- 1074 \<le> a" by (simp add: a_def ulp_exponent_def)
    with le False have ab: "a + 53 \<le> b + 52" and "- 1074 < b" by linarith+
    have "half_even (x / 2 powi a) \<le> half_even (of_int (2 ^ 53))"
      using ulp_quotient(1) [OF pos(1)] by (intro half_even_mono) (simp add: a_def)
    then have "round_f64 x \<le> of_int (2 ^ 53) * 2 powi a"
      unfolding x half_even_of_int by (intro mult_right_mono) (simp_all only: of_int_le_iff, simp)
    also have "\<dots> = 2 powi (a + 53)" by (simp add: power_int_add)
    also have "\<dots> \<le> 2 powi (b + 52)" using ab by (rule powi_mono)
    also have "\<dots> = of_int (2 ^ 52) * 2 powi b" by (simp add: power_int_add)
    also have "half_even (of_int (2 ^ 52)) \<le> half_even (y / 2 powi b)"
      using ulp_quotient(2) [OF pos(2)] \<open>- 1074 < b\<close> by (intro half_even_mono) (simp add: b_def)
    then have "of_int (2 ^ 52) * 2 powi b \<le> round_f64 y"
      unfolding y half_even_of_int by (intro mult_right_mono) (simp_all only: of_int_le_iff, simp)
    finally show ?thesis .
  qed
qed

section \<open>Fixed-point text\<close>

text \<open>
  \<open>{:.k}\<close> of a non-negative value: its exact value in units of \<open>10 ^ -k\<close>, to the nearest and at a tie
  to the even one, with \<open>k\<close> digits behind the point.
\<close>

definition fixed_units :: "nat \<Rightarrow> f64 \<Rightarrow> nat" where
  "fixed_units k x = nat (half_even (x * 10 ^ k))"

definition pad_left :: "char \<Rightarrow> nat \<Rightarrow> string \<Rightarrow> string" where
  "pad_left c w s = replicate (w - length s) c @ s"

definition pad_right :: "char \<Rightarrow> nat \<Rightarrow> string \<Rightarrow> string" where
  "pad_right c w s = s @ replicate (w - length s) c"

definition fixed :: "nat \<Rightarrow> f64 \<Rightarrow> string" where
  "fixed k x =
     (let n = fixed_units k x
      in decimal (n div 10 ^ k)
         @ (if k = 0 then [] else CHR ''.'' # pad_left (CHR ''0'') k (decimal (n mod 10 ^ k))))"

lemma fixed_units_mono: "x \<le> y \<Longrightarrow> fixed_units k x \<le> fixed_units k y"
  unfolding fixed_units_def by (intro nat_mono half_even_mono mult_right_mono) simp_all

lemma fixed_units_near:
  assumes "0 \<le> x"
  shows "\<bar>of_nat (fixed_units k x) - x * 10 ^ k\<bar> \<le> 1 / 2"
proof -
  have "0 \<le> half_even (x * 10 ^ k)" using assms by (intro half_even_nonneg) simp
  then have "of_nat (fixed_units k x) = (of_int (half_even (x * 10 ^ k)) :: rat)"
    by (simp add: fixed_units_def)
  then show ?thesis using half_even_near by simp
qed

text \<open>The digits printed are those of the units.\<close>

lemma length_pad_left: "length s \<le> w \<Longrightarrow> length (pad_left c w s) = w"
  by (simp add: pad_left_def)

lemma fixed_0: "fixed 0 x = decimal (fixed_units 0 x)"
  by (simp add: fixed_def Let_def)

lemma fixed_decimals:
  assumes "0 < k"
  obtains whole frac where "fixed k x = whole @ CHR ''.'' # frac" "length frac = k"
    "list_all is_digit whole" "list_all is_digit frac"
    "decimal_value whole * 10 ^ k + decimal_value frac = fixed_units k x"
proof
  let ?n = "fixed_units k x"
  let ?frac = "pad_left (CHR ''0'') k (decimal (?n mod 10 ^ k))"
  show "fixed k x = decimal (?n div 10 ^ k) @ CHR ''.'' # ?frac"
    using assms by (simp add: fixed_def Let_def)
  show "length ?frac = k"
    using assms by (intro length_pad_left length_decimal_le) simp_all
  show "list_all is_digit (decimal (?n div 10 ^ k))" by (rule decimal_digits)
  show "list_all is_digit ?frac"
    using decimal_digits [of "?n mod 10 ^ k"] by (auto simp: pad_left_def list_all_iff is_digit_def)
  show "decimal_value (decimal (?n div 10 ^ k)) * 10 ^ k + decimal_value ?frac = ?n"
    by (simp add: pad_left_def decimal_value_zeros div_mult_mod_eq)
qed

end
