(* ===== verification/Report.thy ===== *)
theory Report
  imports Summary Float64
begin

text \<open>
  What \<open>main\<close> of \<open>src/main.rs\<close> prints: the lag line of every tick, the line of a reconnect, and the
  summary at the end, each as its text. \<open>{:w}\<close>, \<open>{:<w}\<close> and \<open>{:>w}\<close> pad with blanks; the rates and shares are computed
  in \<open>f64\<close> in the order of the source. The last sections prove that the printed numbers are
  what they stand for.
\<close>

section \<open>Clocks\<close>

definition LAG_INTERVAL_SECS :: u64 where
  "LAG_INTERVAL_SECS = 10"

text \<open>
  \<open>now_unix\<close>: the time since the epoch, as seconds and nanoseconds, or no time at all when the clock stands
  before it. \<open>as_secs_f64\<close> divides the nanoseconds first.
\<close>

definition secs_f64 :: "int \<Rightarrow> int \<Rightarrow> f64" where
  "secs_f64 secs nanos = f64_add (f64_of_int secs) (f64_div (f64_of_int nanos) 1000000000)"

definition now_unix :: "(u64 \<times> u32) option \<Rightarrow> f64" where
  "now_unix since_epoch =
     (case since_epoch of Some (secs, nanos) \<Rightarrow> secs_f64 (uint secs) (uint nanos) | None \<Rightarrow> 0)"

definition produced_unix :: "timestamp \<Rightarrow> f64" where
  "produced_unix ts = (case ts of (seconds, nanos) \<Rightarrow> secs_f64 seconds nanos)"

section \<open>The lag line\<close>

text \<open>Seconds of chain time: four tenths of a second per slot.\<close>

definition chain_secs :: "u64 \<Rightarrow> f64" where
  "chain_secs slots = f64_mul (f64_of_u64 slots) (round_f64 (4 / 10))"

definition stream_lag :: "f64 \<Rightarrow> timestamp \<Rightarrow> f64" where
  "stream_lag now ts = max (f64_sub now (produced_unix ts)) 0"

definition lag_text :: "f64 \<Rightarrow> indexer \<Rightarrow> string option" where
  "lag_text now ix =
     (if 0 < ix_tip_slot ix then
        let rate = f64_div (f64_of_u64 (ix_acct_since_lag ix)) (f64_of_u64 LAG_INTERVAL_SECS) in
        Some (''lag tip='' @ show_u64 (ix_tip_slot ix) @ '' processed='' @ show_u64 (ix_last_slot ix)
          @ '' behind='' @ show_u64 (behind ix) @ '' slots (~'' @ fixed 0 (chain_secs (behind ix))
          @ ''s) | stream_lag=''
          @ (case ix_last_produced ix of Some ts \<Rightarrow> fixed 1 (stream_lag now ts) @ ''s'' | None \<Rightarrow> ''?'')
          @ '' | '' @ fixed 1 rate @ '' acct/s'')
      else None)"

section \<open>A reconnect\<close>

definition reconnect_text :: "indexer \<Rightarrow> string" where
  "reconnect_text ix =
     (case ix_stream_err ix of
        Some e \<Rightarrow> ''stream dropped ('' @ e @ ''); reconnect #'' @ show_u64 (ix_reconnects ix)
          @ '' in '' @ show_u64 (backoff_secs (ix_fail_streak ix)) @ ''s''
      | None \<Rightarrow> ''stream ended; reconnect #'' @ show_u64 (ix_reconnects ix)
          @ '' in '' @ show_u64 (backoff_secs (ix_fail_streak ix)) @ ''s'')"

section \<open>The summary\<close>

text \<open>The two characters of the text outside ASCII, a box line and a long dash, in UTF-8.\<close>

definition box_line :: string where
  "box_line = concat (replicate 3 [CHR 0xE2, CHR 0x94, CHR 0x80])"

definition long_dash :: string where
  "long_dash = [CHR 0xE2, CHR 0x80, CHR 0x94]"

definition percent :: "u64 \<Rightarrow> u64 \<Rightarrow> f64" where
  "percent part whole =
     (if whole = 0 then 0 else f64_div (f64_mul 100 (f64_of_u64 part)) (f64_of_u64 whole))"

definition density :: "summary \<Rightarrow> f64" where
  "density s = percent (sm_slots_with_updates s) (sm_slot_span s)"

definition bandwidth :: "summary \<Rightarrow> f64" where
  "bandwidth s = f64_div (f64_div (f64_of_u64 (sm_total_bytes s)) 1024) (chain_secs (sm_slot_span s))"

definition table_head :: string where
  "table_head = pad_right (CHR '' '') 22 ''kind'' @ '' '' @ pad_left (CHR '' '') 9 ''data_len'' @ '' ''
     @ pad_left (CHR '' '') 8 ''updates'' @ '' '' @ pad_left (CHR '' '') 7 ''share''"

definition table_row :: "u64 \<Rightarrow> (account_kind \<times> nat) \<times> u64 \<Rightarrow> string" where
  "table_row updates row =
     (case row of ((kind, len), n) \<Rightarrow>
        pad_right (CHR '' '') 22 (kind_text kind) @ '' '' @ pad_left (CHR '' '') 9 (decimal len) @ '' ''
        @ pad_left (CHR '' '') 8 (show_u64 n) @ '' '' @ pad_left (CHR '' '') 6 (fixed 2 (percent n updates)) @ ''%'')"

definition summary_lines :: "summary \<Rightarrow> string list" where
  "summary_lines s =
     [CHR 0x0A # box_line @ '' sample summary '' @ box_line,
      ''slots '' @ show_u64 (sm_first_slot s) @ ''..'' @ show_u64 (sm_last_slot s) @ '' '' @ long_dash
        @ '' span '' @ show_u64 (sm_slot_span s) @ '' (~'' @ fixed 0 (chain_secs (sm_slot_span s)) @ ''s chain time)'',
      show_u64 (sm_slots_with_updates s) @ '' slots carried updates ('' @ fixed 1 (density s) @ ''% of span)'',
      show_u64 (sm_total_updates s) @ '' updates, '' @ show_u64 (sm_total_bytes s) @ '' payload bytes, ''
        @ show_u64 (sm_reconnects s) @ '' reconnects'']
     @ (if 0 < chain_secs (sm_slot_span s)
        then [''~'' @ fixed 1 (bandwidth s) @ '' KB/s payload (bandwidth is what Alchemy bills)''] else [])
     @ table_head # map (table_row (sm_total_updates s)) (sm_rows s)
     @ [sm_payload_line s]"

section \<open>Relative error\<close>

text \<open>
  \<open>near k x y\<close>: the computed \<open>y\<close> is \<open>k\<close> roundings away from the exact \<open>x\<close>. Roundings add up under products,
  quotients and composition.
\<close>

definition eps :: rat where
  "eps = 1 / 2 ^ 53"

definition near :: "nat \<Rightarrow> rat \<Rightarrow> rat \<Rightarrow> bool" where
  "near k x y \<longleftrightarrow> 0 \<le> x \<and> 0 \<le> y \<and> x * (1 - eps) ^ k \<le> y \<and> y * (1 - eps) ^ k \<le> x"

lemma eps_bounds: "0 < eps" "eps < 1" "0 < 1 - eps" "1 - eps \<le> 1"
  by (simp_all add: eps_def)

lemma near_refl [intro]: "0 \<le> x \<Longrightarrow> near 0 x x"
  by (simp add: near_def)

lemma shrink: "0 \<le> x \<Longrightarrow> x * (1 - eps) ^ k \<le> x"
  using eps_bounds by (simp add: mult_left_le power_le_one)

lemma near_trans:
  assumes "near j x y" and "near k y z"
  shows "near (j + k) x z"
proof -
  have pos: "0 \<le> (1 - eps) ^ n" for n using eps_bounds by simp
  have "x * (1 - eps) ^ j * (1 - eps) ^ k \<le> y * (1 - eps) ^ k"
    using assms(1) by (intro mult_right_mono pos) (simp add: near_def)
  moreover have "z * (1 - eps) ^ k * (1 - eps) ^ j \<le> y * (1 - eps) ^ j"
    using assms(2) by (intro mult_right_mono pos) (simp add: near_def)
  ultimately show ?thesis
    using assms by (simp add: near_def power_add mult.assoc mult.commute mult.left_commute)
qed

lemma near_mult:
  assumes "near j x x'" and "near k y y'"
  shows "near (j + k) (x * y) (x' * y')"
proof -
  have pos: "0 \<le> (1 - eps) ^ n" for n using eps_bounds by simp
  have "(x * (1 - eps) ^ j) * (y * (1 - eps) ^ k) \<le> x' * y'"
    using assms pos by (intro mult_mono) (simp_all add: near_def)
  moreover have "(x' * (1 - eps) ^ j) * (y' * (1 - eps) ^ k) \<le> x * y"
    using assms pos by (intro mult_mono) (simp_all add: near_def)
  ultimately show ?thesis
    using assms by (simp add: near_def power_add mult.assoc mult.left_commute)
qed

lemma near_inverse:
  assumes "near k x y" and "0 < x"
  shows "near k (1 / x) (1 / y)"
proof -
  have c: "0 < (1 - eps) ^ k" using eps_bounds by simp
  have "0 < x * (1 - eps) ^ k" using assms(2) c by simp
  with assms(1) have y: "0 < y" by (simp add: near_def)
  with assms c show ?thesis by (simp add: near_def divide_simps mult.commute)
qed

lemma near_divide: "near j x x' \<Longrightarrow> near k y y' \<Longrightarrow> 0 < y \<Longrightarrow> near (j + k) (x / y) (x' / y')"
  using near_mult [OF _ near_inverse, of j x x' k y y'] by simp

lemma near_round:
  assumes "x = 0 \<or> 2 powi (- 1022) \<le> x"
  shows "near 1 x (round_f64 x)"
proof (cases "x = 0")
  case True
  then show ?thesis by (simp add: near_def round_f64_def)
next
  case False
  with assms have x: "2 powi (- 1022) \<le> x" by simp
  then have pos: "0 \<le> x" using powi_pos [of "- 1022"] by linarith
  from round_f64_error [OF x] have "\<bar>round_f64 x - x\<bar> \<le> x * eps" by (simp add: eps_def)
  then have "x - x * eps \<le> round_f64 x" "round_f64 x \<le> x + x * eps" by linarith+
  moreover from this(2) have "round_f64 x * (1 - eps) \<le> (x + x * eps) * (1 - eps)"
    using eps_bounds by (intro mult_right_mono) auto
  moreover have "(x + x * eps) * (1 - eps) = x - x * eps * eps" by (simp add: algebra_simps)
  moreover have "0 \<le> x * eps * eps" using pos eps_bounds by simp
  ultimately show ?thesis
    using pos round_f64_nonneg [OF pos] by (simp add: near_def algebra_simps)
qed

lemma near_error:
  assumes "near k x y" and "2 * of_nat k * eps \<le> 1"
  shows "\<bar>y - x\<bar> \<le> 2 * of_nat k * eps * x"
proof -
  have xy: "0 \<le> x" "0 \<le> y" using assms(1) by (simp_all add: near_def)
  have bern: "1 - of_nat k * eps \<le> (1 - eps) ^ k"
    using Bernoulli_inequality [of "- eps" k] eps_bounds by simp
  have "x * (1 - of_nat k * eps) \<le> x * (1 - eps) ^ k" "y * (1 - of_nat k * eps) \<le> y * (1 - eps) ^ k"
    using xy bern by (simp_all add: mult_left_mono)
  with assms(1) have low: "x - x * (of_nat k * eps) \<le> y" and up: "y - y * (of_nat k * eps) \<le> x"
    by (simp_all add: near_def algebra_simps)
  have half: "of_nat k * eps \<le> 1 / 2" using assms(2) by simp
  have "y * (of_nat k * eps) \<le> y * (1 / 2)" using half xy by (intro mult_left_mono)
  with up have "y \<le> 2 * x" by simp
  then have "y * (of_nat k * eps) \<le> 2 * x * (of_nat k * eps)"
    using eps_bounds by (intro mult_right_mono) simp_all
  moreover have "0 \<le> x * (of_nat k * eps)" using xy eps_bounds by simp
  ultimately show ?thesis using low up by (simp add: abs_le_iff algebra_simps)
qed

lemma tiny: "(2::rat) powi (- 1022) \<le> 1 / 2 ^ 100"
proof -
  have "(2::rat) powi (- 1022) \<le> 2 powi (- 100)" by (rule powi_mono) simp
  also have "2 powi (- 100) = 1 / (2::rat) ^ 100" by (simp only: power_int_minus_divide power_int_numeral)
  finally show ?thesis .
qed

lemma near_big: "1 / 2 ^ 100 \<le> x \<Longrightarrow> near 1 x (round_f64 x)"
  using tiny by (intro near_round) auto

lemma one_le_of_nat: "n \<noteq> 0 \<Longrightarrow> 1 \<le> (of_nat n :: rat)"
  by (cases n) simp_all

lemma near_u64: "near 1 (of_nat (unat w)) (f64_of_u64 w)"
proof (cases "unat w = 0")
  case True
  then show ?thesis by (simp add: f64_of_u64_def near_def round_f64_def)
next
  case False
  from one_le_of_nat [OF this] have "1 / 2 ^ 100 \<le> (of_nat (unat w) :: rat)" by (rule order_trans [rotated]) simp
  then show ?thesis unfolding f64_of_u64_def by (rule near_big)
qed

section \<open>The printed numbers\<close>

text \<open>Chain time: three roundings, of the count, of the constant and of the product.\<close>

lemma near_chain_secs: "near 3 (of_nat (unat w) * (4 / 10)) (chain_secs w)"
proof (cases "unat w = 0")
  case True
  then show ?thesis by (simp add: chain_secs_def f64_of_u64_def f64_mul_def near_def round_f64_def)
next
  case False
  then have one: "1 \<le> (of_nat (unat w) :: rat)" by (rule one_le_of_nat)
  have const: "near 1 (4 / 10) (round_f64 (4 / 10))" by (rule near_big) simp
  define p where "p = f64_of_u64 w * round_f64 (4 / 10)"
  have p: "near 2 (of_nat (unat w) * (4 / 10)) p"
    unfolding p_def using near_mult [OF near_u64 const, of w] by (simp add: numeral_2_eq_2)
  have "1 / 2 ^ 100 \<le> (1::rat) * (4 / 10) * (1 - eps) ^ 2" by (simp add: eps_def power2_eq_square)
  also have "\<dots> \<le> of_nat (unat w) * (4 / 10) * (1 - eps) ^ 2"
    using one by (intro mult_right_mono) simp_all
  also have "\<dots> \<le> p" using p by (simp add: near_def)
  finally have "near 1 p (chain_secs w)"
    unfolding chain_secs_def f64_mul_def p_def [symmetric] by (rule near_big)
  from near_trans [OF p this] show ?thesis by simp
qed

lemma chain_secs_pos: "0 < chain_secs w \<longleftrightarrow> w \<noteq> 0"
proof (cases "w = 0")
  case True
  then show ?thesis by (simp add: chain_secs_def f64_of_u64_def f64_mul_def round_f64_def)
next
  case False
  then have "unat w \<noteq> 0" by (simp add: unat_eq_0)
  from one_le_of_nat [OF this] have "0 < (of_nat (unat w) :: rat)" by linarith
  then have "0 < (of_nat (unat w) :: rat) * (4 / 10) * (1 - eps) ^ 3"
    using eps_bounds by (intro mult_pos_pos zero_less_power) auto
  also have "\<dots> \<le> chain_secs w" using near_chain_secs [of w] by (simp add: near_def)
  finally show ?thesis using False by simp
qed

text \<open>Tenths of an even number are at least a tenth away from a tie.\<close>

lemma nearest_tenths:
  assumes "\<bar>x - of_nat (4 * n) / 10\<bar> < 1 / 10"
  shows "half_even x = int ((4 * n + 5) div 10)"
proof (rule half_even_unique)
  define q r where "q = (4 * n + 5) div 10" and "r = (4 * n + 5) mod 10"
  have qr: "4 * n + 5 = 10 * q + r" "r < 10" by (simp_all add: q_def r_def)
  then have "odd r" by presburger
  with qr(2) have r: "1 \<le> r" "r \<le> 9" by presburger+
  have "(of_nat (4 * n + 5) :: rat) = of_nat (10 * q + r)" by (simp only: qr(1))
  then have "of_nat (4 * n) / 10 - of_nat q = of_nat r / (10 :: rat) - 1 / 2" by simp
  moreover have "1 \<le> (of_nat r :: rat)" using r(1) by (intro one_le_of_nat) simp
  moreover have "(of_nat r :: rat) \<le> 9" using r(2) by (metis of_nat_le_iff of_nat_numeral)
  moreover have "\<bar>x - b\<bar> < 1 / 2"
    if "a - b = c / 10 - 1 / 2" "1 \<le> c" "c \<le> 9" "\<bar>x - a\<bar> < 1 / 10" for a b c :: rat
    using that by linarith
  ultimately show "\<bar>x - of_int (int q)\<bar> < 1 / 2"
    unfolding of_int_of_nat_eq using assms by blast
qed

lemma chain_secs_text:
  assumes "unat w \<le> 2 ^ 48"
  shows "fixed 0 (chain_secs w) = decimal ((4 * unat w + 5) div 10)"
proof -
  have bound: "(of_nat (unat w) :: rat) \<le> 2 ^ 48"
    using assms by (metis of_nat_le_iff of_nat_numeral of_nat_power)
  have "\<bar>chain_secs w - of_nat (unat w) * (4 / 10)\<bar> \<le> 2 * of_nat 3 * eps * (of_nat (unat w) * (4 / 10))"
    by (rule near_error [OF near_chain_secs]) (simp add: eps_def)
  also have "\<dots> \<le> 2 * of_nat 3 * eps * (2 ^ 48 * (4 / 10))"
    using bound eps_bounds by (intro mult_left_mono mult_right_mono) simp_all
  also have "\<dots> < 1 / 10" by (simp add: eps_def)
  finally have "half_even (chain_secs w) = int ((4 * unat w + 5) div 10)"
    by (intro nearest_tenths) (simp add: algebra_simps)
  then show ?thesis by (simp add: fixed_0 fixed_units_def)
qed

text \<open>Shares: six roundings.\<close>

definition share_units :: "u64 \<Rightarrow> u64 \<Rightarrow> nat" where
  "share_units part whole = fixed_units 2 (percent part whole)"

lemma f64_of_u64_mono: "a \<le> b \<Longrightarrow> f64_of_u64 a \<le> f64_of_u64 b"
  unfolding f64_of_u64_def by (intro round_f64_mono) (simp_all add: word_le_nat_alt del: of_nat_unat)

lemma f64_of_u64_nonneg: "0 \<le> f64_of_u64 w"
  unfolding f64_of_u64_def by (intro round_f64_nonneg of_nat_0_le_iff)

lemma percent_mono: "a \<le> b \<Longrightarrow> percent a whole \<le> percent b whole"
  unfolding percent_def f64_mul_def f64_div_def
  by (auto intro!: round_f64_mono divide_right_mono divide_nonneg_nonneg round_f64_nonneg mult_nonneg_nonneg
      f64_of_u64_mono f64_of_u64_nonneg)

lemma share_units_mono: "a \<le> b \<Longrightarrow> share_units a whole \<le> share_units b whole"
  unfolding share_units_def by (intro fixed_units_mono percent_mono)

lemma near_percent:
  assumes "whole \<noteq> 0"
  shows "near 4 (100 * of_nat (unat part) / of_nat (unat whole)) (percent part whole)"
proof (cases "unat part = 0")
  case True
  then show ?thesis by (simp add: percent_def f64_of_u64_def f64_mul_def f64_div_def near_def round_f64_def)
next
  case False
  let ?p = "of_nat (unat part) :: rat" and ?w = "of_nat (unat whole) :: rat"
  have p: "1 \<le> ?p" using False by (rule one_le_of_nat)
  have "unat whole \<noteq> 0" using assms by (simp add: unat_eq_0)
  then have w: "1 \<le> ?w" by (rule one_le_of_nat)
  have "unat whole \<le> 2 ^ 64" using unsigned_less [where 'a = nat, of whole] by simp
  then have big: "?w \<le> 2 ^ 64" by (metis of_nat_le_iff of_nat_numeral of_nat_power)
  define m where "m = 100 * f64_of_u64 part"
  have m: "near 1 (100 * ?p) m"
    unfolding m_def using near_mult [OF near_refl near_u64, of 100 part] by simp
  then have "100 * ?p * (1 - eps) \<le> m" by (simp add: near_def)
  moreover have "100 * 1 * (1 - eps) \<le> 100 * ?p * (1 - eps)"
    using p eps_bounds by (intro mult_right_mono mult_left_mono) simp_all
  moreover have "1 / 2 ^ 100 \<le> 100 * 1 * (1 - eps)" by (simp add: eps_def)
  ultimately have "1 / 2 ^ 100 \<le> m" by linarith
  then have m2: "near 2 (100 * ?p) (f64_mul 100 (f64_of_u64 part))"
    using near_trans [OF m near_big] by (simp add: f64_mul_def m_def numeral_2_eq_2)
  define q where "q = f64_mul 100 (f64_of_u64 part) / f64_of_u64 whole"
  have q: "near 3 (100 * ?p / ?w) q"
    unfolding q_def using near_divide [OF m2 near_u64] w by simp
  have "1 / 2 ^ 100 \<le> 100 * 1 / 2 ^ 64 * (1 - eps) ^ 3" by (simp add: eps_def power3_eq_cube)
  also have "\<dots> \<le> 100 * ?p / ?w * (1 - eps) ^ 3"
    using p w big eps_bounds by (intro mult_right_mono frac_le) simp_all
  also have "\<dots> \<le> q" using q by (simp add: near_def)
  finally have "near 1 q (round_f64 q)" by (rule near_big)
  moreover have "percent part whole = round_f64 q" using assms by (simp add: percent_def f64_div_def q_def)
  ultimately have "near 1 q (percent part whole)" by simp
  from near_trans [OF q this] show ?thesis by simp
qed

lemma share_units_near:
  assumes "part \<le> whole" and "whole \<noteq> 0"
  shows "\<bar>of_nat (share_units part whole) - 10000 * of_nat (unat part) / of_nat (unat whole)\<bar> \<le> (501 / 1000 :: rat)"
proof -
  define x where "x = 100 * of_nat (unat part) / (of_nat (unat whole) :: rat)"
  have "unat whole \<noteq> 0" using assms(2) by (simp add: unat_eq_0)
  then have w: "1 \<le> (of_nat (unat whole) :: rat)" by (rule one_le_of_nat)
  have "(of_nat (unat part) :: rat) \<le> of_nat (unat whole)"
    using assms(1) by (simp only: of_nat_le_iff word_le_nat_alt)
  with w have x: "0 \<le> x" "x \<le> 100" by (simp_all add: x_def divide_le_eq del: of_nat_unat)
  have near: "near 4 x (percent part whole)"
    unfolding x_def by (rule near_percent [OF assms(2)])
  have "\<bar>percent part whole - x\<bar> \<le> 2 * of_nat 4 * eps * x"
    by (rule near_error [OF near]) (simp add: eps_def)
  also have "\<dots> \<le> 2 * of_nat 4 * eps * 100" using x eps_bounds by (intro mult_left_mono) simp_all
  also have "\<dots> \<le> 1 / 100000" by (simp add: eps_def)
  finally have "\<bar>percent part whole - x\<bar> \<le> 1 / 100000" .
  moreover have "0 \<le> percent part whole" using near by (simp add: near_def)
  then have "\<bar>of_nat (share_units part whole) - percent part whole * 100\<bar> \<le> 1 / 2"
    using fixed_units_near [of "percent part whole" 2] by (simp add: share_units_def)
  ultimately have "\<bar>of_nat (share_units part whole) - 100 * x\<bar> \<le> 501 / 1000" by linarith
  then show ?thesis by (simp add: x_def mult.assoc del: of_nat_unat)
qed

lemma share_units_all:
  assumes "part \<le> whole"
  shows "share_units part whole \<le> 10000"
proof (cases "whole = 0")
  case True
  then show ?thesis by (simp add: share_units_def percent_def fixed_units_def)
next
  case False
  have "unat whole \<noteq> 0" using False by (simp add: unat_eq_0)
  from one_le_of_nat [OF this] have "10000 * of_nat (unat whole) / of_nat (unat whole) = (10000 :: rat)"
    by (simp del: of_nat_unat)
  with share_units_near [OF order_refl False]
  have "\<bar>of_nat (share_units whole whole) - 10000\<bar> \<le> (501 / 1000 :: rat)" by metis
  then have "(of_nat (share_units whole whole) :: rat) < 10001" by linarith
  then have "(of_nat (share_units whole whole) :: rat) < of_nat 10001" by (simp only: of_nat_numeral)
  then have "share_units whole whole \<le> 10000" by (simp only: of_nat_less_iff)
  with share_units_mono [OF assms, of whole] show ?thesis by simp
qed

text \<open>
  Two oddities of the summary. A span counts the steps between its two ends while the carrying slots count
  both ends, so the density of a short busy run exceeds a hundred percent. And the kind column is two
  characters too narrow for an unknown discriminator, whose rows stand out of the table.
\<close>

lemma density_over_100: "fixed_units 1 (percent 2 1) = 2000"
proof -
  have "f64_of_u64 2 = 2" "f64_of_u64 1 = 1"
    using f64_of_u64_exact [of 2] f64_of_u64_exact [of 1] by simp_all
  then have "percent 2 1 = 200"
    using round_f64_int [of 200] by (simp add: percent_def f64_mul_def f64_div_def)
  then show ?thesis using half_even_of_int [of 2000] by (simp add: fixed_units_def)
qed

lemma length_table_head: "length table_head = 49"
  by (simp add: table_head_def pad_left_def pad_right_def)

lemma length_share_text:
  assumes "part \<le> whole"
  shows "length (fixed 2 (percent part whole)) \<le> 6"
proof -
  have "share_units part whole div 100 < 10 ^ 3" using share_units_all [OF assms] by simp
  then have "length (decimal (share_units part whole div 100)) \<le> 3" by (rule length_decimal_le) simp
  moreover have "length (pad_left (CHR ''0'') 2 (decimal (share_units part whole mod 100))) = 2"
    by (intro length_pad_left length_decimal_le) simp_all
  ultimately show ?thesis by (simp add: fixed_def Let_def share_units_def)
qed

lemma length_table_row:
  assumes "n \<le> updates" and "len < 10 ^ 9" and "unat n < 10 ^ 8"
  shows "length (table_row updates ((kind, len), n)) = max 22 (length (kind_text kind)) + 27"
proof -
  have "length (decimal len) \<le> 9" "length (show_u64 n) \<le> 8"
    using assms by (simp_all add: show_u64_def length_decimal_le)
  then show ?thesis
    using length_share_text [OF assms(1)] by (simp add: table_row_def pad_left_def pad_right_def max_def)
qed

lemma unknown_row_stands_out:
  "length disc = 8 \<Longrightarrow> n \<le> updates \<Longrightarrow> len < 10 ^ 9 \<Longrightarrow> unat n < 10 ^ 8 \<Longrightarrow>
     length (table_row updates ((Unknown disc, len), n)) = length table_head + 2"
  by (simp add: length_table_row length_table_head)

section \<open>Properties\<close>

text \<open>
  C30 The seconds of chain time are right to the unit. The summary's span and the lag line's distance to the tip are
  multiplied by 0.4 in floating point and cut to whole seconds; up to \<open>2 ^ 48\<close> slots, some three
  million years, the number printed is four tenths of the slots rounded to the nearest
  integer, no rounding error ever shows. The bandwidth line, which divides by those seconds, is printed
  exactly when the span is not zero.
\<close>

theorem chain_time_printed:
  assumes "unat (slot_span ix) \<le> 2 ^ 48" and "unat (behind ix) \<le> 2 ^ 48"
  shows "summary_lines (summarize ix) ! 1 =
      ''slots '' @ show_u64 (case ix_first_slot ix of Some s \<Rightarrow> s | None \<Rightarrow> 0) @ ''..'' @ show_u64 (ix_last_slot ix)
      @ '' '' @ long_dash @ '' span '' @ show_u64 (slot_span ix)
      @ '' (~'' @ decimal ((4 * unat (slot_span ix) + 5) div 10) @ ''s chain time)''
    \<and> (if 0 < ix_tip_slot ix then \<exists>rest. lag_text now ix =
          Some (''lag tip='' @ show_u64 (ix_tip_slot ix) @ '' processed='' @ show_u64 (ix_last_slot ix)
            @ '' behind='' @ show_u64 (behind ix) @ '' slots (~'' @ decimal ((4 * unat (behind ix) + 5) div 10)
            @ ''s) | stream_lag='' @ rest)
       else lag_text now ix = None)
    \<and> length (summary_lines (summarize ix)) =
        6 + length (ix_tally ix) + (if slot_span ix = 0 then 0 else 1)"
  using chain_secs_text [OF assms(1)] chain_secs_text [OF assms(2)]
  by (simp add: summary_lines_def summarize_def lag_text_def Let_def chain_secs_pos summary_rows_def)

definition report_state :: indexer where
  "report_state = indexer_new False empty_db
     \<lparr>ix_first_slot := Some 1000, ix_last_slot := 1006, ix_tip_slot := 1009, ix_slots_with_updates := 7,
      ix_tally := [((Known ''Reserve'', 8624), 2), ((Known ''Obligation'', 3344), 5)]\<rparr>"

theorem chain_time_printed_witness:
  "summary_lines (summarize report_state) ! 1 =
     ''slots 1000..1006 '' @ long_dash @ '' span 6 (~2s chain time)''"
proof -
  have span: "slot_span report_state = 6" and behind: "behind report_state = 3"
    by (simp_all add: report_state_def indexer_new_def slot_span_def behind_def saturating_sub_def)
  have "unat (slot_span report_state) \<le> 2 ^ 48" "unat (behind report_state) \<le> 2 ^ 48"
    by (simp_all add: span behind)
  from chain_time_printed [OF this, THEN conjunct1] show ?thesis
    by (simp add: span show_u64_def) (simp add: report_state_def decimal.simps digit_char_def char_of_def bit_0)
qed

text \<open>A row of the table as it should read: the share as a number of hundredths of a percent.\<close>

definition row_showing :: "(account_kind \<times> nat) \<times> u64 \<Rightarrow> nat \<Rightarrow> string" where
  "row_showing row share =
     (case row of ((kind, len), n) \<Rightarrow>
        pad_right (CHR '' '') 22 (kind_text kind) @ '' '' @ pad_left (CHR '' '') 9 (decimal len) @ '' ''
        @ pad_left (CHR '' '') 8 (decimal (unat n)) @ '' ''
        @ pad_left (CHR '' '') 6 (decimal (share div 100) @ ''.'' @ zero_pad 2 (decimal (share mod 100))) @ ''%'')"

lemma table_row_showing: "table_row whole row = row_showing row (share_units (snd row) whole)"
  by (simp add: table_row_def row_showing_def fixed_def Let_def share_units_def show_u64_def zero_pad_def
      pad_left_def split_beta)

text \<open>
  C32 The share column of the printed table is sound. As long as fewer than \<open>2 ^ 64\<close> updates were counted, the lines
  of the summary between the head of its table and the last line are one per row, in the order of the rows: kind, payload
  length, count, and the share as a number of hundredths of a percent with two decimals. That number is the share of the
  count in the total with an error of at most 0.501 hundredths, the half that
  rounding to two digits costs and the floating-point error; no share exceeds 100.00; and the shares
  descend down the table.
\<close>

theorem share_column:
  assumes "sum_list (map (unat \<circ> snd) (ix_tally ix)) < 2 ^ 64"
  shows "let s = summarize ix; counted = sum_list (map (unat \<circ> snd) (ix_tally ix))
    in \<exists>totals shares.
         summary_lines s = totals @ table_head # map2 row_showing (sm_rows s) shares @ [sm_payload_line s]
       \<and> length totals = (if sm_slot_span s = 0 then 4 else 5)
       \<and> list_all2 (\<lambda>((kind, len), n) share. share \<le> 10000
            \<and> (n = 0 \<or> \<bar>of_nat share - 10000 * of_nat (unat n) / of_nat counted\<bar> \<le> (501 / 1000 :: rat)))
           (sm_rows s) shares
       \<and> sorted_wrt (\<ge>) shares"
proof -
  let ?s = "summarize ix" and ?counted = "sum_list (map (unat \<circ> snd) (ix_tally ix))"
  let ?whole = "sm_total_updates ?s"
  let ?shares = "map (\<lambda>(k, n). share_units n ?whole) (sm_rows ?s)"
  have whole: "unat ?whole = ?counted"
  proof -
    have "sum_list (map (unat \<circ> snd) t) < 2 ^ 64 \<Longrightarrow>
        unat (sum_list (map snd t)) = sum_list (map (unat \<circ> snd) t)" for t :: tally
      by (induction t) (simp_all add: unat_word_ariths)
    from this [OF assms] show ?thesis by (simp add: summarize_def total_updates_def)
  qed
  have le: "n \<le> ?whole" if "(k, n) \<in> set (sm_rows ?s)" for k n
  proof -
    from that have "unat n \<in> set (map (unat \<circ> snd) (ix_tally ix))"
      by (force simp: summarize_def summary_rows_def)
    from member_le_sum_list [OF this] show ?thesis by (simp add: word_le_nat_alt whole)
  qed
  have bound: "n = 0 \<or> \<bar>of_nat (share_units n ?whole) - 10000 * of_nat (unat n) / of_nat ?counted\<bar> \<le> (501 / 1000 :: rat)"
    if "(k, n) \<in> set (sm_rows ?s)" for k n
  proof (cases "?whole = 0")
    case True
    with le [OF that] show ?thesis by simp
  next
    case False
    from share_units_near [OF le [OF that] False] show ?thesis unfolding whole by simp
  qed
  have "list_all2 (\<lambda>((kind, len), n) share. share \<le> 10000
      \<and> (n = 0 \<or> \<bar>of_nat share - 10000 * of_nat (unat n) / of_nat ?counted\<bar> \<le> (501 / 1000 :: rat))) (sm_rows ?s) ?shares"
    unfolding list.rel_map(2) by (rule list.rel_refl_strong) (use bound share_units_all [OF le] in auto)
  moreover have "sorted_wrt (\<ge>) ?shares"
  proof -
    have "sorted (map row_key (sm_rows ?s))" by (simp add: summarize_def summary_rows_def)
    then show ?thesis
      unfolding sorted_wrt_map
      by (rule sorted_wrt_mono_rel [rotated])
        (auto simp: row_key_def not_order less_eq_prod_def intro!: share_units_mono)
  qed
  moreover have "map (table_row ?whole) (sm_rows ?s) = map2 row_showing (sm_rows ?s) ?shares"
    by (rule nth_equalityI) (simp_all add: table_row_showing split_beta)
  then obtain totals where
    "summary_lines ?s = totals @ table_head # map2 row_showing (sm_rows ?s) ?shares @ [sm_payload_line ?s]"
    "length totals = (if sm_slot_span ?s = 0 then 4 else 5)"
    unfolding summary_lines_def chain_secs_pos
    by (cases "sm_slot_span ?s = 0") simp_all
  ultimately show ?thesis unfolding Let_def by blast
qed

text \<open>Five of seven updates are 71.43 percent, two are 28.57.\<close>

theorem share_column_witness:
  "\<exists>totals. summary_lines (summarize report_state) = totals @
     [table_head, row_showing ((Known ''Obligation'', 3344), 5) 7143, row_showing ((Known ''Reserve'', 8624), 2) 2857,
      sm_payload_line (summarize report_state)]"
proof -
  have sum: "sum_list (map (unat \<circ> snd) (ix_tally report_state)) = 7"
    by (simp add: report_state_def)
  then have small: "sum_list (map (unat \<circ> snd) (ix_tally report_state)) < 2 ^ 64" by simp
  have rows: "sm_rows (summarize report_state) = [((Known ''Obligation'', 3344), 5), ((Known ''Reserve'', 8624), 2)]"
    by (simp add: summarize_def report_state_def summary_rows_def row_key_def not_order less_eq_prod_def)
  have exact: "a = b" if "\<bar>of_nat a - x\<bar> \<le> (501 / 1000 :: rat)" "\<bar>of_nat b - x\<bar> < 498 / 1000" for a b :: nat and x
  proof -
    have "of_nat a < (of_nat (Suc b) :: rat)" "of_nat b < (of_nat (Suc a) :: rat)" using that unfolding of_nat_Suc by linarith+
    then show ?thesis by (simp only: of_nat_less_iff)
  qed
  from share_column [OF small, unfolded sum rows Let_def] obtain totals shares where
    lines: "summary_lines (summarize report_state) = totals @ table_head #
        map2 row_showing [((Known ''Obligation'', 3344), 5), ((Known ''Reserve'', 8624), 2)] shares
        @ [sm_payload_line (summarize report_state)]"
    and shares: "list_all2 (\<lambda>((kind, len), n) share. share \<le> 10000
            \<and> (n = 0 \<or> \<bar>of_nat share - 10000 * of_nat (unat n) / of_nat 7\<bar> \<le> (501 / 1000 :: rat)))
        [((Known ''Obligation'', 3344 :: nat), 5 :: u64), ((Known ''Reserve'', 8624), 2)] shares" by blast
  from shares obtain a b where ab: "shares = [a, b]" "\<bar>of_nat a - 50000 / 7\<bar> \<le> (501 / 1000 :: rat)"
    "\<bar>of_nat b - 20000 / 7\<bar> \<le> (501 / 1000 :: rat)"
    by (auto simp: list_all2_Cons1)
  have "a = 7143" by (rule exact [OF ab(2)]) simp
  moreover have "b = 2857" by (rule exact [OF ab(3)]) simp
  ultimately show ?thesis using lines ab(1) by auto
qed

end
