(* ===== verification/Snapshot_Run.thy ===== *)
theory Snapshot_Run
  imports Snapshot_Facts
begin

text \<open>
  A whole run of the snapshot writer: all pages of a scope, the totals, and \<open>main\<close>, whose run
  row comes last.
\<close>

section \<open>All pages\<close>

type_synonym rpc_page = "u64 \<times> rpc_account list"

definition fetched :: "('j, 'x) rpc_api_scheme \<Rightarrow> string \<Rightarrow> page_request \<Rightarrow> rpc_page \<Rightarrow> bool" where
  "fetched api rpc_url req r \<longleftrightarrow> get_program_accounts api rpc_url (fst req) (snd req) = Inr r"

lemma fetched_pair: "fetched api rpc_url (disc, page) r \<longleftrightarrow> get_program_accounts api rpc_url disc page = Inr r"
  by (simp add: fetched_def)

text \<open>The accounts of the answers, each with its answer's slot, and the rows they become.\<close>

definition accounts_of_pages :: "rpc_page list \<Rightarrow> (u64 \<times> rpc_account) list" where
  "accounts_of_pages rs = concat (map (\<lambda>(slot, accounts). map (Pair slot) accounts) rs)"

definition rows_of_pages :: "decoder_env \<Rightarrow> rpc_page list \<Rightarrow> data_row list" where
  "rows_of_pages de rs = concat (map (\<lambda>(slot, a). snapshot_rows de slot a) (accounts_of_pages rs))"

lemma pages_Nil [simp]: "accounts_of_pages [] = []" "rows_of_pages de [] = []"
  by (simp_all add: accounts_of_pages_def rows_of_pages_def)

lemma pages_Cons [simp]:
  "accounts_of_pages ((slot, accounts) # rs) = map (Pair slot) accounts @ accounts_of_pages rs"
  "rows_of_pages de ((slot, accounts) # rs) = concat (map (snapshot_rows de slot) accounts) @ rows_of_pages de rs"
  by (simp_all add: accounts_of_pages_def rows_of_pages_def comp_def)

lemma run_pages_tables [simp]:
  "stream_tables (fst (run_pages api de ins client rpc_url pages t db)) = stream_tables db"
proof (induction pages arbitrary: t db)
  case (Cons p pages)
  obtain disc page where p: "p = (disc, page)" by fastforce
  show ?case
    using fetch_tables [of api de ins client rpc_url disc page db]
    by (auto simp: p Cons.IH split: prod.splits outcome.splits)
qed simp

lemma run_pages_dry [simp]: "fst (run_pages api de ins False rpc_url pages t db) = db"
proof (induction pages arbitrary: t db)
  case (Cons p pages)
  obtain disc page where p: "p = (disc, page)" by fastforce
  show ?case
    using fetch_dry [of api de ins rpc_url disc page db]
    by (auto simp: p Cons.IH split: prod.splits outcome.splits)
qed simp

text \<open>What the totals say of the answers of a run.\<close>

definition totals_of :: "decoder_env \<Rightarrow> rpc_page list \<Rightarrow> totals \<Rightarrow> totals \<Rightarrow> bool" where
  "totals_of de rs t t' \<longleftrightarrow>
     tt_accounts t' = tt_accounts t + of_nat (length (accounts_of_pages rs))
     \<and> tt_max_slot t' = fold max (map fst rs) (tt_max_slot t)
     \<and> tt_decode_failures t' = tt_decode_failures t
         + of_nat (length (filter (\<lambda>(slot, a). decode_fails de a) (accounts_of_pages rs)))"

lemma run_pages_Done:
  "run_pages api de ins client rpc_url pages t db = (db', Done t') \<Longrightarrow>
     \<exists>rs. list_all2 (fetched api rpc_url) pages rs \<and> totals_of de rs t t'
       \<and> (client \<longrightarrow> bag_in db' = bag_in db + mset (rows_of_pages de rs)
            \<and> tt_rows_written t' = tt_rows_written t + of_nat (length (rows_of_pages de rs)))"
proof (induction pages arbitrary: t db)
  case Nil
  then show ?case by (simp add: totals_of_def)
next
  case (Cons p pages)
  obtain disc page where p: "p = (disc, page)" by fastforce
  with Cons.prems obtain db1 r where r: "fetch_and_write api de ins client rpc_url disc page db = (db1, Done r)"
    and rest: "run_pages api de ins client rpc_url pages (absorb r t) db1 = (db', Done t')"
    by (auto split: prod.splits outcome.splits)
  obtain slot accounts where got: "get_program_accounts api rpc_url disc page = Inr (slot, accounts)"
    "pr_slot r = slot" "pr_accounts r = of_nat (length accounts)"
    "pr_decode_failures r = of_nat (length (filter (decode_fails de) accounts))"
    "client \<Longrightarrow> bag_in db1 = bag_in db + mset (concat (map (snapshot_rows de slot) accounts))"
    "client \<Longrightarrow> pr_rows_written r = of_nat (length (concat (map (snapshot_rows de slot) accounts)))"
    using fetch_Done [OF r] by blast
  obtain rs where rs: "list_all2 (fetched api rpc_url) pages rs" "totals_of de rs (absorb r t) t'"
    "client \<longrightarrow> bag_in db' = bag_in db1 + mset (rows_of_pages de rs)
       \<and> tt_rows_written t' = tt_rows_written (absorb r t) + of_nat (length (rows_of_pages de rs))"
    using Cons.IH [OF rest] by blast
  have "filter (\<lambda>(slot, a). decode_fails de a) (map (Pair slot) accounts) = map (Pair slot) (filter (decode_fails de) accounts)"
    by (simp add: filter_map comp_def)
  then have "totals_of de ((slot, accounts) # rs) t t'"
    using rs(2) got(2-4) by (simp add: totals_of_def absorb_def max.commute)
  then show ?case
    by (intro exI [of _ "(slot, accounts) # rs"])
      (use rs got p in \<open>simp add: fetched_pair absorb_def\<close>)
qed

section \<open>\<open>main\<close>\<close>

lemma snapshot_sink_dry: "snapshot_sink cn env = Inr client \<Longrightarrow> env ''KLEND_SNAPSHOT_DRY_RUN'' = None \<or> \<not> client"
  by (auto simp: snapshot_sink_def)

lemma snapshot_main_cases:
  fixes env ins api de db elapsed_ms
  defines "pages \<equiv> \<lambda>client rpc_url filters.
      (case run_pages api de ins client rpc_url (concat (map filter_pages filters)) totals_default db of
        (db, Done t) \<Rightarrow> finish_snapshot ins client (unwrap_or (env ''KLEND_SNAPSHOT_SCOPE'') ''known'') elapsed_ms t db
      | (db, Fail e) \<Rightarrow> (db, Fail e)
      | (db, Hang) \<Rightarrow> (db, Hang))"
  obtains (early) "fst (snapshot_main api de cn env http_ok elapsed_ms ins db) = db"
  | (pages) client rpc_url filters where
      "scope_filters (unwrap_or (env ''KLEND_SNAPSHOT_SCOPE'') ''known'') = Some filters"
      and "env ''KLEND_SNAPSHOT_DRY_RUN'' = None \<or> \<not> client"
      and "snapshot_main api de cn env http_ok elapsed_ms ins db = pages client rpc_url filters"
proof (cases "rpc_url_of env")
  case (Inr rpc_url)
  show ?thesis
  proof (cases "scope_filters (unwrap_or (env ''KLEND_SNAPSHOT_SCOPE'') ''known'')")
    case scope: (Some filters)
    show ?thesis
    proof (cases "http_ok \<and> (\<exists>client. snapshot_sink cn env = Inr client)")
      case True
      then obtain client where sink: "http_ok" "snapshot_sink cn env = Inr client" by blast
      with Inr scope that(2) [OF scope snapshot_sink_dry [OF sink(2)]] show ?thesis
        by (simp add: snapshot_main_def Let_def pages_def)
    next
      case False
      then show ?thesis
        using Inr scope that(1) by (auto simp: snapshot_main_def Let_def split: sum.splits if_splits)
    qed
  qed (use Inr that(1) in \<open>simp add: snapshot_main_def Let_def\<close>)
qed (use that(1) in \<open>simp add: snapshot_main_def\<close>)

lemma runs_insert:
  "t_runs (fst (insert_block t_runs_update ins [row] db)) =
     t_runs db @ (if lands (ins (op_count db)) then [row] else [])"
  by (auto simp: insert_block_def Let_def landed_def lands_def split: ins_outcome.splits)

text \<open>What the rows of a run have to do with its run row.\<close>

definition row_slot :: "data_row \<Rightarrow> u64" where
  "row_slot r =
     (case r of Raw u \<Rightarrow> au_slot u | Obligation_Snapshot s \<Rightarrow> os_slot s | Reserve_Snapshot s \<Rightarrow> sr_slot s
      | Market_Snapshot s \<Rightarrow> ml_slot s)"

lemma row_slot_rows: "r \<in> set (snapshot_rows de slot a) \<Longrightarrow> row_slot r = slot"
  by (auto simp: snapshot_rows_def Let_def row_slot_def row_of_account_def raw_row_def obligation_row_def
      reserve_row_def market_row_def split: option.splits sum.splits if_splits)

lemma snapshot_rows_nonempty: "snapshot_rows de slot a \<noteq> []"
  by (simp add: snapshot_rows_def Let_def)

lemma length_snapshot_rows:
  "length (snapshot_rows de slot a) + (if decode_fails de a then 1 else 0) = 1 + (if decodable (account_kind_of de a) then 1 else 0)"
  by (auto simp: snapshot_rows_def Let_def decode_fails_def decodable_def split: option.splits sum.splits)

lemma slots_of_pages:
  "row_slot ` set (rows_of_pages de rs) = fst ` set (accounts_of_pages rs)"
proof -
  have one: "row_slot ` set (snapshot_rows de slot a) = {slot}" for slot a
  proof -
    have "hd (snapshot_rows de slot a) \<in> set (snapshot_rows de slot a)" by (simp add: snapshot_rows_nonempty)
    then have "slot \<in> row_slot ` set (snapshot_rows de slot a)" by (metis imageI row_slot_rows)
    then show ?thesis by (auto simp: row_slot_rows)
  qed
  have "row_slot ` set (rows_of_pages de rs) = (\<Union>x \<in> set (accounts_of_pages rs). {fst x})"
    by (simp add: rows_of_pages_def image_UN split_beta one)
  then show ?thesis by auto
qed

lemma count_of_pages:
  "length (rows_of_pages de rs) + length (filter (\<lambda>(slot, a). decode_fails de a) (accounts_of_pages rs))
     = length (accounts_of_pages rs) + length (filter (\<lambda>(slot, a). decodable (account_kind_of de a)) (accounts_of_pages rs))"
proof -
  have "length (concat (map (\<lambda>(slot, a). snapshot_rows de slot a) xs)) + length (filter (\<lambda>(slot, a). decode_fails de a) xs)
      = length xs + length (filter (\<lambda>(slot, a). decodable (account_kind_of de a)) xs)" for xs
  proof (induction xs)
    case (Cons x xs)
    then show ?case using length_snapshot_rows [of de "fst x" "snd x"] by (cases x) (auto split: if_splits)
  qed simp
  then show ?thesis by (simp add: rows_of_pages_def)
qed

text \<open>What a run leaves behind, and what its run row says.\<close>

lemma run_row_facts:
  "let (db', res) = snapshot_main api de cn env http_ok elapsed_ms ins db;
       scope = unwrap_or (env ''KLEND_SNAPSHOT_SCOPE'') ''known''
   in t_checkpoint db' = t_checkpoint db \<and> t_gaps db' = t_gaps db
     \<and> (env ''KLEND_SNAPSHOT_DRY_RUN'' = None \<or> db' = db)
     \<and> (t_runs db' = t_runs db
        \<or> (\<exists>rpc_url filters rs run. scope_filters scope = Some filters
             \<and> list_all2 (fetched api rpc_url) (concat (map filter_pages filters)) rs
             \<and> bag_in db' = bag_in db + mset (rows_of_pages de rs)
             \<and> t_runs db' = t_runs db @ [run] \<and> sn_accounts run \<noteq> 0
             \<and> run = \<lparr>sn_slot = fold max (map fst rs) 0, sn_scope = scope,
                 sn_accounts = of_nat (length (accounts_of_pages rs)),
                 sn_rows_written = of_nat (length (rows_of_pages de rs)),
                 sn_decode_failures =
                   of_nat (length (filter (\<lambda>(slot, a). decode_fails de a) (accounts_of_pages rs))),
                 sn_duration_ms = elapsed_ms\<rparr>))"
proof -
  define main where "main = snapshot_main api de cn env http_ok elapsed_ms ins db"
  define scope where "scope = unwrap_or (env ''KLEND_SNAPSHOT_SCOPE'') ''known''"
  have quiet: ?thesis if "fst main = db"
    using that by (simp add: main_def Let_def case_prod_beta)
  show ?thesis
  proof (cases rule: snapshot_main_cases [of api de cn env http_ok elapsed_ms ins db])
    case early
    then show ?thesis by (intro quiet) (simp add: main_def)
  next
    case (pages client rpc_url filters)
    obtain db1 res where run: "run_pages api de ins client rpc_url (concat (map filter_pages filters)) totals_default db
        = (db1, res)" by fastforce
    have kept: "t_checkpoint db1 = t_checkpoint db" "t_gaps db1 = t_gaps db" "t_runs db1 = t_runs db"
      using run_pages_tables [of api de ins client rpc_url "concat (map filter_pages filters)" totals_default db]
      by (simp_all add: run stream_tables_def)
    have main: "main = (case res of Done t \<Rightarrow> finish_snapshot ins client scope elapsed_ms t db1
        | Fail e \<Rightarrow> (db1, Fail e) | Hang \<Rightarrow> (db1, Hang))"
      unfolding main_def pages(3) run scope_def by simp
    show ?thesis
    proof (cases client)
      case False
      then have "db1 = fst (run_pages api de ins False rpc_url (concat (map filter_pages filters)) totals_default db)"
        using run by simp
      then have "db1 = db" by simp
      with main False show ?thesis
        by (intro quiet) (auto simp: finish_snapshot_def split: outcome.splits)
    next
      case True
      with pages(2) have wet: "env ''KLEND_SNAPSHOT_DRY_RUN'' = None" by simp
      show ?thesis
      proof (cases res)
        case (Done t)
        obtain rs where rs: "list_all2 (fetched api rpc_url) (concat (map filter_pages filters)) rs"
          and t: "totals_of de rs totals_default t" "tt_rows_written t = of_nat (length (rows_of_pages de rs))"
          and data: "bag_in db1 = bag_in db + mset (rows_of_pages de rs)"
          using run_pages_Done [OF run [unfolded Done]] True by (auto simp: totals_default_def)
        define row where "row = snapshot_run_row_of scope elapsed_ms t"
        define db' where "db' = fst main"
        have db': "db' = (if tt_accounts t = 0 then db1 else fst (insert_block t_runs_update ins [row] db1))"
          using main Done True by (simp add: db'_def finish_snapshot_def row_def)
        have same: "t_checkpoint db' = t_checkpoint db" "t_gaps db' = t_gaps db" "bag_in db' = bag_in db1"
          by (simp_all add: db' frame_simps kept bag_in_def)
        have runs: "t_runs db' = t_runs db \<or> (tt_accounts t \<noteq> 0 \<and> t_runs db' = t_runs db @ [row])"
          by (simp add: db' runs_insert kept)
        have row: "row = \<lparr>sn_slot = fold max (map fst rs) 0, sn_scope = scope,
            sn_accounts = of_nat (length (accounts_of_pages rs)),
            sn_rows_written = of_nat (length (rows_of_pages de rs)),
            sn_decode_failures = of_nat (length (filter (\<lambda>(slot, a). decode_fails de a) (accounts_of_pages rs))),
            sn_duration_ms = elapsed_ms\<rparr>" "sn_accounts row = tt_accounts t"
          using t by (simp_all add: row_def snapshot_run_row_of_def totals_of_def totals_default_def)
        from runs show ?thesis
        proof
          assume "t_runs db' = t_runs db"
          with same wet show ?thesis
            by (simp only: Let_def case_prod_beta db'_def main_def simp_thms)
        next
          assume r: "tt_accounts t \<noteq> 0 \<and> t_runs db' = t_runs db @ [row]"
          with rs pages(1) same(3) data row(2) row(1) have "\<exists>rpc_url filters rs run. scope_filters scope = Some filters
             \<and> list_all2 (fetched api rpc_url) (concat (map filter_pages filters)) rs
             \<and> bag_in db' = bag_in db + mset (rows_of_pages de rs)
             \<and> t_runs db' = t_runs db @ [run] \<and> sn_accounts run \<noteq> 0
             \<and> run = \<lparr>sn_slot = fold max (map fst rs) 0, sn_scope = scope,
                 sn_accounts = of_nat (length (accounts_of_pages rs)),
                 sn_rows_written = of_nat (length (rows_of_pages de rs)),
                 sn_decode_failures =
                   of_nat (length (filter (\<lambda>(slot, a). decode_fails de a) (accounts_of_pages rs))),
                 sn_duration_ms = elapsed_ms\<rparr>"
            unfolding scope_def [symmetric]
            by (intro exI [of _ rpc_url] exI [of _ filters] exI [of _ rs] exI [of _ row]) simp
          with same(1,2) wet show ?thesis
            by (simp only: Let_def case_prod_beta db'_def main_def scope_def simp_thms)
        qed
      qed (use main kept wet in \<open>simp_all add: Let_def flip: main_def\<close>)
    qed
  qed
qed

lemma fold_max_slots:
  "x \<in> set xs \<Longrightarrow> x \<le> fold max xs (y :: u64)" "y \<le> fold max xs (y :: u64)"
  by (induction xs arbitrary: y) (auto intro: order_trans [OF max.cobounded1] order_trans [OF max.cobounded2])

lemma slots_le_run:
  "row_slot ` set (rows_of_pages de rs) \<subseteq> {s. s \<le> fold max (map fst rs) 0}"
  unfolding slots_of_pages by (force simp: accounts_of_pages_def intro!: fold_max_slots(1))

lemma run_slot_on_every_row:
  "list_all (\<lambda>r. row_slot r = s) (rows_of_pages de rs) \<longleftrightarrow> list_all (\<lambda>(slot, accounts). accounts = [] \<or> slot = s) rs"
proof -
  have "list_all (\<lambda>r. row_slot r = s) (rows_of_pages de rs) \<longleftrightarrow> row_slot ` set (rows_of_pages de rs) \<subseteq> {s}"
    by (auto simp: list_all_iff)
  also have "\<dots> \<longleftrightarrow> fst ` set (accounts_of_pages rs) \<subseteq> {s}" by (simp only: slots_of_pages)
  also have "\<dots> \<longleftrightarrow> list_all (\<lambda>(slot, accounts). accounts = [] \<or> slot = s) rs"
  proof (induction rs)
    case (Cons r rs)
    obtain slot accounts where r: "r = (slot, accounts)" by fastforce
    have "fst ` set (accounts_of_pages (r # rs)) \<subseteq> {s}
        \<longleftrightarrow> (accounts = [] \<or> slot = s) \<and> fst ` set (accounts_of_pages rs) \<subseteq> {s}"
      by (cases accounts) (auto simp: r image_Un image_image simp del: subset_singleton_iff)
    with Cons show ?case by (simp add: r del: subset_singleton_iff)
  qed simp
  finally show ?thesis .
qed

lemma rows_and_failures:
  "of_nat (length (rows_of_pages de rs)) + of_nat (length (filter (\<lambda>(slot, a). decode_fails de a) (accounts_of_pages rs)))
   = (of_nat (length (accounts_of_pages rs))
     + of_nat (length (filter (\<lambda>(slot, a). decodable (account_kind_of de a)) (accounts_of_pages rs))) :: u64)"
  using arg_cong [OF count_of_pages [of de rs], of "of_nat :: nat \<Rightarrow> u64"] by simp

section \<open>Properties\<close>

text \<open>
  C6 A snapshot never moves the stream's resume point nor writes a gap, a dry run writes nothing
  at all, and a run row only appears once the data is complete: every call of the scope was
  answered, the four data tables gained exactly the rows of the answered accounts (each its raw
  row, and its decoded row when its kind decodes), and the row counts the accounts, which are
  not zero, the rows, raw and decoded together, and the decode failures, and is dated at the newest of the answers'
  slots. The comment of its table says otherwise of the last two points; the property after this one is about the difference.
\<close>

theorem run_row_after_the_data:
  "let (db', res) = snapshot_main api de cn env http_ok elapsed_ms ins db;
       scope = unwrap_or (env ''KLEND_SNAPSHOT_SCOPE'') ''known''
   in t_checkpoint db' = t_checkpoint db \<and> t_gaps db' = t_gaps db
     \<and> (env ''KLEND_SNAPSHOT_DRY_RUN'' = None \<or> db' = db)
     \<and> (t_runs db' = t_runs db
        \<or> (\<exists>rpc_url filters rs run. scope_filters scope = Some filters
             \<and> list_all2 (fetched api rpc_url) (concat (map filter_pages filters)) rs
             \<and> bag_in db' = bag_in db + mset (rows_of_pages de rs)
             \<and> t_runs db' = t_runs db @ [run] \<and> sn_accounts run \<noteq> 0
             \<and> run = \<lparr>sn_slot = fold max (map fst rs) 0, sn_scope = scope,
                 sn_accounts = of_nat (length (accounts_of_pages rs)),
                 sn_rows_written = of_nat (length (rows_of_pages de rs)),
                 sn_decode_failures =
                   of_nat (length (filter (\<lambda>(slot, a). decode_fails de a) (accounts_of_pages rs))),
                 sn_duration_ms = elapsed_ms\<rparr>))"
  by (rule run_row_facts)

text \<open>
  C39 What a run row says of the rows of its run, those of the answers to the calls of its scope, which is
  not what the comment of its table says. No row of the run has a later slot than the run row, and the run's slot is on every row exactly when every answer that
  returned accounts came from that one slot: the rows of an older answer keep their own. And the rows written exceed
  the accounts by one for every account that decoded, so with the failures they add up to the
  accounts and the accounts of a decodable kind, modulo \<open>2^64\<close>; they are not as many as the accounts when nothing fails.
\<close>

theorem run_row_and_its_rows:
  "let (db', res) = snapshot_main api de cn env http_ok elapsed_ms ins db
   in t_runs db' = t_runs db
     \<or> (\<exists>rpc_url filters rs run. scope_filters (sn_scope run) = Some filters
          \<and> list_all2 (fetched api rpc_url) (concat (map filter_pages filters)) rs
          \<and> t_runs db' = t_runs db @ [run] \<and> bag_in db' = bag_in db + mset (rows_of_pages de rs)
          \<and> list_all (\<lambda>r. row_slot r \<le> sn_slot run) (rows_of_pages de rs)
          \<and> (list_all (\<lambda>r. row_slot r = sn_slot run) (rows_of_pages de rs)
               \<longleftrightarrow> list_all (\<lambda>(slot, accounts). accounts = [] \<or> slot = sn_slot run) rs)
          \<and> sn_rows_written run + sn_decode_failures run = sn_accounts run
               + of_nat (length (filter (\<lambda>(slot, a). decodable (account_kind_of de a)) (accounts_of_pages rs))))"
proof -
  have le: "list_all (\<lambda>r. row_slot r \<le> fold max (map fst rs) 0) (rows_of_pages de rs)" for rs
    using slots_le_run [of de rs] by (auto simp: list_all_iff)
  define main where "main = snapshot_main api de cn env http_ok elapsed_ms ins db"
  show ?thesis
  proof (cases "t_runs (fst main) = t_runs db")
    case False
    then obtain rpc_url filters rs run where "t_runs (fst main) = t_runs db @ [run]"
      "scope_filters (sn_scope run) = Some filters"
      "list_all2 (fetched api rpc_url) (concat (map filter_pages filters)) rs"
      "bag_in (fst main) = bag_in db + mset (rows_of_pages de rs)" "sn_slot run = fold max (map fst rs) 0"
      "sn_accounts run = of_nat (length (accounts_of_pages rs))"
      "sn_rows_written run = of_nat (length (rows_of_pages de rs))"
      "sn_decode_failures run = of_nat (length (filter (\<lambda>(slot, a). decode_fails de a) (accounts_of_pages rs)))"
      using run_row_facts [of api de cn env http_ok elapsed_ms ins db]
      by (auto simp: Let_def split_beta main_def)
    with le [of rs] show ?thesis
      unfolding Let_def split_beta main_def [symmetric]
      by (intro disjI2 exI [of _ rpc_url] exI [of _ filters] exI [of _ rs] exI [of _ run])
        (simp add: run_slot_on_every_row [unfolded split_beta] rows_and_failures [unfolded split_beta])
  qed (simp add: Let_def split_beta flip: main_def)
qed

end
