(* ===== verification/Source_Tests.thy ===== *)
theory Source_Tests
  imports Resume Export_Rows
begin

text \<open>
  The unit tests of the repository, as bool-valued definitions under the names they have in
  the source: \<open>src/resume.rs\<close>, \<open>src/payload.rs\<close>, \<open>src/coldpath.rs\<close> and the ones of
  \<open>src/bin/parquet_export.rs\<close>. A test is the conjunction of its assertions, a failed pattern
  or an \<open>unwrap\<close> of an error is False, and a loop that drives the guard is a fold over the
  range it runs through. What the model does on each of them is evaluated or, for the loops of
  thousands of observations, derived from the guard's own lemmas.
\<close>

section \<open>What the tests call of the standard library\<close>

text \<open>\<open>str::contains\<close> and \<open>str::split_once\<close>.\<close>

fun str_contains :: "string \<Rightarrow> string \<Rightarrow> bool" where
  "str_contains pat [] \<longleftrightarrow> pat = []"
| "str_contains pat (c # s) \<longleftrightarrow> take (length pat) (c # s) = pat \<or> str_contains pat s"

fun split_once :: "char \<Rightarrow> string \<Rightarrow> (string \<times> string) option" where
  "split_once c [] = None"
| "split_once c (d # s) =
     (if d = c then Some ([], s)
      else case split_once c s of None \<Rightarrow> None | Some (a, b) \<Rightarrow> Some (d # a, b))"

text \<open>\<open>Schema::field_with_name\<close>; None is its error.\<close>

definition field_with_name :: "schema \<Rightarrow> string \<Rightarrow> field option" where
  "field_with_name s name = find (\<lambda>f. fld_name f = name) s"

lemma digit_chars:
  "digit_char 0 = CHR ''0''" "digit_char 1 = CHR ''1''" "digit_char (Suc 0) = CHR ''1''" "digit_char 2 = CHR ''2''"
  "digit_char 3 = CHR ''3''" "digit_char 4 = CHR ''4''" "digit_char 5 = CHR ''5''" "digit_char 6 = CHR ''6''"
  "digit_char 7 = CHR ''7''" "digit_char 8 = CHR ''8''" "digit_char 9 = CHR ''9''"
  by code_simp+

lemmas decimal_eval = decimal_small decimal_large digit_chars

section \<open>\<open>src/resume.rs\<close>\<close>

definition no_checkpoint_is_not_a_gap :: bool where
  "no_checkpoint_is_not_a_gap \<longleftrightarrow> classify_resume None 437313969 = Not_Applicable"

definition inclusive_resume_is_healthy :: bool where
  "inclusive_resume_is_healthy \<longleftrightarrow> classify_resume (Some 437313969) 437313969 = Clean 0"

definition over_replay_is_healthy :: bool where
  "over_replay_is_healthy \<longleftrightarrow> classify_resume (Some 437313969) 437313900 = Clean 0"

definition measured_quiet_spans_stay_clean :: bool where
  "measured_quiet_spans_stay_clean \<longleftrightarrow>
     list_all (\<lambda>delta. classify_resume (Some 437313969) (437313969 + delta) = Clean delta) [1, 7, 42, 96]"

definition the_observed_healthy_redeploy_stays_clean :: bool where
  "the_observed_healthy_redeploy_stays_clean \<longleftrightarrow> classify_resume (Some 437903892) 437903948 = Clean 56"

definition a_long_restart_with_working_replay_stays_clean :: bool where
  "a_long_restart_with_working_replay_stays_clean \<longleftrightarrow> classify_resume (Some 437903892) 437903892 = Clean 0"

definition is_gap :: "resume_verdict \<Rightarrow> bool" where
  "is_gap v = (case v of Gap _ _ _ \<Rightarrow> True | _ \<Rightarrow> False)"

definition tolerance_boundary_is_inclusive :: bool where
  "tolerance_boundary_is_inclusive \<longleftrightarrow>
     (let base = 437313969 in
      classify_resume (Some base) (base + RESUME_TOLERANCE_SLOTS) = Clean RESUME_TOLERANCE_SLOTS
      \<and> is_gap (classify_resume (Some base) (base + RESUME_TOLERANCE_SLOTS + 1)))"

definition one_slot_past_tolerance_counts_the_hole_correctly :: bool where
  "one_slot_past_tolerance_counts_the_hole_correctly \<longleftrightarrow>
     (let base = 437313969 in
      classify_resume (Some base) (base + RESUME_TOLERANCE_SLOTS + 1)
        = Gap base (base + RESUME_TOLERANCE_SLOTS + 1) RESUME_TOLERANCE_SLOTS)"

definition the_2026_08_05_wedge_shape_is_caught :: bool where
  "the_2026_08_05_wedge_shape_is_caught \<longleftrightarrow>
     (let verdict = classify_resume (Some 437313969) 437387843 in
      verdict = Gap 437313969 437387843 73873)"

definition gap_bounds_are_slots_we_hold :: bool where
  "gap_bounds_are_slots_we_hold \<longleftrightarrow>
     (case classify_resume (Some 1000) 2000 of
        Gap start_slot end_slot missed \<Rightarrow>
          start_slot = 1000 \<and> end_slot = 2000 \<and> missed = 999 \<and> missed = end_slot - start_slot - 1
      | _ \<Rightarrow> False)"

definition checkpoint_at_zero_behaves :: bool where
  "checkpoint_at_zero_behaves \<longleftrightarrow> classify_resume (Some 0) 10000 = Gap 0 10000 9999"

definition reason_names_the_absence_of_a_failure :: bool where
  "reason_names_the_absence_of_a_failure \<longleftrightarrow>
     (let reason = startup_gap_reason 73874 in
      str_contains ''73874'' reason \<and> str_contains ''without error'' reason)"

lemmas resume_tests = no_checkpoint_is_not_a_gap_def inclusive_resume_is_healthy_def
  over_replay_is_healthy_def measured_quiet_spans_stay_clean_def
  the_observed_healthy_redeploy_stays_clean_def a_long_restart_with_working_replay_stays_clean_def
  is_gap_def tolerance_boundary_is_inclusive_def one_slot_past_tolerance_counts_the_hole_correctly_def
  the_2026_08_05_wedge_shape_is_caught_def gap_bounds_are_slots_we_hold_def checkpoint_at_zero_behaves_def

lemma resume_tests_pass:
  "no_checkpoint_is_not_a_gap" "inclusive_resume_is_healthy" "over_replay_is_healthy"
  "measured_quiet_spans_stay_clean" "the_observed_healthy_redeploy_stays_clean"
  "a_long_restart_with_working_replay_stays_clean" "tolerance_boundary_is_inclusive"
  "one_slot_past_tolerance_counts_the_hole_correctly" "the_2026_08_05_wedge_shape_is_caught"
  "gap_bounds_are_slots_we_hold" "checkpoint_at_zero_behaves"
  by (simp_all add: resume_tests classify_resume_def const_defs Let_def)

lemma reason_test_passes: "reason_names_the_absence_of_a_failure"
  by (simp add: reason_names_the_absence_of_a_failure_def startup_gap_reason_def show_u64_def Let_def
      decimal_eval)

section \<open>\<open>src/payload.rs\<close>\<close>

definition a_normal_payload_is_quiet :: bool where
  "a_normal_payload_is_quiet \<longleftrightarrow> classify_payload 6264000 3344 = Shape_Ok"

definition a_closed_account_is_not_an_alarm :: bool where
  "a_closed_account_is_not_an_alarm \<longleftrightarrow> classify_payload 0 0 = Closed"

definition funded_but_empty_is_impossible :: bool where
  "funded_but_empty_is_impossible \<longleftrightarrow> classify_payload 6264000 0 = Impossible_Empty"

definition the_2026_08_08_data_slice_incident_is_caught_on_the_first_account :: bool where
  "the_2026_08_08_data_slice_incident_is_caught_on_the_first_account \<longleftrightarrow>
     (let guard = payload_guard_new; (guard, action) = observe 437903892 6264000 0 guard in
      action = Alarm_First \<and> is_firing guard \<and> impossible_count guard = 1)"

text \<open>A counted loop over the guard, with the actions it saw.\<close>

definition observe_range :: "u64 \<Rightarrow> u64 \<Rightarrow> nat \<Rightarrow> nat \<Rightarrow> payload_guard \<Rightarrow> payload_guard \<times> guard_action list" where
  "observe_range base lamports data_len n g =
     observe_all (map (\<lambda>i. (base + of_nat i, lamports, data_len)) [0..<n]) g"

definition a_healthy_reserve_stream_never_fires :: bool where
  "a_healthy_reserve_stream_never_fires \<longleftrightarrow>
     (let (guard, actions) = observe_range 437903892 39017040 4664 10000 payload_guard_new in
      list_all (\<lambda>a. a = Quiet) actions \<and> \<not> is_firing guard \<and> impossible_count guard = 0)"

definition repeats_are_rate_limited_but_never_silent :: bool where
  "repeats_are_rate_limited_but_never_silent \<longleftrightarrow>
     (let (guard, actions) = observe_range 437903892 6264000 0 2000 payload_guard_new;
          alarms = length (filter (\<lambda>a. a \<noteq> Quiet) actions)
      in alarms = 5 \<and> impossible_count guard = 2000)"

definition the_repeat_alarm_carries_the_running_total :: bool where
  "the_repeat_alarm_carries_the_running_total \<longleftrightarrow>
     (let (guard, actions) = observe_range 1000 1 0 (unat REPEAT_EVERY) payload_guard_new;
          final = last (Quiet # actions)
      in final = Alarm_Repeat REPEAT_EVERY)"

definition closures_do_not_contaminate_the_fault_count :: bool where
  "closures_do_not_contaminate_the_fault_count \<longleftrightarrow>
     (let guard = payload_guard_new;
          guard = fst (observe 100 0 0 guard);
          guard = fst (observe 101 0 0 guard);
          guard = fst (observe 102 500 3344 guard)
      in \<not> is_firing guard \<and> closed_count guard = 2 \<and> impossible_span guard = None)"

definition the_span_brackets_every_fault :: bool where
  "the_span_brackets_every_fault \<longleftrightarrow>
     (let guard = payload_guard_new;
          guard = fst (observe 437903892 1 0 guard);
          guard = fst (observe 438000000 1 3344 guard);
          guard = fst (observe 438300972 1 0 guard)
      in impossible_span guard = Some (437903892, 438300972) \<and> impossible_count guard = 2)"

definition display_is_readable_in_both_states :: bool where
  "display_is_readable_in_both_states \<longleftrightarrow>
     (let guard = payload_guard_new in
      payload_guard_text guard = ''no shape faults (0 ordinary closures)''
      \<and> (let guard = fst (observe 437903892 1 0 guard) in
         payload_guard_text guard
           = ''1 impossible empty payloads across slots 437903892..=437903892 (0 ordinary closures)''))"

definition the_alarm_names_the_cause_not_just_the_symptom :: bool where
  "the_alarm_names_the_cause_not_just_the_symptom \<longleftrightarrow>
     (let text = alarm_text 437903892 ''3xyz'' in
      str_contains ''accounts_data_slice'' text \<and> str_contains ''SILENTLY DESTROYED'' text
      \<and> str_contains ''437903892'' text)"

lemmas payload_tests = a_normal_payload_is_quiet_def a_closed_account_is_not_an_alarm_def
  funded_but_empty_is_impossible_def
  the_2026_08_08_data_slice_incident_is_caught_on_the_first_account_def
  closures_do_not_contaminate_the_fault_count_def the_span_brackets_every_fault_def
  display_is_readable_in_both_states_def the_alarm_names_the_cause_not_just_the_symptom_def

lemmas guard_eval = observe_def classify_payload_def payload_guard_new_def is_firing_def impossible_count_def
  closed_count_def impossible_span_def get_or_insert_def is_multiple_of_def const_defs

lemma payload_tests_pass:
  "a_normal_payload_is_quiet" "a_closed_account_is_not_an_alarm" "funded_but_empty_is_impossible"
  "the_2026_08_08_data_slice_incident_is_caught_on_the_first_account"
  "closures_do_not_contaminate_the_fault_count" "the_span_brackets_every_fault"
  by (simp_all add: payload_tests guard_eval Let_def)

lemma display_tests_pass:
  "display_is_readable_in_both_states" "the_alarm_names_the_cause_not_just_the_symptom"
  by (simp_all add: payload_tests guard_eval payload_guard_text_def alarm_text_def show_u64_def Let_def
      decimal_eval)

text \<open>The loops: a healthy stream leaves the guard alone, and a faulty one follows the schedule.\<close>

lemma observe_range_healthy:
  assumes "0 < data_len"
  shows "observe_range base lamports data_len n g = (g, replicate n Quiet)"
proof (induction n)
  case 0
  then show ?case by (simp add: observe_range_def)
next
  case (Suc n)
  then show ?case
    using assms
    by (simp add: observe_range_def observe_all_append observe_def classify_payload_def
        flip: replicate_append_same)
qed

lemma observe_range_faulty:
  assumes "lamports \<noteq> 0" and "n < 2 ^ 64"
  shows "impossible_count (fst (observe_range base lamports 0 n payload_guard_new)) = of_nat n"
    and "snd (observe_range base lamports 0 n payload_guard_new) = map alarm_schedule [1..<Suc n]"
proof -
  define xs where "xs k = map (\<lambda>i. (base + of_nat i, lamports, 0 :: nat)) [0..<k]" for k
  have faults: "filter impossible (xs k) = xs k" for k
    using assms(1) by (simp add: xs_def filter_map comp_def impossible_iff)
  have len: "length (xs k) = k" for k by (simp add: xs_def)
  show "impossible_count (fst (observe_range base lamports 0 n payload_guard_new)) = of_nat n"
    by (simp add: observe_range_def observe_all_guard guard_of_def impossible_count_def faults len
        flip: xs_def)
  have "snd (observe_all (xs k) payload_guard_new) = map alarm_schedule [1..<Suc k]" if "k < 2 ^ 64" for k
    using that
  proof (induction k)
    case 0
    then show ?case by (simp add: xs_def)
  next
    case (Suc k)
    have snoc: "xs (Suc k) = xs k @ [(base + of_nat k, lamports, 0)]" by (simp add: xs_def)
    have "snd (observe (base + of_nat k) lamports 0 (fst (observe_all (xs k) payload_guard_new)))
        = alarm_schedule (Suc k)"
      using observe_schedule [of "base + of_nat k" lamports 0 "xs k"] assms(1) Suc.prems
      by (simp add: impossible_iff faults len)
    with Suc show ?case
      by (simp add: snoc observe_all_append Let_def split_beta)
  qed
  from this [OF assms(2)] show
    "snd (observe_range base lamports 0 n payload_guard_new) = map alarm_schedule [1..<Suc n]"
    by (simp add: observe_range_def xs_def)
qed

lemma last_schedule: "0 < n \<Longrightarrow> last (map alarm_schedule [1..<Suc n]) = alarm_schedule n"
  by simp

lemma length_loud:
  "length (filter (\<lambda>a. a \<noteq> Quiet) (map alarm_schedule [1..<n])) = card {i. 1 \<le> i \<and> i < n \<and> (i = 1 \<or> 500 dvd i)}"
proof -
  have loud: "alarm_schedule i \<noteq> Quiet \<longleftrightarrow> i = 1 \<or> 500 dvd i" for i
    by (simp add: alarm_schedule_def mod_eq_0_iff_dvd)
  show ?thesis
    unfolding filter_map length_map comp_def loud
    by (subst distinct_length_filter) (auto intro!: arg_cong [of _ _ card])
qed

lemma loud_2000: "card {i :: nat. 1 \<le> i \<and> i < 2001 \<and> (i = 1 \<or> 500 dvd i)} = 5"
proof -
  have "i = 500 \<or> i = 1000 \<or> i = 1500 \<or> i = 2000" if "1 \<le> i" "i < 2001" "500 dvd i" for i :: nat
  proof -
    from that(3) obtain k where i: "i = 500 * k" by (rule dvdE)
    with that have "k = 1 \<or> k = 2 \<or> k = 3 \<or> k = 4" by linarith
    with i show ?thesis by auto
  qed
  then have "{i. 1 \<le> i \<and> i < 2001 \<and> (i = 1 \<or> 500 dvd i)} = {1, 500, 1000, 1500, 2000 :: nat}"
    by auto
  then show ?thesis by simp
qed

lemma loop_tests_pass:
  "a_healthy_reserve_stream_never_fires" "repeats_are_rate_limited_but_never_silent"
  "the_repeat_alarm_carries_the_running_total"
proof -
  show "a_healthy_reserve_stream_never_fires"
    by (simp add: a_healthy_reserve_stream_never_fires_def observe_range_healthy list_all_iff
        payload_guard_new_def is_firing_def impossible_count_def)
  show "repeats_are_rate_limited_but_never_silent"
    using observe_range_faulty [of 6264000 2000 437903892] length_loud [of "Suc 2000"] loud_2000
    by (simp add: repeats_are_rate_limited_but_never_silent_def split_beta Let_def del: upt_Suc upt_rec_numeral)
  have "map alarm_schedule [1..<Suc 500] \<noteq> []"
    by (simp del: upt_Suc upt_rec_numeral)
  then have "last (Quiet # map alarm_schedule [1..<Suc 500]) = Alarm_Repeat 500"
    unfolding last_ConsR [OF \<open>map alarm_schedule [1..<Suc 500] \<noteq> []\<close>]
    by (subst last_schedule) (simp_all add: alarm_schedule_def)
  then show "the_repeat_alarm_carries_the_running_total"
    using observe_range_faulty(2) [of 1 500 1000]
    by (simp add: the_repeat_alarm_carries_the_running_total_def split_beta Let_def REPEAT_EVERY_def
        del: upt_Suc upt_rec_numeral last.simps)
qed

section \<open>\<open>src/coldpath.rs\<close>\<close>

definition snapshot_schema_drops_the_base58_duplicates :: bool where
  "snapshot_schema_drops_the_base58_duplicates \<longleftrightarrow>
     (let s = obligation_snapshots_schema in
      field_with_name s ''pubkey'' \<noteq> None
      \<and> field_with_name s ''pubkey_b58'' = None
      \<and> field_with_name s ''owner_b58'' = None)"

definition value_columns_keep_their_raw_fixed_point_scale :: bool where
  "value_columns_keep_their_raw_fixed_point_scale \<longleftrightarrow>
     (let s = obligation_snapshots_schema in
      list_all (\<lambda>name. case field_with_name s name of
            None \<Rightarrow> False
          | Some f \<Rightarrow> (case fld_type f of
                Decimal128 p scale \<Rightarrow> scale = 0 \<and> p = SF_DECIMAL_PRECISION
              | other \<Rightarrow> False))
        [''deposited_value_sf'', ''borrowed_value_sf'', ''borrow_factor_adjusted_debt_sf'',
         ''allowed_borrow_value_sf'', ''unhealthy_borrow_value_sf''])"

definition every_snapshot_column_is_non_null :: bool where
  "every_snapshot_column_is_non_null \<longleftrightarrow>
     list_all (\<lambda>f. \<not> fld_nullable f) obligation_snapshots_schema"

text \<open>The sort key of the next test: the number behind the equals sign.\<close>

definition slot_of_dir :: "string \<Rightarrow> nat" where
  "slot_of_dir d =
     (case split_once (CHR ''='') d of
        None \<Rightarrow> 0
      | Some (col, digits) \<Rightarrow>
          (case parse_unsigned 64 (dropWhile (\<lambda>c. c = CHR ''0'') digits) of None \<Rightarrow> 0 | Some n \<Rightarrow> n))"

definition partition_dirs_sort_lexically_in_slot_order :: bool where
  "partition_dirs_sort_lexically_in_slot_order \<longleftrightarrow>
     (let dirs = map partition_dir [9500000, 437000000, 1500000, 500000] in
      list_all (\<lambda>d. split_once (CHR ''='') d \<noteq> None) dirs
      \<and> sort dirs = sort_key slot_of_dir dirs)"

definition partitions_are_hive_style :: bool where
  "partitions_are_hive_style \<longleftrightarrow>
     (let dir = partition_dir 437313969 in
      case split_once (CHR ''='') dir of
        None \<Rightarrow> False
      | Some (col, val) \<Rightarrow> col = PARTITION_COL \<and> val = ''000437000000'')"

definition partition_boundaries_are_half_open :: bool where
  "partition_boundaries_are_half_open \<longleftrightarrow>
     partition_dir 0 = ''slot_bucket=000000000000''
     \<and> partition_dir (SLOTS_PER_PARTITION - 1) = ''slot_bucket=000000000000''
     \<and> partition_dir SLOTS_PER_PARTITION = ''slot_bucket=000001000000''"

definition the_recorded_gap_bounds_land_where_expected :: bool where
  "the_recorded_gap_bounds_land_where_expected \<longleftrightarrow>
     partition_dir 437313969 = partition_dir 437387843
     \<and> partition_dir 437313969 = ''slot_bucket=000437000000''"

definition payload_column_is_binary_not_utf8 :: bool where
  "payload_column_is_binary_not_utf8 \<longleftrightarrow>
     (case field_with_name account_updates_schema ''data'' of
        None \<Rightarrow> False
      | Some f \<Rightarrow> fld_type f = Binary \<and> \<not> fld_nullable f)"

definition pubkeys_keep_their_fixed_width :: bool where
  "pubkeys_keep_their_fixed_width \<longleftrightarrow>
     list_all (\<lambda>name. case field_with_name account_updates_schema name of
          None \<Rightarrow> False
        | Some f \<Rightarrow> fld_type f = FixedSizeBinary 32) [''pubkey'', ''owner'']"

lemma schema_tests_pass:
  "snapshot_schema_drops_the_base58_duplicates" "value_columns_keep_their_raw_fixed_point_scale"
  "every_snapshot_column_is_non_null" "payload_column_is_binary_not_utf8" "pubkeys_keep_their_fixed_width"
  by (simp_all add: snapshot_schema_drops_the_base58_duplicates_def
      value_columns_keep_their_raw_fixed_point_scale_def every_snapshot_column_is_non_null_def
      payload_column_is_binary_not_utf8_def pubkeys_keep_their_fixed_width_def field_with_name_def
      obligation_snapshots_schema_def account_updates_schema_def field_new_def sf_field_def Let_def)

lemma zeros_eval: "replicate (numeral k) c = c # replicate (pred_numeral k) c"
  by (simp add: numeral_eq_Suc)

text \<open>A slot that names its partition by a numeral evaluates to the directory's text.\<close>

lemma partition_dir_eval:
  "partition_dir 0 = ''slot_bucket=000000000000''"
  "partition_dir 999999 = ''slot_bucket=000000000000''"
  "partition_dir 1000000 = ''slot_bucket=000001000000''"
  "partition_dir 500000 = ''slot_bucket=000000000000''"
  "partition_dir 1500000 = ''slot_bucket=000001000000''"
  "partition_dir 9500000 = ''slot_bucket=000009000000''"
  "partition_dir 437000000 = ''slot_bucket=000437000000''"
  "partition_dir 437313969 = ''slot_bucket=000437000000''"
  "partition_dir 437387843 = ''slot_bucket=000437000000''"
  by (simp_all add: partition_dir_def PARTITION_COL_def zero_pad_def decimal_eval unat_partition_start
      zeros_eval)

lemma layout_tests_pass:
  "partitions_are_hive_style" "partition_boundaries_are_half_open"
  "the_recorded_gap_bounds_land_where_expected"
  by (simp_all add: partitions_are_hive_style_def partition_boundaries_are_half_open_def
      the_recorded_gap_bounds_land_where_expected_def partition_dir_eval const_defs PARTITION_COL_def Let_def)

lemma order_test_passes: "partition_dirs_sort_lexically_in_slot_order"
  by (simp add: partition_dirs_sort_lexically_in_slot_order_def Let_def partition_dir_eval slot_of_dir_def
      parse_unsigned_def is_digit_def digit_value_def less_char_def)

section \<open>\<open>src/bin/parquet_export.rs\<close>\<close>

definition is_err :: "'e + 'a \<Rightarrow> bool" where
  "is_err r = (case r of Inl _ \<Rightarrow> True | Inr _ \<Rightarrow> False)"

text \<open>The text of the refusal; the other errors of \<open>parse_sf\<close> are not printed by a test.\<close>

definition sf_error_text :: "export_error \<Rightarrow> string" where
  "sf_error_text e =
     (case e of
        Exceeds_Decimal what slot text \<Rightarrow>
          what @ '' at slot '' @ show_u64 slot @ '' is '' @ text @ '', which exceeds Decimal128(''
          @ decimal SF_DECIMAL_PRECISION @ '',0)'' @ [CHR 0x27] @ ''s maximum of '' @ decimal (nat MAX_SF_VALUE)
          @ ''. Writing it would silently drop digits. A value this large is a decode defect, ''
          @ ''not a real position.''
      | _ \<Rightarrow> [])"

definition ordinary_values_parse :: bool where
  "ordinary_values_parse \<longleftrightarrow>
     parse_sf ''1152921504606846976'' ''v'' 1 = Inr (1 * push_bit 60 1)
     \<and> parse_sf ''0'' ''v'' 1 = Inr 0"

definition the_largest_representable_value_is_accepted :: bool where
  "the_largest_representable_value_is_accepted \<longleftrightarrow>
     parse_sf (decimal (nat MAX_SF_VALUE)) ''v'' 1 = Inr MAX_SF_VALUE"

definition i128_max_is_rejected_because_precision_is_the_real_bound :: bool where
  "i128_max_is_rejected_because_precision_is_the_real_bound \<longleftrightarrow>
     (case parse_sf (decimal (2 ^ 127 - 1)) ''deposited_value_sf'' 437394119 of
        Inr _ \<Rightarrow> False
      | Inl err \<Rightarrow>
          let msg = sf_error_text err in str_contains ''exceeds'' msg \<and> str_contains ''437394119'' msg)"

definition one_past_the_maximum_is_rejected :: bool where
  "one_past_the_maximum_is_rejected \<longleftrightarrow>
     (let over = nat MAX_SF_VALUE + 1 in is_err (parse_sf (decimal over) ''v'' 1))"

definition u128_values_above_i128_max_are_rejected_not_wrapped :: bool where
  "u128_values_above_i128_max_are_rejected_not_wrapped \<longleftrightarrow>
     is_err (parse_sf (decimal (2 ^ 128 - 1)) ''v'' 1)"

definition non_numeric_text_is_an_error_not_a_zero :: bool where
  "non_numeric_text_is_an_error_not_a_zero \<longleftrightarrow>
     is_err (parse_sf '''' ''v'' 1) \<and> is_err (parse_sf ''-1'' ''v'' 1) \<and> is_err (parse_sf ''1.5'' ''v'' 1)"

lemma parse_sf_decimal:
  "n < 2 ^ 128 \<Longrightarrow> parse_sf (decimal n) what slot =
     (if n < 10 ^ 38 then Inr (int n) else Inl (Exceeds_Decimal what slot (decimal n)))"
  by (simp add: parse_sf_of_u128 parse_unsigned_decimal)

lemma sf_tests_pass:
  "ordinary_values_parse" "the_largest_representable_value_is_accepted"
  "one_past_the_maximum_is_rejected" "u128_values_above_i128_max_are_rejected_not_wrapped"
  "non_numeric_text_is_an_error_not_a_zero"
proof -
  show "ordinary_values_parse" "non_numeric_text_is_an_error_not_a_zero"
    by (simp_all add: ordinary_values_parse_def non_numeric_text_is_an_error_not_a_zero_def is_err_def
        parse_sf_of_u128 parse_unsigned_def is_digit_def digit_value_def push_bit_eq_mult)
  show "the_largest_representable_value_is_accepted" "one_past_the_maximum_is_rejected"
    "u128_values_above_i128_max_are_rejected_not_wrapped"
    by (simp_all add: the_largest_representable_value_is_accepted_def one_past_the_maximum_is_rejected_def
        u128_values_above_i128_max_are_rejected_not_wrapped_def is_err_def parse_sf_decimal const_defs
        del: decimal.simps)
qed

lemma refusal_test_passes: "i128_max_is_rejected_because_precision_is_the_real_bound"
proof -
  have refused: "parse_sf (decimal (2 ^ 127 - 1)) what slot = Inl (Exceeds_Decimal what slot (decimal (2 ^ 127 - 1)))"
    for what slot
    by (subst parse_sf_decimal) (simp_all del: decimal.simps)
  show ?thesis
    unfolding i128_max_is_rejected_because_precision_is_the_real_bound_def refused
    by (simp add: sf_error_text_def show_u64_def decimal_eval const_defs Let_def del: decimal.simps)
qed

end
