(* ===== verification/Decode_Tests.thy ===== *)
theory Decode_Tests
  imports Decode Discriminators
begin

text \<open>
  The unit tests of \<open>src/decode.rs\<close>, under the names they have there. A test builds an account
  image by writing fields into a zeroed buffer; the lemmas on \<open>overwrite\<close> read the windows of
  such a buffer, so that the decoded record is computed from the few writes and not from
  thousands of bytes. The buffers of the tests are heap vectors, which the cast accepts, and
  the discriminator of \<open>LendingMarket\<close> is the one its name hashes to.
\<close>

section \<open>Buffers\<close>

text \<open>\<open>copy_from_slice\<close> into a range, and \<open>fill\<close> as its special case.\<close>

definition overwrite :: "nat \<Rightarrow> bytes \<Rightarrow> bytes \<Rightarrow> bytes" where
  "overwrite off bs data = take off data @ bs @ drop (off + length bs) data"

lemma length_overwrite [simp]: "off + length bs \<le> length data \<Longrightarrow> length (overwrite off bs data) = length data"
  by (simp add: overwrite_def)

lemma slice_overwrite_same:
  "off + length bs \<le> length data \<Longrightarrow> n = length bs \<Longrightarrow> slice off n (overwrite off bs data) = bs"
  by (simp add: slice_def overwrite_def)

lemma slice_overwrite_before:
  "a + n \<le> off \<Longrightarrow> off + length bs \<le> length data \<Longrightarrow> slice a n (overwrite off bs data) = slice a n data"
  by (simp add: overwrite_def slice_append_left slice_take)

lemma slice_overwrite_after:
  assumes "off + length bs \<le> a" and "off + length bs \<le> length data"
  shows "slice a n (overwrite off bs data) = slice a n data"
proof -
  from assms(1) obtain k where a: "a = off + length bs + k" using le_Suc_ex by blast
  show ?thesis using assms(2) by (simp add: a slice_def overwrite_def add.commute)
qed

lemmas slice_overwrite = slice_overwrite_same slice_overwrite_before slice_overwrite_after

lemma take_overwrite:
  "length bs = 8 \<Longrightarrow> 8 \<le> length data \<Longrightarrow> take 8 (overwrite 0 bs data) = bs"
  "8 \<le> off \<Longrightarrow> off + length bs \<le> length data \<Longrightarrow> take 8 (overwrite off bs data) = take 8 data"
  by (simp_all add: overwrite_def min_def)

lemma of_le_one [simp]: "of_le [b] = (b :: u8)"
  by (simp add: of_le_def)

text \<open>\<open>Option<Result<_>>::unwrap().unwrap()\<close> followed by the assertions on the record.\<close>

definition decoded :: "('e + 'a) option \<Rightarrow> ('a \<Rightarrow> bool) \<Rightarrow> bool" where
  "decoded result asserts =
     (case result of Some (Inr d) \<Rightarrow> asserts d | _ \<Rightarrow> False)"

definition aligned :: "bytes \<Rightarrow> bool" where
  "aligned payload = True"

definition spl_discriminator :: "string \<Rightarrow> bytes" where
  "spl_discriminator name = take 8 (sha256 (ascii name))"

section \<open>Obligations\<close>

definition decode_rejects_short_data :: bool where
  "decode_rejects_short_data \<longleftrightarrow> decode_obligation aligned (replicate 7 0) = None"

definition decode_rejects_wrong_size :: bool where
  "decode_rejects_wrong_size \<longleftrightarrow> decode_obligation aligned (replicate 10 0) = None"

definition decode_obligation_zeroed_is_valid :: bool where
  "decode_obligation_zeroed_is_valid \<longleftrightarrow>
     (let data = replicate 3344 0;
          data = overwrite 0 [0xa8, 0xce, 0x8d, 0x6a, 0x58, 0x4c, 0xac, 0xa7] data
      in decoded (decode_obligation aligned data) (\<lambda>d.
           do_num_deposits d = 0 \<and> do_num_borrows d = 0
           \<and> do_flags d AND 1 = 0 \<and> do_health_factor_bps d = - 1))"

section \<open>Lending markets\<close>

definition lm_decode_rejects_short_data :: bool where
  "lm_decode_rejects_short_data \<longleftrightarrow> decode_lending_market aligned spl_discriminator (replicate 7 0) = None"

definition lm_decode_rejects_wrong_discriminator :: bool where
  "lm_decode_rejects_wrong_discriminator \<longleftrightarrow>
     (let data = replicate 4664 0; data = overwrite 0 (replicate 8 0) data
      in decode_lending_market aligned spl_discriminator data = None)"

definition lm_decode_zeroed_is_valid :: bool where
  "lm_decode_zeroed_is_valid \<longleftrightarrow>
     (let data = replicate 4664 0;
          data = overwrite 0 [0xf6, 0x72, 0x32, 0x62, 0x48, 0x9d, 0x1c, 0x78] data
      in decoded (decode_lending_market aligned spl_discriminator data) (\<lambda>d.
           dm_owner d = replicate 32 0 \<and> dm_quote_currency d = replicate 32 0 \<and> dm_flags d = 0
           \<and> dm_referral_fee_bps d = 0 \<and> dm_liquidation_max_debt_close_factor_pct d = 0))"

definition lm_decode_flags_encoded_correctly :: bool where
  "lm_decode_flags_encoded_correctly \<longleftrightarrow>
     (let data = replicate 4664 0;
          data = overwrite 0 [0xf6, 0x72, 0x32, 0x62, 0x48, 0x9d, 0x1c, 0x78] data;
          data = overwrite (8 + 114) [1] data;
          data = overwrite (8 + 115) [1] data
      in decoded (decode_lending_market aligned spl_discriminator data) (\<lambda>d.
           dm_flags d AND 1 \<noteq> 0 \<and> dm_flags d AND 2 \<noteq> 0))"

section \<open>Reserves\<close>

definition decode_reserve_rejects_too_short :: bool where
  "decode_reserve_rejects_too_short \<longleftrightarrow>
     decode_reserve aligned (replicate 10 0) = None \<and> decode_reserve aligned (replicate 1359 0) = None"

definition decode_reserve_accepts_minimum_size :: bool where
  "decode_reserve_accepts_minimum_size \<longleftrightarrow>
     (let data = replicate 1360 0;
          data = overwrite 0 [0x2b, 0xf2, 0xcc, 0xca, 0x1a, 0xf7, 0x3b, 0x7f] data
      in decode_reserve aligned data \<noteq> None)"

definition decode_reserve_zeroed_fields :: bool where
  "decode_reserve_zeroed_fields \<longleftrightarrow>
     (let data = replicate 4664 0;
          data = overwrite 0 [0x2b, 0xf2, 0xcc, 0xca, 0x1a, 0xf7, 0x3b, 0x7f] data
      in decoded (decode_reserve aligned data) (\<lambda>d.
           dr_version d = 0 \<and> dr_last_update_slot d = 0 \<and> dr_lending_market d = replicate 32 0
           \<and> dr_liquidity_mint d = replicate 32 0 \<and> dr_supply_vault d = replicate 32 0
           \<and> dr_fee_vault d = replicate 32 0 \<and> dr_available_liquidity d = 0
           \<and> dr_borrowed_amount d = 0 \<and> dr_market_price d = 0 \<and> dr_mint_decimals d = 0
           \<and> dr_accumulated_protocol_fees d = 0 \<and> dr_accumulated_referrer_fees d = 0))"

definition decode_reserve_reads_known_fields :: bool where
  "decode_reserve_reads_known_fields \<longleftrightarrow>
     (let data = replicate 4664 0;
          data = overwrite 0 [0x2b, 0xf2, 0xcc, 0xca, 0x1a, 0xf7, 0x3b, 0x7f] data;
          data = overwrite 8 (to_le 8 (42 :: u64)) data;
          data = overwrite 16 (to_le 8 (777 :: u64)) data;
          data = overwrite 224 (to_le 8 (1000000 :: u64)) data;
          data = overwrite 272 (to_le 8 (9 :: u64)) data
      in decoded (decode_reserve aligned data) (\<lambda>d.
           dr_version d = 42 \<and> dr_last_update_slot d = 777
           \<and> dr_available_liquidity d = 1000000 \<and> dr_mint_decimals d = 9))"

definition decode_reserve_uses_only_disc_plus_prefix :: bool where
  "decode_reserve_uses_only_disc_plus_prefix \<longleftrightarrow>
     (let data = replicate 4664 0;
          data = overwrite 0 [0x2b, 0xf2, 0xcc, 0xca, 0x1a, 0xf7, 0x3b, 0x7f] data;
          data = overwrite 8 (to_le 8 (99 :: u64)) data;
          data = overwrite 1360 (replicate 8 0xff) data
      in decoded (decode_reserve aligned data) (\<lambda>d. dr_version d = 99))"

section \<open>They pass\<close>

lemma rejection_tests_pass:
  "decode_rejects_short_data" "decode_rejects_wrong_size" "lm_decode_rejects_short_data"
  "decode_reserve_rejects_too_short"
  by (simp_all add: decode_rejects_short_data_def decode_rejects_wrong_size_def
      lm_decode_rejects_short_data_def decode_reserve_rejects_too_short_def decode_obligation_def
      decode_lending_market_def from_account_data_def decode_reserve_def const_defs)

lemma decode_reserve_of_buffer:
  "1360 \<le> length data \<Longrightarrow>
     decode_reserve aligned data = Some (Inr (decoded_of_reserve (dec_reserve_lite (slice 8 1352 data))))"
  by (simp add: decode_reserve_def aligned_def const_defs)

lemma decode_market_of_buffer:
  "4664 \<le> length data \<Longrightarrow> decode_lending_market aligned spl_discriminator data =
     (if take 8 data = LENDING_MARKET_DISC
      then Some (Inr (decoded_of_market (dec_lending_market (slice 8 4656 data)))) else None)"
  by (simp add: decode_lending_market_def from_account_data_def spl_discriminator_def lending_market_hash
      aligned_def Let_def DISCRIMINATOR_SIZE_def)

lemma decode_obligation_of_buffer:
  "3344 \<le> length data \<Longrightarrow>
     decode_obligation aligned data = Some (Inr (decoded_of_obligation (dec_obligation (slice 8 3336 data))))"
  by (simp add: decode_obligation_def aligned_def const_defs)

lemmas read_buffer = slice_overwrite take_overwrite slice_slice slice_replicate decoded_def Let_def

lemma reserve_tests_pass:
  "decode_reserve_accepts_minimum_size" "decode_reserve_zeroed_fields"
  "decode_reserve_reads_known_fields" "decode_reserve_uses_only_disc_plus_prefix"
  by (simp_all add: decode_reserve_accepts_minimum_size_def decode_reserve_zeroed_fields_def
      decode_reserve_reads_known_fields_def decode_reserve_uses_only_disc_plus_prefix_def
      decode_reserve_of_buffer read_buffer decoded_of_reserve_def dec_reserve_lite_def
      dec_reserve_liquidity_def dec_last_update_def u128_of_pod_def of_le_to_le)

lemma dec_arr_zeroes:
  assumes "n * sz \<le> m"
  shows "dec_arr sz dec n (replicate m 0) = replicate n (dec (replicate sz 0))"
proof (rule nth_equalityI)
  fix i
  assume "i < length (dec_arr sz dec n (replicate m 0))"
  then have i: "i < n" by simp
  then have "Suc i * sz \<le> n * sz" by (intro mult_le_mono1) simp
  with assms have "i * sz + sz \<le> m" by simp
  then show "dec_arr sz dec n (replicate m 0) ! i = replicate n (dec (replicate sz 0)) ! i"
    using i by (simp add: nth_dec_arr slice_replicate)
qed simp

lemma market_tests_pass:
  "lm_decode_rejects_wrong_discriminator" "lm_decode_zeroed_is_valid" "lm_decode_flags_encoded_correctly"
proof -
  have disc: "replicate 8 0 \<noteq> LENDING_MARKET_DISC"
  proof
    assume eq: "replicate 8 0 = LENDING_MARKET_DISC"
    show False using arg_cong [OF eq, of hd] by (simp add: const_defs)
  qed
  then show "lm_decode_rejects_wrong_discriminator"
    by (simp add: lm_decode_rejects_wrong_discriminator_def decode_market_of_buffer read_buffer)
  note market = decoded_of_market_def dec_lending_market_def market_flags_def Let_def
    LendingMarket_is_emergency_mode_def LendingMarket_is_autodeleverage_enabled_def
    LendingMarket_is_borrow_disabled_def LendingMarket_is_immutable_def
    LendingMarket_referral_fee_bps_def LendingMarket_liquidation_max_debt_close_factor_pct_def
  show "lm_decode_zeroed_is_valid"
    by (simp add: lm_decode_zeroed_is_valid_def decode_market_of_buffer read_buffer LENDING_MARKET_DISC_def market)
  show "lm_decode_flags_encoded_correctly"
    by (simp add: lm_decode_flags_encoded_correctly_def decode_market_of_buffer read_buffer
        LENDING_MARKET_DISC_def market)
qed

lemma obligation_test_passes: "decode_obligation_zeroed_is_valid"
  by (simp add: decode_obligation_zeroed_is_valid_def decode_obligation_of_buffer read_buffer
      decoded_of_obligation_def dec_obligation_def Obligation_num_deposits_def Obligation_num_borrows_def
      dec_arr_zeroes dec_obligation_collateral_def dec_obligation_liquidity_def default_pubkey_def
      health_factor_def obligation_flags_def u128_of_pod_def filter_replicate)

end
