(* ===== verification/Spec2Isabelle.thy ===== *)
theory Spec2Isabelle
  imports Archive Verdict Catch_Up Two_Writers Instruction_Tags Coldquery Report Snapshot_Run Statements Source_Tests Decode_Tests
begin

text \<open>
  klend-indexer: a verification development.

  The program watches the accounts of the Kamino lending program on Solana and keeps their
  history. Four binaries share a schema:
  \<^item> the indexer (\<open>src/main.rs\<close>) subscribes to a stream of account updates, stores every update
    raw and the decodable ones decoded, and keeps a checkpoint to resume from;
  \<^item> the snapshot writer (\<open>src/bin/snapshot.rs\<close>) fetches all accounts once over RPC and stores
    them in the same tables;
  \<^item> the exporter (\<open>src/bin/parquet_export.rs\<close>) copies two tables into Parquet files, one
    directory per million slots;
  \<^item> the query tool (\<open>src/bin/coldquery.rs\<close>) runs stored statements over that copy.

  The database, the network, the file system, Arrow, Parquet, DataFusion, JSON and the encoding
  crates are not in the repository. They are arguments of the definitions: the outcome of the
  \<open>n\<close>th insert or file operation, the events a session delivers, the result of a query. A
  statement that does not constrain them holds whatever they do, including partial writes,
  lost acknowledgements and a crash at any point; a statement that does says so in a premise, which is
  documented behaviour: \<open>reads_filters\<close> of the stream's filters, \<open>takes_well_typed\<close> of Arrow's record batches,
  \<open>replaces\<close> and \<open>newest\<close> of \<open>FINAL\<close>. Each of these comes with a function that has it.

  \<^bold>\<open>Theories, bottom up\<close>
  \<^item> \<open>Prelude\<close>, \<open>Text\<close>: words, outcomes, byte windows, decimal and hexadecimal text, Rust's
    \<open>parse\<close>, \<open>rsplit_once\<close>, \<open>trim_end_matches\<close> and \<open>replace\<close>.
  \<^item> \<open>Pod\<close>, \<open>State_Obligation\<close>, \<open>State_Market\<close>, \<open>State_Reserve\<close>, \<open>State_Misc\<close>, \<open>Accounts\<close>: the
    account structs of \<open>vendor/klend-interface/src/state\<close> as records, each with its byte image.
    The locale \<open>pod\<close> is the contract of a plain-old-data type (size, well-formedness and a
    bijection with the byte strings of that size); it is interpreted for every struct and
    array, which checks every size assertion of the source. \<open>Accounts\<close> has the accessors and
    \<open>from_account_data\<close>.
  \<^item> \<open>Sha256\<close>, \<open>Discriminators\<close>, \<open>Instruction_Tags\<close>: the crate's compile-time hash, the standard
    it is proved equal to, the account discriminators and the instruction table.
  \<^item> \<open>Schema\<close>, \<open>Payload\<close>, \<open>Resume\<close>, \<open>Decode\<close>: \<open>src/schema.rs\<close>, \<open>payload.rs\<close>, \<open>resume.rs\<close>, \<open>decode.rs\<close>.
  \<^item> \<open>Store\<close>, \<open>Writer\<close>, \<open>Request\<close>, \<open>Indexer\<close>: the tables (locale \<open>table\<close>, interpreted for all seven), the
    buffered writer with \<open>flush\<close>, the subscription, and \<open>main\<close> as a state machine. One wake-up of the
    \<open>select!\<close> is \<open>session_step\<close>, a session is \<open>session\<close>, the reconnect loop is \<open>run\<close>. A run is the list
    of what its sessions were given, so each list is one finite history of the process.
  \<^item> \<open>Indexer_Facts\<close>: the locale \<open>session_invariant\<close> (what account handling, flushes and gap
    rows keep, whole runs keep), interpreted for the buffer bounds, the checkpoint rows, the
    sampling mode and the presence of the writer.
  \<^item> \<open>Gap_Records\<close>: what a whole session adds to the gap table, as a function of its events.
  \<^item> \<open>Journal\<close>: the abstract specification of the indexer, a list of rows per table to which every
    update adds its own, and the refinement of it by steps, sessions and runs, with the resume point that
    the deliveries leave behind. \<open>Two_Writers\<close>:
    the snapshot writer refines the same specification.
  \<^item> \<open>World\<close>, \<open>Accounting\<close>, \<open>Delivery\<close>: the indexer against the chain it indexes, as a transition
    system with kills, refused and late replays, and the holes its sessions leave. \<open>Accounting\<close>
    proves that holes are on record, \<open>Delivery\<close> that what is below the checkpoint is stored or in a
    hole; the locale \<open>delivery\<close> is what that needs of the world outside.
    \<open>Catch_Up\<close> composes \<open>Delivery\<close> with \<open>Journal\<close>: what a run without faults makes of the rest.
  \<^item> \<open>Startup\<close>, \<open>Summary\<close>: the environment and \<open>src/ch.rs\<close>; the counts behind the report of a run.
    \<open>AccountKind\<close> is an instance of \<open>linorder\<close>, its derived order.
  \<^item> \<open>Float64\<close>, \<open>Report\<close>: \<open>f64\<close> as rational numbers with the rounding of each operation, its fixed-point
    text, and the lines \<open>main\<close> prints: lag, reconnect and summary.
  \<^item> \<open>Coldpath\<close>, \<open>Export_Rows\<close>, \<open>Export\<close>, \<open>Export_Facts\<close>, \<open>Export_Run\<close>: layout, row decoding and batches,
    the export of a partition and of a table, and what they leave on the disk. The locale
    \<open>column_builder\<close> is the contract of a batch builder, interpreted for both tables;
    \<open>partition_exporter\<close> is what the partition loop needs of the export of one partition, and
    every builder gives one (\<open>sublocale\<close>).
  \<^item> \<open>Coldquery\<close>: the stored statements, what they compute, and the command dispatch.
  \<^item> \<open>Snapshot\<close>, \<open>Snapshot_Facts\<close>, \<open>Snapshot_Run\<close>: the RPC request and response, the chunked insert, pages, totals, \<open>main\<close>.
  \<^item> \<open>Merge\<close>, \<open>Pipeline\<close>, \<open>Archive\<close>, \<open>Verdict\<close>: the tables as \<open>SELECT ... FINAL\<close> sees them, the
    exporter's statements as functions of a table, and the composition of indexer, table and
    exporter. How the server merges is a parameter, \<open>replaces\<close> what it is documented to do. The locale \<open>merged_table\<close> is a table with its key, its order and the two forms of its
    rows, interpreted for the raw updates (\<open>Pipeline\<close>) and for the obligation snapshots (\<open>Archive\<close>);
    \<open>Archive\<close> is the exporter's \<open>main\<close> on both, \<open>Verdict\<close> its count check on a live table.
  \<^item> \<open>Statements\<close>: \<open>schema/*.sql\<close> as tables, the texts of the inserts and selects, and what it takes
    for a statement and the row it sends or reads to fit a table.
  \<^item> \<open>Source_Tests\<close>, \<open>Decode_Tests\<close>: the repository's own unit tests, run on the model.
  \<^item> This theory: the properties that span components.

  \<^bold>\<open>What the properties show\<close>
  \<^item> Ordering of writes: a checkpoint or a run row only ever appears after the data it stands
    for, whatever each insert did, and therefore every update lost across restarts is accounted for.
  \<^item> Refinement: while inserts are acknowledged the indexer stores exactly what it is delivered,
    whatever its batches and reconnects, and the snapshot writer stores the same rows.
  \<^item> Decoding: the byte layouts are bijections of the asserted sizes, the truncated reserve
    decoder agrees with the full struct, and each stored field is the field of the account.
  \<^item> Identification: the hash is SHA-256, the discriminators are the hashes of their names,
    and the stream's filters admit exactly what the decoders decode of what transactions write.
  \<^item> The cold copy: a partition is published whole or not at all, the loop ends, and a run
    with no failure and no skip copies the table exactly. End to end, from the chain through
    kills, duplicates and merging, every update has one raw copy in the files, and its decoded
    obligation one snapshot, or it lies in a hole.
  \<^item> Recovery: once faults stop, a restarted process stores the whole rest of the chain.
  \<^item> The report: the seconds and shares printed are right in spite of floating point.
  \<^item> The schema: every row fits its table, column by column, under the statement it is sent with.
  \<^item> Snapshots: pages neither miss nor repeat an account, chunks neither lose nor duplicate a row.
  \<^item> Behaviour worth knowing that the source does not intend: health factors that wrap to zero, a
    gap insert without a timeout, a checkpoint given up after a quiet session, an audit that
    differs from the detector at one distance, partitions that are never completed, a correct
    export of a live table that is called a defect, and a run row that is not what its table says.

  \<^bold>\<open>Bounds and termination\<close>
  Integers have the width of the source and wrap as in a release build; the lemmas state the
  bounds under which they do not. \<open>usize\<close> counts of rows in memory are natural numbers. The
  partition loop is a \<open>partial_function\<close>: it does not end when the newest slot lies in the last
  million below \<open>2 ^ 64\<close>, and \<open>slots_fit\<close> is the bound under which it is proved to. Every other
  loop is structural or has a measure; no fuel is used.

  \<^bold>\<open>Not modelled\<close>
  Log lines other than those of \<open>Report\<close> and the alarm; sleeping (the back-off is computed, not waited);
  the clock, which is an argument; infinities, \<open>NaN\<close> and the sign of zero, which no line
  computes with; the native wire format and the \<open>Row\<close> derive macro of the
  database client, of which only the field names and types of a row are kept; error context beyond
  the innermost message. Of a table only the columns and the merging of equal keys are modelled, not
  partitions, codecs or indexes. Of the vendored crate the indexer uses
  the account structs and discriminators only, so its instruction builders, account lists,
  program-derived addresses, fractions and error table are left out, as are the dashboard and
  the deployment scripts.
\<close>

section \<open>What the stream delivers is what the decoders know\<close>

text \<open>
  C11 With SHA-256 as the hash, the three discriminator constants of the request are the hash
  prefixes of their account names, and a server that reads the filters as documented sends an account write for the
  subscription exactly when the program owns the account, a transaction with a signature wrote it, and the classifier
  names it Obligation, Reserve or LendingMarket: the filters let through what the decoders decode, and
  nothing else.
\<close>

theorem stream_kinds:
  assumes "reads_filters sends takes"
  shows "OBLIGATION_DISC = take 8 (sha256 (ascii ''account:Obligation''))
   \<and> RESERVE_DISC = take 8 (sha256 (ascii ''account:Reserve''))
   \<and> LENDING_MARKET_DISC = take 8 (sha256 (ascii ''account:LendingMarket''))
   \<and> (sends (build_request from_slot) a \<longleftrightarrow>
        wr_owner a = KLEND_PROGRAM \<and> wr_txn_signature a \<noteq> None
        \<and> account_kind_from sha256 (wr_data a) \<in> {Known ''Obligation'', Known ''Reserve'', Known ''LendingMarket''})"
proof -
  have names: "''Obligation'' \<in> set CANDIDATE_ACCOUNTS" "''Reserve'' \<in> set CANDIDATE_ACCOUNTS"
    "''LendingMarket'' \<in> set CANDIDATE_ACCOUNTS"
    by (simp_all add: CANDIDATE_ACCOUNTS_def)
  have len: "take 8 data = d \<Longrightarrow> length d = 8 \<Longrightarrow> 8 \<le> length data" for data d :: bytes
    by (drule arg_cong [where f = length]) simp
  note lens = len [OF _ length_discs(1)] len [OF _ length_discs(2)] len [OF _ length_discs(3)]
  show ?thesis
    unfolding sends_build_request [OF assms]
    by (auto simp: kind_known_sha256 names account_hashes dest: lens)
qed

theorem stream_kinds_witness:
  "server_sends (build_request None) \<lparr>wr_owner = KLEND_PROGRAM, wr_data = RESERVE_DISC, wr_txn_signature = Some []\<rparr>
   \<and> \<not> server_sends (build_request None) \<lparr>wr_owner = KLEND_PROGRAM, wr_data = RESERVE_DISC, wr_txn_signature = None\<rparr>"
proof -
  have kind: "account_kind_from sha256 RESERVE_DISC = Known ''Reserve''"
    by (simp add: kind_known_sha256 CANDIDATE_ACCOUNTS_def reserve_hash length_discs)
  note sent = stream_kinds [OF server_reads_filters, THEN conjunct2, THEN conjunct2, THEN conjunct2, of None]
  show ?thesis unfolding sent by (simp add: kind)
qed

section \<open>A resumed session that only hears of a quiet chain\<close>

text \<open>Events that carry no account update and do not end the session.\<close>

definition quiet_event :: "event \<Rightarrow> bool" where
  "quiet_event e =
     (case e of
        Message ts u \<Rightarrow> (case u of Account_Update slot info \<Rightarrow> False | _ \<Rightarrow> True)
      | Flush_Tick \<Rightarrow> True
      | Lag_Tick \<Rightarrow> True
      | _ \<Rightarrow> False)"

text \<open>The state of a process that has not seen an account update.\<close>

definition untouched :: "db \<Rightarrow> indexer \<Rightarrow> bool" where
  "untouched db ix \<longleftrightarrow>
     ix_writer ix = Some writer_new \<and> ix_db ix = db \<and> ix_last_slot ix = 0 \<and> \<not> ix_got_data ix
     \<and> \<not> ix_shutdown ix \<and> ix_session_first_slot ix = None"

lemma judge_without_data: "ix_session_first_slot ix = None \<Longrightarrow> judge_resume ext r ix = Continue ix"
  by (simp add: judge_resume_def split: bool.splits)

lemma untouched_quiet_step:
  "untouched db ix \<Longrightarrow> quiet_event e \<Longrightarrow>
     \<exists>ix'. session_step ext None r e ix = Continue ix' \<and> untouched db ix'"
  by (auto simp: quiet_event_def session_step_def handle_message_def note_produced_def Let_def
      judge_without_data flush_writer_step_def flush_empty lag_line_def untouched_def
      split: event.splits update_oneof.splits option.splits)

lemma untouched_quiet_run:
  "untouched db ix \<Longrightarrow> list_all quiet_event es \<Longrightarrow>
     \<exists>ix'. run_stream ext None r (es @ [Stream_Ended]) ix = Break ix' \<and> untouched db ix'"
proof (induction es arbitrary: ix)
  case Nil
  then show ?case by (simp add: session_step_def step_then_def)
next
  case (Cons e es)
  then obtain ix1 where "session_step ext None r e ix = Continue ix1" "untouched db ix1"
    using untouched_quiet_step [of db ix e ext r] by auto
  with Cons show ?case by (simp add: step_then_def)
qed

text \<open>
  C28 A process that resumes from a checkpoint and then hears only of a quiet chain (slot, ping
  and other messages, ticks) until the stream ends, with no error, gives the checkpoint up: it
  records a gap that starts at the checkpoint and ends at slot zero, before it starts, and its
  next session asks for no slot at all. The insert of the gap row is assumed acknowledged.
\<close>

theorem quiet_resume_abandons_checkpoint:
  assumes "list_all quiet_event es" and "x_final ext (stream_rows db) = Some row"
    and "x_ins ext (op_count db) = Acked"
  shows "\<exists>ix. session ext None \<lparr>si_query_err = None, si_connect_err = None, si_subscribe_err = None,
                                si_events = es @ [Stream_Ended]\<rparr> (indexer_new True db) = Reconnect ix
    \<and> t_gaps (ix_db ix) = t_gaps db @ [\<lparr>gp_stream = STREAM, gp_start_slot = ck_last_slot row,
        gp_end_slot = 0, gp_reason = ''resume unreachable: no data before stream error''\<rparr>]
    \<and> resume_point ext inp ix = Inr None"
proof -
  define r where "r = Some (ck_last_slot row)"
  have start: "untouched db (start_session (indexer_new True db\<lparr>ix_force_tip := False\<rparr>))"
    by (simp add: untouched_def start_session_def indexer_new_def)
  obtain ix where run: "run_stream ext None r (es @ [Stream_Ended])
      (start_session (indexer_new True db\<lparr>ix_force_tip := False\<rparr>)) = Break ix" and ix: "untouched db ix"
    using untouched_quiet_run [OF start assms(1)] by blast
  have "resume_point ext si (indexer_new True db) = Inr r" if "si_query_err si = None" for si
    using assms(2) that by (simp add: resume_point_def indexer_new_def read_resume_slot_def r_def)
  then have session: "session ext None \<lparr>si_query_err = None, si_connect_err = None, si_subscribe_err = None,
      si_events = es @ [Stream_Ended]\<rparr> (indexer_new True db) = finish_session ext None r ix"
    by (simp add: session_def Let_def run)
  show ?thesis
    unfolding session using ix assms(3)
    by (simp add: finish_session_def flush_writer_step_def flush_empty untouched_def loop_again_def
        budget_reached_def check_unreachable_def r_def try_record_gap_def record_gap_def
        insert_block_def step_then_def count_reconnect_def resume_point_def Let_def)
qed

definition quiet_ext :: external where
  "quiet_ext = \<lparr>x_digest = sha256, x_cast = (\<lambda>_. True), x_spl = (\<lambda>_. []), x_final = newest, x_ins = (\<lambda>_. Acked)\<rparr>"

theorem quiet_resume_abandons_checkpoint_witness:
  "\<exists>ix. session quiet_ext None \<lparr>si_query_err = None, si_connect_err = None, si_subscribe_err = None,
          si_events = [Message None (Slot_Update 437000500), Flush_Tick, Stream_Ended]\<rparr>
        (indexer_new True (empty_db\<lparr>t_checkpoint := [\<lparr>ck_stream = STREAM, ck_last_slot = 437000000,
           ck_last_write_version = 9\<rparr>]\<rparr>)) = Reconnect ix
    \<and> map (\<lambda>g. (gp_start_slot g, gp_end_slot g)) (t_gaps (ix_db ix)) = [(437000000, 0)]
    \<and> resume_point quiet_ext \<lparr>si_query_err = None, si_connect_err = None, si_subscribe_err = None,
          si_events = []\<rparr> ix = Inr None"
  using quiet_resume_abandons_checkpoint [of "[Message None (Slot_Update 437000500), Flush_Tick]" quiet_ext
      "empty_db\<lparr>t_checkpoint := [\<lparr>ck_stream = STREAM, ck_last_slot = 437000000, ck_last_write_version = 9\<rparr>]\<rparr>"
      "\<lparr>ck_stream = STREAM, ck_last_slot = 437000000, ck_last_write_version = 9\<rparr>"
      "\<lparr>si_query_err = None, si_connect_err = None, si_subscribe_err = None, si_events = []\<rparr>"]
  by (auto simp: quiet_event_def quiet_ext_def stream_rows_def newest_def empty_db_def)

end
